(* ===== verification/Prelude.thy ===== *)
theory Prelude
  imports
    Complex_Main
    "HOL-Library.List_Lexorder"
    "HOL-Library.Char_ord"
    "HOL-Library.Product_Lexorder"
    "HOL-Library.Sublist"
    "HOL-Library.Multiset"
begin

text \<open>
  Shared vocabulary of the development: the parts of Python's built-in types that the
  program uses, and the list lemmas that several components need.

  Python's \<open>str\<close> is modelled as \<^typ>\<open>string\<close> (a list of code points below 256, the
  Latin-1 range); whitespace, line breaks and case mapping are Python's, restricted to that
  range. String comparison is by code point, which is the lexicographic order of
  \<open>List_Lexorder\<close> over \<open>Char_ord\<close>; tuples compare lexicographically
  (\<open>Product_Lexorder\<close>). Python's \<open>float\<close> is modelled by exact rationals: rounding of
  individual IEEE operations is not modelled. Python's \<open>int\<close> is unbounded, so \<open>int\<close> or
  \<open>nat\<close> (where the code never goes below zero) are exact.
\<close>

type_synonym pyfloat = rat

text \<open>What reading a number can give: a value, an infinity (negative if true), or no number.\<close>

datatype float_value = FFinite pyfloat | FInfinity bool | FNaN

abbreviation LF :: char where
  "LF \<equiv> CHR 0x0A"

named_theorems py_defs \<open>definitions of the Python built-ins used by the program\<close>

section \<open>Characters and strings\<close>

abbreviation code :: "char \<Rightarrow> nat" where
  "code c \<equiv> of_char c"

text \<open>\<open>str.isspace\<close> on the Latin-1 range.\<close>

definition is_space :: "char \<Rightarrow> bool" where
  "is_space c \<longleftrightarrow>
     (9 \<le> code c \<and> code c \<le> 13) \<or> (28 \<le> code c \<and> code c \<le> 32) \<or> code c = 133 \<or> code c = 160"

text \<open>The boundaries \<open>str.splitlines\<close> recognises on the Latin-1 range.\<close>

definition is_linebreak :: "char \<Rightarrow> bool" where
  "is_linebreak c \<longleftrightarrow>
     (10 \<le> code c \<and> code c \<le> 13) \<or> (28 \<le> code c \<and> code c \<le> 30) \<or> code c = 133"

definition lower_char :: "char \<Rightarrow> char" where
  "lower_char c =
     (if (65 \<le> code c \<and> code c \<le> 90) \<or> (192 \<le> code c \<and> code c \<le> 222 \<and> code c \<noteq> 215)
      then char_of (code c + 32) else c)"

text \<open>
  \<open>str.upper\<close>: the only Latin-1 character whose upper case is longer is 223 (sharp s). The
  upper case of 181 and of 255 lies outside Latin-1; they are left alone, and in either case
  the result is not an ASCII character.
\<close>

definition upper_char :: "char \<Rightarrow> string" where
  "upper_char c =
     (if 97 \<le> code c \<and> code c \<le> 122 \<or> (224 \<le> code c \<and> code c \<le> 254 \<and> code c \<noteq> 247)
      then [char_of (code c - 32)]
      else if code c = 223 then ''SS''
      else [c])"

definition str_lower :: "string \<Rightarrow> string" where
  "str_lower s = map lower_char s"

definition str_upper :: "string \<Rightarrow> string" where
  "str_upper s = concat (map upper_char s)"

definition lstrip_by :: "(char \<Rightarrow> bool) \<Rightarrow> string \<Rightarrow> string" where
  "lstrip_by p s = dropWhile p s"

definition rstrip_by :: "(char \<Rightarrow> bool) \<Rightarrow> string \<Rightarrow> string" where
  "rstrip_by p s = rev (dropWhile p (rev s))"

definition strip_by :: "(char \<Rightarrow> bool) \<Rightarrow> string \<Rightarrow> string" where
  "strip_by p s = rstrip_by p (lstrip_by p s)"

definition strip :: "string \<Rightarrow> string" where
  "strip s = strip_by is_space s"

definition replace_char :: "char \<Rightarrow> char \<Rightarrow> string \<Rightarrow> string" where
  "replace_char a b s = map (\<lambda>c. if c = a then b else c) s"

definition startswith :: "string \<Rightarrow> string \<Rightarrow> bool" where
  "startswith s p \<longleftrightarrow> prefix p s"

definition endswith :: "string \<Rightarrow> string \<Rightarrow> bool" where
  "endswith s p \<longleftrightarrow> suffix p s"

text \<open>The test \<open>needle in haystack\<close> of Python strings.\<close>

definition contains :: "string \<Rightarrow> string \<Rightarrow> bool" where
  "contains s p \<longleftrightarrow> sublist p s"

definition removeprefix :: "string \<Rightarrow> string \<Rightarrow> string" where
  "removeprefix s p = (if prefix p s then drop (length p) s else s)"

fun join :: "string \<Rightarrow> string list \<Rightarrow> string" where
  "join sep [] = []"
| "join sep [x] = x"
| "join sep (x # y # xs) = x @ sep @ join sep (y # xs)"

text \<open>\<open>s.split(c)\<close> for a one-character separator: empty fields are kept.\<close>

fun split_on :: "char \<Rightarrow> string \<Rightarrow> string list" where
  "split_on c [] = [[]]"
| "split_on c (x # xs) =
     (if x = c then [] # split_on c xs
      else (case split_on c xs of [] \<Rightarrow> [[x]] | y # ys \<Rightarrow> (x # y) # ys))"

text \<open>\<open>s.split()\<close>: fields separated by runs of whitespace, no empty field.\<close>

fun split_ws_acc :: "string \<Rightarrow> string \<Rightarrow> string list" where
  "split_ws_acc acc [] = (if acc = [] then [] else [rev acc])"
| "split_ws_acc acc (c # cs) =
     (if is_space c then (if acc = [] then split_ws_acc [] cs else rev acc # split_ws_acc [] cs)
      else split_ws_acc (c # acc) cs)"

definition split_ws :: "string \<Rightarrow> string list" where
  "split_ws s = split_ws_acc [] s"

text \<open>\<open>s.splitlines()\<close>: a carriage return followed by a line feed is one break.\<close>

fun splitlines_acc :: "string \<Rightarrow> string \<Rightarrow> string list" where
  "splitlines_acc acc [] = (if acc = [] then [] else [rev acc])"
| "splitlines_acc acc [c] = (if is_linebreak c then [rev acc] else [rev (c # acc)])"
| "splitlines_acc acc (c # d # cs) =
     (if code c = 13 \<and> code d = 10 then rev acc # splitlines_acc [] cs
      else if is_linebreak c then rev acc # splitlines_acc [] (d # cs)
      else splitlines_acc (c # acc) (d # cs))"

definition splitlines :: "string \<Rightarrow> string list" where
  "splitlines s = splitlines_acc [] s"

text \<open>Decimal rendering of a natural number, and reading one back.\<close>

definition digit :: "nat \<Rightarrow> char" where
  "digit n = char_of (48 + n)"

function (sequential) show_nat :: "nat \<Rightarrow> string" where
  "show_nat n = (if n < 10 then [digit n] else show_nat (n div 10) @ [digit (n mod 10)])"
  by pat_completeness auto
termination by (relation "measure id") auto

declare show_nat.simps [simp del]

definition is_digit :: "char \<Rightarrow> bool" where
  "is_digit c \<longleftrightarrow> 48 \<le> code c \<and> code c \<le> 57"

definition read_nat :: "string \<Rightarrow> nat" where
  "read_nat s = foldl (\<lambda>n c. 10 * n + (code c - 48)) 0 s"

lemmas str_defs =
  str_lower_def str_upper_def lstrip_by_def rstrip_by_def strip_by_def strip_def
  replace_char_def startswith_def endswith_def contains_def removeprefix_def
  split_ws_def splitlines_def is_space_def is_linebreak_def lower_char_def upper_char_def

declare str_defs [py_defs]

lemma split_on_nonempty [simp]: "split_on c s \<noteq> []"
  by (induction s) (auto split: list.splits)

lemma join_split_on [simp]: "join [c] (split_on c s) = s"
proof (induction s)
  case (Cons x xs)
  show ?case
  proof (cases "split_on c xs")
    case Nil
    then show ?thesis by simp
  next
    case (Cons y ys)
    with Cons.IH show ?thesis by (cases ys) auto
  qed
qed simp

lemma join_starts: "xs \<noteq> [] \<Longrightarrow> join sep (x # xs) = x @ sep @ join sep xs"
  by (cases xs) simp_all

lemma join_ends: "xs \<noteq> [] \<Longrightarrow> suffix (sep @ y) (join sep (xs @ [y]))"
proof (induction xs)
  case (Cons x xs)
  then show ?case
    by (cases xs) (auto simp: suffix_def)
qed simp

lemma split_on_no_sep: "x \<in> set (split_on c s) \<Longrightarrow> c \<notin> set x"
  by (induction s arbitrary: x) (auto split: list.splits if_splits)

lemma dropWhile_idem [simp]: "dropWhile p (dropWhile p xs) = dropWhile p xs"
  by (induction xs) auto

lemma lstrip_rstrip_by:
  "lstrip_by p (rstrip_by p (lstrip_by p s)) = rstrip_by p (lstrip_by p s)"
proof (cases "dropWhile p s")
  case Nil
  then show ?thesis by (simp only: lstrip_by_def rstrip_by_def) simp
next
  case (Cons x xs)
  then have "\<not> p x" using hd_dropWhile [of p s] by simp
  then have "dropWhile p (rev xs @ [x]) = dropWhile p (rev xs) @ [x]"
    by (simp add: dropWhile_append3)
  with Cons \<open>\<not> p x\<close> show ?thesis by (simp add: lstrip_by_def rstrip_by_def)
qed

lemma strip_idem [simp]: "strip (strip s) = strip s"
  by (simp add: strip_def strip_by_def lstrip_rstrip_by) (simp add: rstrip_by_def)

lemma strip_Nil [simp]: "strip [] = []"
  by (simp add: strip_def strip_by_def lstrip_by_def rstrip_by_def)

lemma strip_id:
  assumes "s \<noteq> []" and "\<not> is_space (hd s)" and "\<not> is_space (last s)"
  shows "strip s = s"
proof -
  have "dropWhile is_space s = s" using assms by (cases s) auto
  moreover have "dropWhile is_space (rev s) = rev s"
    using assms by (cases s rule: rev_cases) auto
  ultimately show ?thesis by (simp add: strip_def strip_by_def lstrip_by_def rstrip_by_def)
qed

lemma set_strip_by: "set (strip_by p s) \<subseteq> set s"
  by (auto simp: strip_by_def lstrip_by_def rstrip_by_def dest!: set_dropWhileD)

lemma strip_by_ends:
  "strip_by p s = [] \<or> \<not> p (hd (strip_by p s)) \<and> \<not> p (last (strip_by p s))"
proof -
  have last: "\<not> p (last (rstrip_by p s)) \<or> rstrip_by p s = []" for s
    unfolding rstrip_by_def by (metis hd_dropWhile last_rev rev_is_Nil_conv)
  have "lstrip_by p (strip_by p s) = strip_by p s"
    unfolding strip_by_def by (rule lstrip_rstrip_by)
  then have "strip_by p s = [] \<or> \<not> p (hd (strip_by p s))"
    unfolding lstrip_by_def by (metis hd_dropWhile)
  with last show ?thesis unfolding strip_by_def by blast
qed

lemma strip_ends: "strip s = [] \<or> \<not> is_space (hd (strip s)) \<and> \<not> is_space (last (strip s))"
  unfolding strip_def by (rule strip_by_ends)

lemma read_nat_snoc: "read_nat (s @ [c]) = 10 * read_nat s + (code c - 48)"
  by (simp add: read_nat_def)

lemma code_digit [simp]: "n < 10 \<Longrightarrow> code (digit n) = 48 + n"
  by (simp add: digit_def)

lemma read_show_nat [simp]: "read_nat (show_nat n) = n"
proof (induction n rule: show_nat.induct)
  case (1 n)
  show ?case
  proof (cases "n < 10")
    case True
    then show ?thesis by (simp add: show_nat.simps [of n] read_nat_def)
  next
    case False
    with 1 show ?thesis by (simp add: show_nat.simps [of n] read_nat_snoc)
  qed
qed

lemma show_nat_nonempty [simp]: "show_nat n \<noteq> []"
  by (subst show_nat.simps) simp

lemma show_nat_digits: "list_all is_digit (show_nat n)"
proof (induction n rule: show_nat.induct)
  case (1 n)
  then show ?case by (cases "n < 10") (simp_all add: show_nat.simps [of n] is_digit_def)
qed

section \<open>Lists used as Python sequences, sets and dictionaries\<close>

text \<open>First occurrences in order (\<open>dict.fromkeys\<close>).\<close>

definition uniq :: "'a list \<Rightarrow> 'a list" where
  "uniq xs = rev (remdups (rev xs))"

text \<open>\<open>sorted(set(xs))\<close>.\<close>

definition sorted_set :: "'a::linorder list \<Rightarrow> 'a list" where
  "sorted_set xs = sort (remdups xs)"

text \<open>\<open>list.sort(key=f, reverse=True)\<close>: descending, ties keep their order.\<close>

definition sort_desc :: "('a \<Rightarrow> 'k::linorder) \<Rightarrow> 'a list \<Rightarrow> 'a list" where
  "sort_desc f xs = rev (sort_key f (rev xs))"

text \<open>\<open>d.setdefault(k, []).append(v)\<close> on a dictionary in insertion order.\<close>

fun group_append :: "'k \<Rightarrow> 'v \<Rightarrow> ('k \<times> 'v list) list \<Rightarrow> ('k \<times> 'v list) list" where
  "group_append k v [] = [(k, [v])]"
| "group_append k v ((k', vs) # al) =
     (if k = k' then (k', vs @ [v]) # al else (k', vs) # group_append k v al)"

definition group_by :: "('v \<Rightarrow> 'k) \<Rightarrow> 'v list \<Rightarrow> ('k \<times> 'v list) list" where
  "group_by f xs = fold (\<lambda>x. group_append (f x) x) xs []"

lemma set_uniq [simp]: "set (uniq xs) = set xs"
  by (simp add: uniq_def)

lemma distinct_uniq [simp]: "distinct (uniq xs)"
  by (simp add: uniq_def)

lemma uniq_Nil [simp]: "uniq [] = []"
  by (simp add: uniq_def)

lemma uniq_snoc: "uniq (xs @ [x]) = (if x \<in> set xs then uniq xs else uniq xs @ [x])"
  by (simp add: uniq_def)

lemma set_sorted_set [simp]: "set (sorted_set xs) = set xs"
  by (simp add: sorted_set_def)

lemma sorted_sorted_set [simp]: "sorted (sorted_set xs)"
  by (simp add: sorted_set_def)

lemma distinct_sorted_set [simp]: "distinct (sorted_set xs)"
  by (simp add: sorted_set_def)

lemma mset_sort_desc [simp]: "mset (sort_desc f xs) = mset xs"
  by (simp add: sort_desc_def)

lemma set_sort_desc [simp]: "set (sort_desc f xs) = set xs"
  by (simp add: sort_desc_def)

lemma length_sort_desc [simp]: "length (sort_desc f xs) = length xs"
  by (simp add: sort_desc_def)

lemma sort_desc_ordered: "sorted (rev (map f (sort_desc f xs)))"
  by (simp add: sort_desc_def flip: rev_map)

lemma distinct_map_sort_desc [simp]: "distinct (map g (sort_desc f xs)) = distinct (map g xs)"
  by (rule mset_eq_imp_distinct_iff) simp

lemma distinct_map_compI: "distinct (map (g \<circ> f) xs) \<Longrightarrow> distinct (map f xs)"
  by (induction xs) auto

lemma mset_concat_sort_desc:
  "mset (concat (map (\<lambda>j. sort_desc f (X j)) js)) = mset (concat (map X js))"
  by (induction js) simp_all

lemma filter_sort_desc: "filter P (sort_desc f xs) = sort_desc f (filter P xs)"
  by (simp add: sort_desc_def filter_sort flip: rev_filter)

text \<open>With distinct keys a descending sort depends on the set of elements only.\<close>

lemma sort_desc_unique:
  assumes "distinct (map f xs)" and "distinct (map f ys)" and "set xs = set ys"
  shows "sort_desc f xs = sort_desc f ys"
proof -
  have "sort_key f (rev xs) = sort_key f (rev ys)"
    using assms
    by (intro map_sorted_distinct_set_unique [where f = f]) (auto simp: distinct_map)
  then show ?thesis by (simp add: sort_desc_def)
qed

lemma in_take_filter: "x \<in> set (take n xs) \<Longrightarrow> P x \<Longrightarrow> x \<in> set (take n (filter P xs))"
proof (induction xs arbitrary: n)
  case (Cons y ys)
  show ?case
  proof (cases n)
    case 0
    then show ?thesis using Cons.prems by simp
  next
    case (Suc m)
    have "set (take m (filter P ys)) \<subseteq> set (take (Suc m) (filter P ys))"
      by (rule set_take_subset_set_take) simp
    with Suc Cons.prems Cons.IH [of m] show ?thesis by auto
  qed
qed simp

lemma take_filter_prefix: "(\<And>x. x \<in> set (take n xs) \<Longrightarrow> P x) \<Longrightarrow> take n (filter P xs) = take n xs"
proof (induction xs arbitrary: n)
  case (Cons y ys)
  then show ?case by (cases n) auto
qed simp

text \<open>
  The first \<open>n\<close> of a merge only needs the first \<open>n\<close> of each part.
\<close>

lemma take_sort_desc_parts:
  assumes "distinct (map f (concat (map X js)))"
  shows "take n (sort_desc f (concat (map (\<lambda>j. take n (sort_desc f (X j))) js))) =
    take n (sort_desc f (concat (map X js)))"
proof -
  let ?A = "concat (map X js)" and ?B = "concat (map (\<lambda>j. take n (sort_desc f (X j))) js)"
  let ?S = "sort_desc f ?A"
  have part: "distinct (map f (X j))" if "j \<in> set js" for j
    using that assms by (induction js) auto
  have part_sub: "set (take n (sort_desc f (X j))) \<subseteq> set (X j)" for j
    using set_take_subset [of n "sort_desc f (X j)"] by simp
  have sub: "set ?B \<subseteq> set ?A"
    using part_sub by fastforce
  have "distinct (map f ?B)"
    using assms
  proof (induction js)
    case (Cons j js)
    let ?B' = "concat (map (\<lambda>j. take n (sort_desc f (X j))) js)"
    have "set ?B' \<subseteq> set (concat (map X js))"
      using part_sub by fastforce
    then have "f ` set (take n (sort_desc f (X j))) \<inter> f ` set ?B' \<subseteq>
        f ` set (X j) \<inter> f ` set (concat (map X js))"
      using part_sub [of j] by (intro Int_mono image_mono)
    also have "\<dots> = {}" using Cons.prems by simp
    finally have disjoint: "f ` set (take n (sort_desc f (X j))) \<inter> f ` set ?B' = {}" by simp
    have "distinct (map f (take n (sort_desc f (X j))))" "distinct (map f ?B')"
      using Cons by (simp_all add: distinct_take flip: take_map)
    with disjoint show ?case
      by (simp only: list.map concat.simps map_append distinct_append list.set_map simp_thms)
  qed simp
  moreover have "distinct (map f (filter (\<lambda>x. x \<in> set ?B) ?A))"
    using assms by (simp add: distinct_map_filter)
  ultimately have "sort_desc f ?B = sort_desc f (filter (\<lambda>x. x \<in> set ?B) ?A)"
    using sub by (intro sort_desc_unique) auto
  then have B: "sort_desc f ?B = filter (\<lambda>x. x \<in> set ?B) ?S"
    by (simp add: filter_sort_desc)
  have "x \<in> set ?B" if x: "x \<in> set (take n ?S)" for x
  proof -
    obtain j where j: "j \<in> set js" "x \<in> set (X j)"
      using in_set_takeD [OF x] by auto
    have "sort_desc f (filter (\<lambda>y. y \<in> set (X j)) ?A) = sort_desc f (X j)"
      using assms part [OF j(1)] j by (intro sort_desc_unique) (auto simp: distinct_map_filter)
    then have "filter (\<lambda>y. y \<in> set (X j)) ?S = sort_desc f (X j)"
      by (simp add: filter_sort_desc)
    with in_take_filter [OF x, of "\<lambda>y. y \<in> set (X j)"] j have "x \<in> set (take n (sort_desc f (X j)))"
      by simp
    with j(1) show ?thesis by auto
  qed
  then show ?thesis unfolding B by (rule take_filter_prefix)
qed

lemma group_append_map:
  assumes "distinct ks" and "\<And>k'. k' \<in> set ks \<Longrightarrow> k' \<noteq> k \<Longrightarrow> g' k' = g k'"
    and "k \<in> set ks \<Longrightarrow> g' k = g k @ [v]" and "k \<notin> set ks \<Longrightarrow> g' k = [v]"
  shows "group_append k v (map (\<lambda>k. (k, g k)) ks) =
    map (\<lambda>k. (k, g' k)) (if k \<in> set ks then ks else ks @ [k])"
  using assms by (induction ks) (auto, metis)

lemma group_by_eq:
  "group_by f xs = map (\<lambda>k. (k, filter (\<lambda>x. f x = k) xs)) (uniq (map f xs))"
proof (induction xs rule: rev_induct)
  case Nil
  then show ?case by (simp add: group_by_def)
next
  case (snoc x xs)
  have "group_by f (xs @ [x]) = group_append (f x) x (group_by f xs)"
    by (simp add: group_by_def)
  also have "\<dots> = group_append (f x) x
      (map (\<lambda>k. (k, filter (\<lambda>x. f x = k) xs)) (uniq (map f xs)))"
    by (simp add: snoc.IH)
  also have "\<dots> = map (\<lambda>k. (k, filter (\<lambda>x. f x = k) (xs @ [x])))
      (if f x \<in> set (uniq (map f xs)) then uniq (map f xs) else uniq (map f xs) @ [f x])"
    by (rule group_append_map) (auto simp: filter_empty_conv image_iff)
  finally show ?case by (auto simp: uniq_snoc)
qed

lemma length_filter_mono: "(\<And>x. P x \<Longrightarrow> Q x) \<Longrightarrow> length (filter P xs) \<le> length (filter Q xs)"
  by (induction xs) auto

section \<open>Rounding and formatting of numbers\<close>

text \<open>Python's \<open>round\<close>: to nearest, ties to even.\<close>

definition round_half_even :: "pyfloat \<Rightarrow> int" where
  "round_half_even x =
     (let f = \<lfloor>x\<rfloor>; d = x - of_int f in
      if d < 1 / 2 then f else if 1 / 2 < d then f + 1 else if even f then f else f + 1)"

definition round_to :: "nat \<Rightarrow> pyfloat \<Rightarrow> pyfloat" where
  "round_to k x = of_int (round_half_even (x * 10 ^ k)) / 10 ^ k"

definition show_int :: "int \<Rightarrow> string" where
  "show_int i = (if i < 0 then ''-'' @ show_nat (nat (- i)) else show_nat (nat i))"

definition zfill :: "nat \<Rightarrow> string \<Rightarrow> string" where
  "zfill w s = replicate (w - length s) (CHR ''0'') @ s"

text \<open>The format specifications \<open>.kf\<close> and \<open>.k%\<close> for a non-negative number.\<close>

definition fmt_fixed :: "nat \<Rightarrow> pyfloat \<Rightarrow> string" where
  "fmt_fixed k x =
     (let n = nat (round_half_even (x * 10 ^ k)) in
      show_nat (n div 10 ^ k) @ (if k = 0 then [] else ''.'' @ zfill k (show_nat (n mod 10 ^ k))))"

definition fmt_pct :: "nat \<Rightarrow> pyfloat \<Rightarrow> string" where
  "fmt_pct k x = fmt_fixed k (100 * x) @ ''%''"

lemma round_half_even_mono: "x \<le> y \<Longrightarrow> round_half_even x \<le> round_half_even y"
proof -
  assume le: "x \<le> y"
  then have f: "\<lfloor>x\<rfloor> \<le> \<lfloor>y\<rfloor>" by (rule floor_mono)
  show ?thesis
  proof (cases "\<lfloor>x\<rfloor> = \<lfloor>y\<rfloor>")
    case True
    with le show ?thesis by (auto simp: round_half_even_def Let_def)
  next
    case False
    with f have "\<lfloor>x\<rfloor> + 1 \<le> \<lfloor>y\<rfloor>" by simp
    then show ?thesis by (auto simp: round_half_even_def Let_def)
  qed
qed

lemma round_half_even_of_int [simp]: "round_half_even (of_int n) = n"
  by (simp add: round_half_even_def)

lemma round_half_even_error: "\<bar>x - of_int (round_half_even x)\<bar> \<le> 1 / 2"
proof -
  define f where "f = \<lfloor>x\<rfloor>"
  have "of_int f \<le> x" "x < of_int f + 1"
    unfolding f_def by linarith+
  then show ?thesis
    unfolding round_half_even_def Let_def abs_if f_def [symmetric] by (auto split: if_splits)
qed

lemma round_to_mono: "x \<le> y \<Longrightarrow> round_to k x \<le> round_to k y"
  unfolding round_to_def
  by (intro divide_right_mono) (simp_all add: round_half_even_mono)

end
