(* ===== verification/Config.thy ===== *)
theory Config
  imports Prelude
begin

text \<open>
  The configuration sections of \<open>config.py\<close> that the modelled components read, with their
  defaults and the bounds Pydantic enforces when \<open>flaketriage.toml\<close> is loaded, and the two
  environment overrides. File lookup and TOML parsing are I/O and are not modelled.
\<close>

record detect_config =
  window_executions :: nat
  min_observations :: nat
  flake_rate_threshold :: pyfloat
  ewma_alpha :: pyfloat
  regression_pass_streak :: nat
  regression_fail_streak :: nat
  main_branch :: string
  infra_error_patterns :: "string list"

definition default_detect_config :: detect_config where
  "default_detect_config = \<lparr>
     window_executions = 50, min_observations = 10, flake_rate_threshold = 5 / 100,
     ewma_alpha = 3 / 10, regression_pass_streak = 3, regression_fail_streak = 2,
     main_branch = ''main'',
     infra_error_patterns =
       [''no space left on device'', ''error pulling image'', ''imagepullbackoff'',
        ''manifest unknown'', ''the runner has received a shutdown signal'',
        ''the operation was canceled'', ''lost communication with the server'',
        ''received sigkill'', ''exited with code 137'', ''spot instance interruption'',
        ''worker was preempted'']\<rparr>"

definition valid_detect_config :: "detect_config \<Rightarrow> bool" where
  "valid_detect_config c \<longleftrightarrow>
     1 \<le> window_executions c \<and> 1 \<le> min_observations c \<and>
     0 \<le> flake_rate_threshold c \<and> flake_rate_threshold c \<le> 1 \<and>
     0 < ewma_alpha c \<and> ewma_alpha c \<le> 1 \<and>
     1 \<le> regression_pass_streak c \<and> 1 \<le> regression_fail_streak c"

record identity_config =
  alias_max_distance :: pyfloat
  alias_certain_distance :: pyfloat

definition default_identity_config :: identity_config where
  "default_identity_config = \<lparr>alias_max_distance = 25 / 100, alias_certain_distance = 3 / 100\<rparr>"

definition valid_identity_config :: "identity_config \<Rightarrow> bool" where
  "valid_identity_config c \<longleftrightarrow>
     0 \<le> alias_max_distance c \<and> alias_max_distance c \<le> 1 \<and>
     0 \<le> alias_certain_distance c \<and> alias_certain_distance c \<le> 1"

record classify_config =
  prefilter_model :: string
  classifier_model :: string
  confidence_floor :: pyfloat
  temperature :: pyfloat
  budget_usd :: pyfloat
  max_tests :: nat
  trace_budget_chars :: nat
  max_output_tokens :: nat
  prefilter_enabled :: bool
  prefilter_max_output_tokens :: nat

definition default_classify_config :: classify_config where
  "default_classify_config = \<lparr>
     prefilter_model = ''claude-haiku-4-5-20251001'', classifier_model = ''claude-sonnet-5'',
     confidence_floor = 55 / 100, temperature = 0, budget_usd = 50 / 100, max_tests = 25,
     trace_budget_chars = 2000, max_output_tokens = 700, prefilter_enabled = True,
     prefilter_max_output_tokens = 8\<rparr>"

definition valid_classify_config :: "classify_config \<Rightarrow> bool" where
  "valid_classify_config c \<longleftrightarrow>
     0 \<le> confidence_floor c \<and> confidence_floor c \<le> 1 \<and>
     0 \<le> temperature c \<and> temperature c \<le> 1 \<and> 0 \<le> budget_usd c \<and> 1 \<le> max_tests c \<and>
     200 \<le> trace_budget_chars c \<and> 64 \<le> max_output_tokens c \<and>
     1 \<le> prefilter_max_output_tokens c"

record policy_config =
  quarantine_flake_rate :: pyfloat
  quarantine_min_observations :: nat
  quarantine_ttl_days :: nat
  dequarantine_clean_runs :: nat

definition default_policy_config :: policy_config where
  "default_policy_config = \<lparr>
     quarantine_flake_rate = 5 / 100, quarantine_min_observations = 10,
     quarantine_ttl_days = 14, dequarantine_clean_runs = 20\<rparr>"

definition valid_policy_config :: "policy_config \<Rightarrow> bool" where
  "valid_policy_config c \<longleftrightarrow>
     0 \<le> quarantine_flake_rate c \<and> quarantine_flake_rate c \<le> 1 \<and>
     1 \<le> quarantine_min_observations c \<and> 1 \<le> quarantine_ttl_days c \<and>
     1 \<le> dequarantine_clean_runs c"

text \<open>
  The environment overrides: \<open>classifier\<close> and \<open>prefilter\<close> are the values of the two variables,
  \<open>None\<close> when unset. An empty value is ignored.
\<close>

definition apply_env_overrides ::
  "string option \<Rightarrow> string option \<Rightarrow> classify_config \<Rightarrow> classify_config" where
  "apply_env_overrides classifier prefilter config =
     (if classifier = None \<and> prefilter = None then config
      else
        let c1 = (case classifier of Some m \<Rightarrow> if m \<noteq> [] then config\<lparr>classifier_model := m\<rparr> else config
                  | None \<Rightarrow> config);
            c2 = (case prefilter of Some m \<Rightarrow> if m \<noteq> [] then c1\<lparr>prefilter_model := m\<rparr> else c1
                  | None \<Rightarrow> c1)
        in c2)"

definition api_key_from_env :: "string option \<Rightarrow> string option" where
  "api_key_from_env variable =
     (let key = strip (case variable of None \<Rightarrow> [] | Some v \<Rightarrow> v)
      in if key = [] then None else Some key)"

lemma valid_default_configs [simp]:
  "valid_detect_config default_detect_config" "valid_identity_config default_identity_config"
  "valid_classify_config default_classify_config" "valid_policy_config default_policy_config"
  by (simp_all add: valid_detect_config_def default_detect_config_def valid_identity_config_def
      default_identity_config_def valid_classify_config_def default_classify_config_def
      valid_policy_config_def default_policy_config_def)

end
