(* ===== verification/Config_Load.thy ===== *)
theory Config_Load
  imports Config
begin

text \<open>
  Finding and loading \<open>flaketriage.toml\<close> (\<open>config.py\<close>). Parameters: which paths are files, and the
  TOML parser with Pydantic's validation, as one function from a file to the configuration it
  describes or an error. Paths are lists of components after symbolic links are resolved.
\<close>

section \<open>Paths\<close>

record path =
  pa_absolute :: bool
  pa_parts :: "string list"

definition path_join :: "path \<Rightarrow> path \<Rightarrow> path" where
  "path_join a b = (if pa_absolute b then b else a\<lparr>pa_parts := pa_parts a @ pa_parts b\<rparr>)"

definition path_parent :: "path \<Rightarrow> path" where
  "path_parent p = p\<lparr>pa_parts := butlast (pa_parts p)\<rparr>"

definition relative :: "string list \<Rightarrow> path" where
  "relative parts = \<lparr>pa_absolute = False, pa_parts = parts\<rparr>"

text \<open>\<open>[current, *current.parents]\<close> of an absolute path.\<close>

definition ancestors :: "path \<Rightarrow> path list" where
  "ancestors p = map (\<lambda>n. p\<lparr>pa_parts := take n (pa_parts p)\<rparr>) (rev [0..<length (pa_parts p) + 1])"

section \<open>The configuration of one invocation\<close>

record config =
  cfg_store_path :: path
  cfg_detect :: detect_config
  cfg_identity :: identity_config
  cfg_classify :: classify_config
  cfg_cache_path :: path
  cfg_request_timeout_seconds :: pyfloat
  cfg_api_max_retries :: nat
  cfg_prices :: "(string \<times> pyfloat list) list"
  cfg_policy :: policy_config
  cfg_pr_comment_max_rows :: nat
  cfg_root :: path

definition default_config :: config where
  "default_config =
     \<lparr>cfg_store_path = relative [''.flaketriage'', ''store.sqlite''],
      cfg_detect = default_detect_config, cfg_identity = default_identity_config,
      cfg_classify = default_classify_config,
      cfg_cache_path = relative [''.flaketriage'', ''cache''],
      cfg_request_timeout_seconds = 60, cfg_api_max_retries = 2,
      cfg_prices = [(''claude-haiku-4-5'', [1, 5]), (''claude-sonnet-5'', [3, 15]), (''claude-opus-5'', [15, 75])],
      cfg_policy = default_policy_config, cfg_pr_comment_max_rows = 10, cfg_root = relative []\<rparr>"

text \<open>The bounds of every section.\<close>

definition valid_config :: "config \<Rightarrow> bool" where
  "valid_config c \<longleftrightarrow>
     valid_detect_config (cfg_detect c) \<and> valid_identity_config (cfg_identity c) \<and>
     valid_classify_config (cfg_classify c) \<and> valid_policy_config (cfg_policy c) \<and>
     0 < cfg_request_timeout_seconds c \<and> 1 \<le> cfg_pr_comment_max_rows c"

definition resolve_path :: "config \<Rightarrow> path \<Rightarrow> path" where
  "resolve_path c p = (if pa_absolute p then p else path_join (cfg_root c) p)"

definition store_path :: "config \<Rightarrow> path" where
  "store_path c = resolve_path c (cfg_store_path c)"

definition result_cache_path :: "config \<Rightarrow> path" where
  "result_cache_path c = resolve_path c (cfg_cache_path c)"

section \<open>Finding and loading it\<close>

definition CONFIG_FILENAME :: string where
  "CONFIG_FILENAME = ''flaketriage.toml''"

text \<open>\<open>start\<close> is the resolved start directory.\<close>

definition find_config_file :: "(path \<Rightarrow> bool) \<Rightarrow> path \<Rightarrow> path option" where
  "find_config_file is_file start =
     List.find is_file (map (\<lambda>d. path_join d (relative [CONFIG_FILENAME])) (ancestors start))"

definition with_env_overrides :: "string option \<Rightarrow> string option \<Rightarrow> config \<Rightarrow> config" where
  "with_env_overrides classifier prefilter c =
     c\<lparr>cfg_classify := apply_env_overrides classifier prefilter (cfg_classify c)\<rparr>"

definition load_config ::
  "(path \<Rightarrow> bool) \<Rightarrow> (path \<Rightarrow> 'e + config) \<Rightarrow> string option \<Rightarrow> string option \<Rightarrow> path option \<Rightarrow> path \<Rightarrow>
   'e + config" where
  "load_config is_file read_toml classifier prefilter given start =
     (case (case given of Some p \<Rightarrow> Some p | None \<Rightarrow> find_config_file is_file start) of
        None \<Rightarrow> Inr (with_env_overrides classifier prefilter default_config)
      | Some p \<Rightarrow>
          (case read_toml p of
             Inl e \<Rightarrow> Inl e
           | Inr c \<Rightarrow> Inr (with_env_overrides classifier prefilter (c\<lparr>cfg_root := path_parent p\<rparr>))))"

section \<open>The nearest file, from any directory below it\<close>

lemma ancestors_append:
  "ancestors (p\<lparr>pa_parts := pa_parts p @ below\<rparr>) =
     map (\<lambda>n. p\<lparr>pa_parts := pa_parts p @ take n below\<rparr>) (rev [1..<length below + 1]) @ ancestors p"
proof -
  have split: "rev [0..<length (pa_parts p @ below) + 1] =
      map (\<lambda>n. length (pa_parts p) + n) (rev [1..<length below + 1]) @ rev [0..<length (pa_parts p) + 1]"
  proof -
    have "[0..<length (pa_parts p @ below) + 1] =
        [0..<length (pa_parts p) + 1] @ [length (pa_parts p) + 1..<length (pa_parts p) + 1 + length below]"
      using upt_add_eq_append [of 0 "length (pa_parts p) + 1" "length below"] by (simp add: algebra_simps)
    moreover have "[length (pa_parts p) + 1..<length (pa_parts p) + 1 + length below] =
        map (\<lambda>n. length (pa_parts p) + n) [1..<length below + 1]"
      by (intro nth_equalityI) (simp_all del: upt_Suc)
    ultimately show ?thesis by (simp only: rev_append rev_map)
  qed
  have upd: "pa_parts (p\<lparr>pa_parts := q\<rparr>) = q" "p\<lparr>pa_parts := q, pa_parts := q'\<rparr> = p\<lparr>pa_parts := q'\<rparr>" for q q'
    by simp_all
  show ?thesis
    unfolding ancestors_def upd split map_append map_map comp_def by (auto simp del: upt_Suc)
qed

lemma find_config_skip:
  assumes "\<And>n. 0 < n \<Longrightarrow> n \<le> length below \<Longrightarrow>
      \<not> is_file (path_join (d\<lparr>pa_parts := pa_parts d @ take n below\<rparr>) (relative [CONFIG_FILENAME]))"
  shows "find_config_file is_file (d\<lparr>pa_parts := pa_parts d @ below\<rparr>) = find_config_file is_file d"
proof -
  have none: "List.find P xs = None" if "\<And>x. x \<in> set xs \<Longrightarrow> \<not> P x" for P and xs :: "path list"
    using that by (induction xs) auto
  have app: "List.find P xs = None \<Longrightarrow> List.find P (xs @ ys) = List.find P ys" for P and xs ys :: "path list"
    by (induction xs) auto
  show ?thesis
    unfolding find_config_file_def ancestors_append map_append
    by (rule app, rule none) (use assms in \<open>auto simp del: upt_Suc\<close>)
qed

text \<open>
  Where the command is run below the directory of the configuration does not matter: as long as no
  directory in between has a file of its own, every start below it gives the same configuration,
  the same store and the same cache as the directory itself, whatever the relative paths in it.
\<close>

theorem same_store_from_below:
  assumes "\<And>n. 0 < n \<Longrightarrow> n \<le> length below \<Longrightarrow>
      \<not> is_file (path_join (d\<lparr>pa_parts := pa_parts d @ take n below\<rparr>) (relative [CONFIG_FILENAME]))"
    and "is_file (path_join d (relative [CONFIG_FILENAME]))"
    and "read_toml (path_join d (relative [CONFIG_FILENAME])) = Inr c"
  shows "\<exists>c'. load_config is_file read_toml classifier prefilter None (d\<lparr>pa_parts := pa_parts d @ below\<rparr>) = Inr c' \<and>
    cfg_root c' = d \<and> store_path c' = path_join d (cfg_store_path c) \<and>
    result_cache_path c' = path_join d (cfg_cache_path c) \<and>
    cfg_detect c' = cfg_detect c \<and> cfg_policy c' = cfg_policy c"
proof -
  have "ancestors d = d # map (\<lambda>n. d\<lparr>pa_parts := take n (pa_parts d)\<rparr>) (rev [0..<length (pa_parts d)])"
    by (simp add: ancestors_def)
  then have "find_config_file is_file d = Some (path_join d (relative [CONFIG_FILENAME]))"
    using assms(2) by (simp add: find_config_file_def)
  then have found: "find_config_file is_file (d\<lparr>pa_parts := pa_parts d @ below\<rparr>) =
      Some (path_join d (relative [CONFIG_FILENAME]))"
    using find_config_skip [of below is_file d] assms(1) by simp
  have parent: "path_parent (path_join d (relative [CONFIG_FILENAME])) = d"
    by (simp add: path_parent_def path_join_def relative_def)
  let ?c = "with_env_overrides classifier prefilter (c\<lparr>cfg_root := d\<rparr>)"
  have "load_config is_file read_toml classifier prefilter None (d\<lparr>pa_parts := pa_parts d @ below\<rparr>) = Inr ?c"
    by (simp only: load_config_def found assms(3) parent option.case sum.case)
  moreover have "resolve_path ?c p = path_join d p" for p
    by (simp add: resolve_path_def path_join_def with_env_overrides_def)
  ultimately show ?thesis
    by (intro exI [of _ ?c]) (simp add: store_path_def result_cache_path_def with_env_overrides_def)
qed

theorem same_store_from_below_witness:
  "\<exists>c'. load_config (\<lambda>p. pa_parts p = [''repo'', CONFIG_FILENAME]) (\<lambda>p. Inr default_config :: unit + config) None None
       None \<lparr>pa_absolute = True, pa_parts = [''repo'', ''src'', ''app'']\<rparr> = Inr c' \<and>
     store_path c' = \<lparr>pa_absolute = True, pa_parts = [''repo'', ''.flaketriage'', ''store.sqlite'']\<rparr>"
proof -
  let ?d = "\<lparr>pa_absolute = True, pa_parts = [''repo'']\<rparr>"
  have below: "n = 1 \<or> n = 2" if "0 < n" "n \<le> length [''src'', ''app'']" for n
    using that by auto
  have "\<exists>c'. load_config (\<lambda>p. pa_parts p = [''repo'', CONFIG_FILENAME]) (\<lambda>p. Inr default_config :: unit + config) None
      None None (?d\<lparr>pa_parts := pa_parts ?d @ [''src'', ''app'']\<rparr>) = Inr c' \<and> cfg_root c' = ?d \<and>
      store_path c' = path_join ?d (cfg_store_path default_config) \<and>
      result_cache_path c' = path_join ?d (cfg_cache_path default_config) \<and>
      cfg_detect c' = cfg_detect default_config \<and> cfg_policy c' = cfg_policy default_config"
    by (rule same_store_from_below)
      (auto dest!: below simp: path_join_def relative_def CONFIG_FILENAME_def numeral_eq_Suc)
  then show ?thesis by (auto simp: path_join_def default_config_def relative_def)
qed

end
