(* ===== verification/Models.thy ===== *)
theory Models
  imports Prelude
begin

text \<open>
  The shared domain vocabulary of \<open>models.py\<close>: every enumeration with its wire value, the
  frozen value classes as records, and the path lookup of \<open>DiffSummary\<close>. Pydantic's field
  constraints are the predicates \<open>valid_...\<close>: constructing a value that violates one raises,
  so every value the program holds satisfies its predicate.
\<close>

section \<open>Enumerations\<close>

datatype outcome = PASS | FAIL | ERROR | SKIP

fun outcome_value :: "outcome \<Rightarrow> string" where
  "outcome_value PASS = ''pass''"
| "outcome_value FAIL = ''fail''"
| "outcome_value ERROR = ''error''"
| "outcome_value SKIP = ''skip''"

definition is_failure :: "outcome \<Rightarrow> bool" where
  "is_failure r \<longleftrightarrow> r \<in> {FAIL, ERROR}"

definition is_pass :: "outcome \<Rightarrow> bool" where
  "is_pass r \<longleftrightarrow> r = PASS"

definition counts_as_observation :: "outcome \<Rightarrow> bool" where
  "counts_as_observation r \<longleftrightarrow> r \<noteq> SKIP"

datatype cause_code =
  RACE_CONDITION | TIMING_DEPENDENCY | TEST_ORDER_DEPENDENCY | EXTERNAL_DEPENDENCY
| SHARED_STATE_LEAK | RESOURCE_EXHAUSTION | INFRA_FLAKE | REAL_REGRESSION | UNKNOWN

fun cause_value :: "cause_code \<Rightarrow> string" where
  "cause_value RACE_CONDITION = ''RACE_CONDITION''"
| "cause_value TIMING_DEPENDENCY = ''TIMING_DEPENDENCY''"
| "cause_value TEST_ORDER_DEPENDENCY = ''TEST_ORDER_DEPENDENCY''"
| "cause_value EXTERNAL_DEPENDENCY = ''EXTERNAL_DEPENDENCY''"
| "cause_value SHARED_STATE_LEAK = ''SHARED_STATE_LEAK''"
| "cause_value RESOURCE_EXHAUSTION = ''RESOURCE_EXHAUSTION''"
| "cause_value INFRA_FLAKE = ''INFRA_FLAKE''"
| "cause_value REAL_REGRESSION = ''REAL_REGRESSION''"
| "cause_value UNKNOWN = ''UNKNOWN''"

text \<open>The members of \<open>CauseCode\<close> in declaration order, as iterating over the enum gives them.\<close>

definition all_causes :: "cause_code list" where
  "all_causes =
     [RACE_CONDITION, TIMING_DEPENDENCY, TEST_ORDER_DEPENDENCY, EXTERNAL_DEPENDENCY,
      SHARED_STATE_LEAK, RESOURCE_EXHAUSTION, INFRA_FLAKE, REAL_REGRESSION, UNKNOWN]"

definition is_flake_category :: "cause_code \<Rightarrow> bool" where
  "is_flake_category c \<longleftrightarrow> c \<notin> {REAL_REGRESSION, INFRA_FLAKE, UNKNOWN}"

datatype downgrade_reason =
  NO_DOWNGRADE | INVALID_JSON | SCHEMA_INVALID | UNKNOWN_CAUSE | BELOW_CONFIDENCE_FLOOR
| NO_EVIDENCE | MODEL_ABSTAINED | BUDGET_EXHAUSTED | PREFILTERED | API_ERROR | LLM_DISABLED
| EMPTY_RESPONSE

fun downgrade_value :: "downgrade_reason \<Rightarrow> string" where
  "downgrade_value NO_DOWNGRADE = ''none''"
| "downgrade_value INVALID_JSON = ''invalid_json''"
| "downgrade_value SCHEMA_INVALID = ''schema_invalid''"
| "downgrade_value UNKNOWN_CAUSE = ''unknown_cause''"
| "downgrade_value BELOW_CONFIDENCE_FLOOR = ''below_confidence_floor''"
| "downgrade_value NO_EVIDENCE = ''no_evidence''"
| "downgrade_value MODEL_ABSTAINED = ''model_abstained''"
| "downgrade_value BUDGET_EXHAUSTED = ''budget_exhausted''"
| "downgrade_value PREFILTERED = ''prefiltered''"
| "downgrade_value API_ERROR = ''api_error''"
| "downgrade_value LLM_DISABLED = ''llm_disabled''"
| "downgrade_value EMPTY_RESPONSE = ''empty_response''"

datatype change_type = ADDED | MODIFIED | DELETED | RENAMED

fun change_value :: "change_type \<Rightarrow> string" where
  "change_value ADDED = ''added''"
| "change_value MODIFIED = ''modified''"
| "change_value DELETED = ''deleted''"
| "change_value RENAMED = ''renamed''"

section \<open>Value classes\<close>

record classification =
  cl_cause :: cause_code
  cl_confidence :: pyfloat
  cl_reasoning :: string
  cl_evidence :: "string list"
  cl_suggested_action :: string
  cl_abstained :: bool
  cl_downgrade_reason :: downgrade_reason
  cl_model :: string
  cl_prompt_version :: string

definition valid_classification :: "classification \<Rightarrow> bool" where
  "valid_classification c \<longleftrightarrow> 0 \<le> cl_confidence c \<and> cl_confidence c \<le> 1"

definition is_abstention :: "classification \<Rightarrow> bool" where
  "is_abstention c \<longleftrightarrow> cl_abstained c \<or> cl_cause c = UNKNOWN"

definition is_actionable :: "classification \<Rightarrow> bool" where
  "is_actionable c \<longleftrightarrow> \<not> is_abstention c \<and> is_flake_category (cl_cause c)"

text \<open>
  \<open>RunMetadata\<close>. The start time is kept as the text the store writes,
  \<open>started_at.astimezone(UTC).isoformat()\<close>.
\<close>

record run_metadata =
  md_commit_sha :: string
  md_run_id :: string
  md_attempt :: int
  md_branch :: "string option"
  md_shard_id :: "string option"
  md_worker_id :: "string option"
  md_started_at :: string

definition valid_run_metadata :: "run_metadata \<Rightarrow> bool" where
  "valid_run_metadata m \<longleftrightarrow> md_commit_sha m \<noteq> [] \<and> md_run_id m \<noteq> [] \<and> 1 \<le> md_attempt m"

record test_case_result =
  tc_name :: string
  tc_classname :: string
  tc_suite_path :: string
  tc_file_path :: "string option"
  tc_line :: "int option"
  tc_duration_ms :: "int option"
  tc_outcome :: outcome
  tc_failure_type :: "string option"
  tc_failure_message :: "string option"
  tc_stack_trace :: "string option"
  tc_stdout :: "string option"
  tc_stderr :: "string option"
  tc_rerun_observed :: bool
  tc_source_file :: "string option"

record parse_warning =
  pw_origin :: string
  pw_reason :: string
  pw_detail :: "string option"

record line_range =
  lr_start :: int
  lr_end :: int

definition valid_line_range :: "line_range \<Rightarrow> bool" where
  "valid_line_range r \<longleftrightarrow> 1 \<le> lr_start r \<and> 1 \<le> lr_end r \<and> lr_start r \<le> lr_end r"

definition lr_contains :: "line_range \<Rightarrow> int \<Rightarrow> bool" where
  "lr_contains r line \<longleftrightarrow> lr_start r \<le> line \<and> line \<le> lr_end r"

definition lr_overlaps :: "line_range \<Rightarrow> line_range \<Rightarrow> bool" where
  "lr_overlaps r q \<longleftrightarrow> lr_start r \<le> lr_end q \<and> lr_start q \<le> lr_end r"

record file_change =
  fc_path :: string
  fc_change_type :: change_type
  fc_old_path :: "string option"
  fc_binary :: bool
  fc_new_ranges :: "line_range list"
  fc_old_ranges :: "line_range list"

record diff_summary =
  ds_files :: "file_change list"

record test_identity =
  ti_fingerprint :: string
  ti_suite_path :: string
  ti_test_name :: string
  ti_parameters :: string
  ti_file_path :: "string option"

definition display_name :: "test_identity \<Rightarrow> string" where
  "display_name i =
     (let base = (if ti_suite_path i \<noteq> [] then ti_suite_path i @ ''::'' @ ti_test_name i
                  else ti_test_name i)
      in if ti_parameters i \<noteq> [] then base @ ''['' @ ti_parameters i @ '']'' else base)"

section \<open>Looking a path up in a diff\<close>

definition normalize_path :: "string \<Rightarrow> string" where
  "normalize_path path =
     (let normalized = lstrip_by (\<lambda>c. c \<in> set ''./'') (replace_char (CHR 0x5C) (CHR ''/'') path)
      in removeprefix (removeprefix normalized ''a/'') ''b/'')"

definition ds_paths :: "diff_summary \<Rightarrow> string set" where
  "ds_paths d =
     set (map fc_path (ds_files d)) \<union> set (List.map_filter fc_old_path (ds_files d))"

definition change_candidates :: "file_change \<Rightarrow> string list" where
  "change_candidates change =
     map normalize_path (fc_path change # (case fc_old_path change of None \<Rightarrow> [] | Some p \<Rightarrow> [p]))"

definition exact_match :: "string \<Rightarrow> file_change \<Rightarrow> bool" where
  "exact_match needle change \<longleftrightarrow> needle \<in> set (change_candidates change)"

definition suffix_match :: "string \<Rightarrow> file_change \<Rightarrow> bool" where
  "suffix_match needle change \<longleftrightarrow>
     list_ex (\<lambda>candidate. endswith candidate (CHR ''/'' # needle)) (change_candidates change)"

fun change_loop :: "string \<Rightarrow> file_change list \<Rightarrow> file_change list \<Rightarrow> file_change option" where
  "change_loop needle [] suffix_matches =
     (if length suffix_matches = 1 then Some (hd suffix_matches) else None)"
| "change_loop needle (change # rest) suffix_matches =
     (if exact_match needle change then Some change
      else if suffix_match needle change
      then change_loop needle rest (suffix_matches @ [change])
      else change_loop needle rest suffix_matches)"

definition change_for :: "diff_summary \<Rightarrow> string \<Rightarrow> file_change option" where
  "change_for d path = change_loop (normalize_path path) (ds_files d) []"

definition touches :: "diff_summary \<Rightarrow> string \<Rightarrow> bool" where
  "touches d path \<longleftrightarrow> change_for d path \<noteq> None"

section \<open>Lemmas\<close>

lemmas outcome_defs = is_failure_def is_pass_def counts_as_observation_def

lemma outcome_simps [simp]:
  "is_failure PASS = False" "is_failure FAIL = True" "is_failure ERROR = True"
  "is_failure SKIP = False" "is_pass PASS = True" "is_pass FAIL = False" "is_pass ERROR = False"
  "is_pass SKIP = False" "counts_as_observation PASS = True" "counts_as_observation FAIL = True"
  "counts_as_observation ERROR = True" "counts_as_observation SKIP = False"
  by (simp_all add: outcome_defs)

lemma observation_cases: "counts_as_observation r \<longleftrightarrow> is_pass r \<or> is_failure r"
  by (cases r) simp_all

lemma not_pass_and_failure: "\<not> (is_pass r \<and> is_failure r)"
  by (cases r) simp_all

lemma is_pass_iff: "is_pass r \<longleftrightarrow> r = PASS"
  by (cases r) simp_all

lemma change_loop_exact:
  "(\<exists>c \<in> set cs. exact_match needle c) \<Longrightarrow>
   change_loop needle cs acc = List.find (exact_match needle) cs"
  by (induction cs arbitrary: acc) auto

lemma change_loop_suffix:
  "\<not> (\<exists>c \<in> set cs. exact_match needle c) \<Longrightarrow>
   change_loop needle cs acc =
     (case acc @ filter (suffix_match needle) cs of [c] \<Rightarrow> Some c | _ \<Rightarrow> None)"
proof (induction cs arbitrary: acc)
  case Nil
  then show ?case by (cases acc rule: remdups_adj.cases) auto
next
  case (Cons c cs)
  then show ?case by simp
qed

text \<open>
  Looking a path up in a diff is exact first and unambiguous otherwise: if some change names
  the (normalised) path on either side, the first such change is returned; if none does, a change
  is returned exactly when it is the only one with a path that ends in \<open>/needle\<close>, and
  nothing is returned when several match, so a change is never attributed by guessing.
\<close>

theorem change_for_unambiguous:
  "change_for d path =
     (let needle = normalize_path path in
      case List.find (exact_match needle) (ds_files d) of
        Some c \<Rightarrow> Some c
      | None \<Rightarrow> (case filter (suffix_match needle) (ds_files d) of [c] \<Rightarrow> Some c | _ \<Rightarrow> None))"
proof (cases "\<exists>c \<in> set (ds_files d). exact_match (normalize_path path) c")
  case True
  then obtain c where "List.find (exact_match (normalize_path path)) (ds_files d) = Some c"
    by (metis find_None_iff not_None_eq)
  with True show ?thesis
    by (simp add: change_for_def change_loop_exact)
next
  case False
  then have "List.find (exact_match (normalize_path path)) (ds_files d) = None"
    by (simp add: find_None_iff)
  with False show ?thesis
    by (simp add: change_for_def change_loop_suffix)
qed

end
