(* ===== verification/Store.thy ===== *)
theory Store
  imports Models
begin

text \<open>
  The run store (\<open>store/schema.py\<close>, \<open>store/repositories.py\<close>): each SQL table is a list of row
  records in insertion order, and each repository method is a function on the database.

  The SQL that the code relies on is written out: a fresh \<open>INTEGER PRIMARY KEY\<close> is one more than
  the largest key, \<open>ON CONFLICT DO NOTHING\<close> leaves the table alone when the unique key is present,
  a dangling foreign key raises \<open>IntegrityError\<close> (the connection sets \<open>PRAGMA foreign_keys\<close>), and
  an exception inside \<open>transaction\<close> rolls back, so a failing method has no database in its result.
  The wall clock is the parameter \<open>now\<close>. Enumerations are stored as members; their wire values
  (\<open>outcome_value\<close> and the like) are injective.
\<close>

section \<open>Tables\<close>

record run_row =
  rr_id :: nat
  rr_run_id :: string
  rr_attempt :: int
  rr_commit_sha :: string
  rr_branch :: string
  rr_shard_id :: string
  rr_worker_id :: string
  rr_started_at :: string
  rr_ingested_at :: string

record identity_row =
  ir_id :: nat
  ir_fingerprint :: string
  ir_suite_path :: string
  ir_test_name :: string
  ir_parameters :: string
  ir_file_path :: "string option"
  ir_first_seen :: string
  ir_last_seen :: string

record alias_row =
  al_id :: nat
  al_old :: nat
  al_new :: nat
  al_similarity :: pyfloat
  al_certain :: bool
  al_observed_run_id :: "nat option"
  al_created_at :: string

record execution_row =
  ex_id :: nat
  ex_run_pk :: nat
  ex_identity_id :: nat
  ex_outcome :: outcome
  ex_duration_ms :: "int option"
  ex_failure_type :: "string option"
  ex_failure_message :: "string option"
  ex_stack_trace :: "string option"
  ex_stdout :: "string option"
  ex_stderr :: "string option"
  ex_rerun_observed :: bool
  ex_source_file :: "string option"
  ex_created_at :: string

record diff_file_row =
  df_id :: nat
  df_run_pk :: nat
  df_path :: string
  df_old_path :: "string option"
  df_change_type :: change_type
  df_binary :: bool

datatype side = NewSide | OldSide

record diff_hunk_row =
  dh_id :: nat
  dh_diff_file_id :: nat
  dh_side :: side
  dh_start_line :: int
  dh_end_line :: int

record warning_row =
  wr_id :: nat
  wr_run_pk :: "nat option"
  wr_warning :: parse_warning
  wr_created_at :: string

record db =
  runs :: "run_row list"
  test_identities :: "identity_row list"
  identity_aliases :: "alias_row list"
  executions :: "execution_row list"
  diff_files :: "diff_file_row list"
  diff_hunks :: "diff_hunk_row list"
  parse_warnings :: "warning_row list"

definition empty_db :: db where
  "empty_db = \<lparr>runs = [], test_identities = [], identity_aliases = [], executions = [],
     diff_files = [], diff_hunks = [], parse_warnings = []\<rparr>"

text \<open>\<open>TypeError\<close> is raised by subscripting the \<open>None\<close> that \<open>fetchone\<close> gives for no row.\<close>

datatype db_error = IntegrityError | TypeError

definition next_id :: "('r \<Rightarrow> nat) \<Rightarrow> 'r list \<Rightarrow> nat" where
  "next_id f rows = Suc (fold max (map f rows) 0)"

abbreviation text_of :: "string option \<Rightarrow> string" where
  "text_of v \<equiv> (case v of None \<Rightarrow> [] | Some s \<Rightarrow> s)"

definition run_exists :: "db \<Rightarrow> nat \<Rightarrow> bool" where
  "run_exists d pk \<longleftrightarrow> pk \<in> rr_id ` set (runs d)"

definition identity_exists :: "db \<Rightarrow> nat \<Rightarrow> bool" where
  "identity_exists d i \<longleftrightarrow> i \<in> ir_id ` set (test_identities d)"

section \<open>Writes\<close>

definition run_key :: "run_row \<Rightarrow> string \<times> int \<times> string" where
  "run_key r = (rr_run_id r, rr_attempt r, rr_shard_id r)"

definition metadata_key :: "run_metadata \<Rightarrow> string \<times> int \<times> string" where
  "metadata_key m = (md_run_id m, md_attempt m, text_of (md_shard_id m))"

text \<open>\<open>record_run\<close>: the final \<open>SELECT\<close> finds the row just inserted or the one in conflict.\<close>

definition record_run :: "string \<Rightarrow> run_metadata \<Rightarrow> db \<Rightarrow> nat option \<times> db" where
  "record_run now metadata d =
     (let d' =
        (if metadata_key metadata \<in> run_key ` set (runs d) then d
         else d\<lparr>runs := runs d @
           [\<lparr>rr_id = next_id rr_id (runs d), rr_run_id = md_run_id metadata,
             rr_attempt = md_attempt metadata, rr_commit_sha = md_commit_sha metadata,
             rr_branch = text_of (md_branch metadata), rr_shard_id = text_of (md_shard_id metadata),
             rr_worker_id = text_of (md_worker_id metadata),
             rr_started_at = md_started_at metadata, rr_ingested_at = now\<rparr>]\<rparr>)
      in (map_option rr_id (List.find (\<lambda>r. run_key r = metadata_key metadata) (runs d')), d'))"

definition upsert_identity :: "string \<Rightarrow> test_identity \<Rightarrow> db \<Rightarrow> (nat \<times> bool) \<times> db" where
  "upsert_identity now i d =
     (case List.find (\<lambda>r. ir_fingerprint r = ti_fingerprint i) (test_identities d) of
        Some existing \<Rightarrow>
          ((ir_id existing, False),
           d\<lparr>test_identities := map (\<lambda>r.
               if ir_id r = ir_id existing
               then r\<lparr>ir_last_seen := now,
                      ir_file_path := (case ti_file_path i of None \<Rightarrow> ir_file_path r | Some p \<Rightarrow> Some p)\<rparr>
               else r) (test_identities d)\<rparr>)
      | None \<Rightarrow>
          let k = next_id ir_id (test_identities d)
          in ((k, True),
              d\<lparr>test_identities := test_identities d @
                [\<lparr>ir_id = k, ir_fingerprint = ti_fingerprint i, ir_suite_path = ti_suite_path i,
                  ir_test_name = ti_test_name i, ir_parameters = ti_parameters i,
                  ir_file_path = ti_file_path i, ir_first_seen = now, ir_last_seen = now\<rparr>]\<rparr>))"

definition execution_row_of ::
  "string \<Rightarrow> nat \<Rightarrow> nat \<Rightarrow> test_case_result \<Rightarrow> nat \<Rightarrow> execution_row" where
  "execution_row_of now run_pk identity_id c k =
     \<lparr>ex_id = k, ex_run_pk = run_pk, ex_identity_id = identity_id, ex_outcome = tc_outcome c,
      ex_duration_ms = tc_duration_ms c, ex_failure_type = tc_failure_type c,
      ex_failure_message = tc_failure_message c, ex_stack_trace = tc_stack_trace c,
      ex_stdout = tc_stdout c, ex_stderr = tc_stderr c, ex_rerun_observed = tc_rerun_observed c,
      ex_source_file = tc_source_file c, ex_created_at = now\<rparr>"

definition execution_key :: "execution_row \<Rightarrow> nat \<times> nat" where
  "execution_key r = (ex_run_pk r, ex_identity_id r)"

fun insert_executions ::
  "string \<Rightarrow> nat \<Rightarrow> (nat \<times> test_case_result) list \<Rightarrow> db \<Rightarrow> nat \<Rightarrow> db_error + nat \<times> db" where
  "insert_executions now run_pk [] d inserted = Inr (inserted, d)"
| "insert_executions now run_pk ((identity_id, c) # rows) d inserted =
     (if (run_pk, identity_id) \<in> execution_key ` set (executions d)
      then insert_executions now run_pk rows d inserted
      else if run_exists d run_pk \<and> identity_exists d identity_id
      then insert_executions now run_pk rows
             (d\<lparr>executions := executions d @
                [execution_row_of now run_pk identity_id c (next_id ex_id (executions d))]\<rparr>)
             (inserted + 1)
      else Inl IntegrityError)"

definition record_executions ::
  "string \<Rightarrow> nat \<Rightarrow> (nat \<times> test_case_result) list \<Rightarrow> db \<Rightarrow> db_error + (nat \<times> nat) \<times> db" where
  "record_executions now run_pk rows d =
     (case insert_executions now run_pk rows d 0 of
        Inl e \<Rightarrow> Inl e
      | Inr (inserted, d') \<Rightarrow> Inr ((inserted, length rows - inserted), d'))"

fun hunk_rows :: "nat \<Rightarrow> nat \<Rightarrow> (side \<times> line_range) list \<Rightarrow> diff_hunk_row list" where
  "hunk_rows k file_id [] = []"
| "hunk_rows k file_id ((s, r) # rs) =
     \<lparr>dh_id = k, dh_diff_file_id = file_id, dh_side = s, dh_start_line = lr_start r,
      dh_end_line = lr_end r\<rparr> # hunk_rows (Suc k) file_id rs"

fun insert_diff :: "nat \<Rightarrow> file_change list \<Rightarrow> db \<Rightarrow> db_error + db" where
  "insert_diff run_pk [] d = Inr d"
| "insert_diff run_pk (change # changes) d =
     (if (run_pk, fc_path change) \<in> (\<lambda>r. (df_run_pk r, df_path r)) ` set (diff_files d)
      then insert_diff run_pk changes d
      else if run_exists d run_pk
      then
        let file_id = next_id df_id (diff_files d)
        in insert_diff run_pk changes
          (d\<lparr>diff_files := diff_files d @
               [\<lparr>df_id = file_id, df_run_pk = run_pk, df_path = fc_path change,
                 df_old_path = fc_old_path change, df_change_type = fc_change_type change,
                 df_binary = fc_binary change\<rparr>],
             diff_hunks := diff_hunks d @
               hunk_rows (next_id dh_id (diff_hunks d)) file_id
                 (map (Pair NewSide) (fc_new_ranges change) @ map (Pair OldSide) (fc_old_ranges change))\<rparr>)
      else Inl IntegrityError)"

definition record_diff :: "nat \<Rightarrow> diff_summary \<Rightarrow> db \<Rightarrow> db_error + nat \<times> db" where
  "record_diff run_pk diff d =
     (case insert_diff run_pk (ds_files diff) d of
        Inl e \<Rightarrow> Inl e
      | Inr d' \<Rightarrow> Inr (length (ds_files diff), d'))"

text \<open>
  \<open>record_alias\<close>: \<open>rowcount\<close> is one for an insertion and for an update, so the method
  returns true in both cases.
\<close>

definition record_alias ::
  "string \<Rightarrow> nat \<Rightarrow> nat \<Rightarrow> pyfloat \<Rightarrow> bool \<Rightarrow> nat option \<Rightarrow> db \<Rightarrow> db_error + bool \<times> db" where
  "record_alias now old_id new_id similarity certain run_pk d =
     (if (old_id, new_id) \<in> (\<lambda>r. (al_old r, al_new r)) ` set (identity_aliases d)
      then Inr (True, d\<lparr>identity_aliases := map (\<lambda>r.
             if (al_old r, al_new r) = (old_id, new_id)
             then r\<lparr>al_certain := al_certain r \<or> certain,
                    al_similarity := max (al_similarity r) similarity\<rparr>
             else r) (identity_aliases d)\<rparr>)
      else if identity_exists d old_id \<and> identity_exists d new_id \<and>
              (case run_pk of None \<Rightarrow> True | Some pk \<Rightarrow> run_exists d pk)
      then Inr (True, d\<lparr>identity_aliases := identity_aliases d @
             [\<lparr>al_id = next_id al_id (identity_aliases d), al_old = old_id, al_new = new_id,
               al_similarity = similarity, al_certain = certain, al_observed_run_id = run_pk,
               al_created_at = now\<rparr>]\<rparr>)
      else Inl IntegrityError)"

fun warning_rows :: "nat \<Rightarrow> nat option \<Rightarrow> string \<Rightarrow> parse_warning list \<Rightarrow> warning_row list" where
  "warning_rows k run_pk now [] = []"
| "warning_rows k run_pk now (w # ws) =
     \<lparr>wr_id = k, wr_run_pk = run_pk, wr_warning = w, wr_created_at = now\<rparr> #
     warning_rows (Suc k) run_pk now ws"

definition record_warnings ::
  "string \<Rightarrow> nat option \<Rightarrow> parse_warning list \<Rightarrow> db \<Rightarrow> db_error + nat \<times> db" where
  "record_warnings now run_pk ws d =
     (if ws \<noteq> [] \<and> (case run_pk of None \<Rightarrow> False | Some pk \<Rightarrow> \<not> run_exists d pk)
      then Inl IntegrityError
      else Inr (length ws, d\<lparr>parse_warnings := parse_warnings d @
             warning_rows (next_id wr_id (parse_warnings d)) run_pk now ws\<rparr>))"

section \<open>Reads\<close>

record execution_record =
  er_execution_id :: nat
  er_identity_id :: nat
  er_outcome :: outcome
  er_duration_ms :: "int option"
  er_failure_type :: "string option"
  er_failure_message :: "string option"
  er_stack_trace :: "string option"
  er_rerun_observed :: bool
  er_run_id :: string
  er_attempt :: int
  er_commit_sha :: string
  er_branch :: string
  er_shard_id :: string
  er_started_at :: string

definition execution_record_of :: "execution_row \<Rightarrow> run_row \<Rightarrow> execution_record" where
  "execution_record_of e r =
     \<lparr>er_execution_id = ex_id e, er_identity_id = ex_identity_id e, er_outcome = ex_outcome e,
      er_duration_ms = ex_duration_ms e, er_failure_type = ex_failure_type e,
      er_failure_message = ex_failure_message e, er_stack_trace = ex_stack_trace e,
      er_rerun_observed = ex_rerun_observed e, er_run_id = rr_run_id r, er_attempt = rr_attempt r,
      er_commit_sha = rr_commit_sha r, er_branch = rr_branch r, er_shard_id = rr_shard_id r,
      er_started_at = rr_started_at r\<rparr>"

text \<open>\<open>FROM executions e JOIN runs r ON r.id = e.run_pk\<close>.\<close>

definition run_of :: "db \<Rightarrow> execution_row \<Rightarrow> run_row option" where
  "run_of d e = List.find (\<lambda>r. rr_id r = ex_run_pk e) (runs d)"

definition joined :: "db \<Rightarrow> (execution_row \<times> run_row) list" where
  "joined d = List.map_filter (\<lambda>e. map_option (Pair e) (run_of d e)) (executions d)"

definition identity_from_row :: "identity_row \<Rightarrow> test_identity" where
  "identity_from_row r =
     \<lparr>ti_fingerprint = ir_fingerprint r, ti_suite_path = ir_suite_path r,
      ti_test_name = ir_test_name r, ti_parameters = ir_parameters r,
      ti_file_path = ir_file_path r\<rparr>"

definition identity_by_fingerprint :: "db \<Rightarrow> string \<Rightarrow> test_identity option" where
  "identity_by_fingerprint d v =
     map_option identity_from_row (List.find (\<lambda>r. ir_fingerprint r = v) (test_identities d))"

definition identity_id_by_fingerprint :: "db \<Rightarrow> string \<Rightarrow> nat option" where
  "identity_id_by_fingerprint d v =
     map_option ir_id (List.find (\<lambda>r. ir_fingerprint r = v) (test_identities d))"

definition identity_by_id :: "db \<Rightarrow> nat \<Rightarrow> test_identity option" where
  "identity_by_id d i =
     map_option identity_from_row (List.find (\<lambda>r. ir_id r = i) (test_identities d))"

definition count_identities :: "db \<Rightarrow> nat" where
  "count_identities d = length (test_identities d)"

definition count_executions :: "db \<Rightarrow> nat" where
  "count_executions d = length (executions d)"

definition all_identity_ids :: "db \<Rightarrow> nat list" where
  "all_identity_ids d = sort (map ir_id (test_identities d))"

definition identity_ids_for_run :: "db \<Rightarrow> nat \<Rightarrow> nat list" where
  "identity_ids_for_run d run_pk =
     sorted_set (map ex_identity_id (filter (\<lambda>e. ex_run_pk e = run_pk) (executions d)))"

text \<open>
  \<open>LIMIT\<close> with no bound is passed as a negative number, which SQLite reads as unbounded.
\<close>

definition limited :: "nat option \<Rightarrow> 'a list \<Rightarrow> 'a list" where
  "limited limit xs = (case limit of None \<Rightarrow> xs | Some n \<Rightarrow> take n xs)"

definition recency :: "execution_record \<Rightarrow> string \<times> nat" where
  "recency r = (er_started_at r, er_execution_id r)"

definition executions_for_identity :: "db \<Rightarrow> nat option \<Rightarrow> nat \<Rightarrow> execution_record list" where
  "executions_for_identity d limit identity_id =
     limited limit (sort_desc recency
       (map (\<lambda>(e, r). execution_record_of e r)
         (filter (\<lambda>(e, r). ex_identity_id e = identity_id) (joined d))))"

definition executions_for_run :: "db \<Rightarrow> nat \<Rightarrow> execution_record list" where
  "executions_for_run d run_pk =
     sort_key er_execution_id (map (\<lambda>(e, r). execution_record_of e r)
       (filter (\<lambda>(e, r). ex_run_pk e = run_pk) (joined d)))"

definition failing_identities_at_sha :: "db \<Rightarrow> string \<Rightarrow> nat list" where
  "failing_identities_at_sha d sha =
     sorted_set (map (\<lambda>(e, r). ex_identity_id e)
       (filter (\<lambda>(e, r). rr_commit_sha r = sha \<and> ex_outcome e \<in> {FAIL, ERROR}) (joined d)))"

definition warnings_for_run :: "db \<Rightarrow> nat \<Rightarrow> parse_warning list" where
  "warnings_for_run d run_pk =
     map wr_warning (sort_key wr_id (filter (\<lambda>w. wr_run_pk w = Some run_pk) (parse_warnings d)))"

definition diff_paths_for_sha :: "db \<Rightarrow> string \<Rightarrow> string set" where
  "diff_paths_for_sha d sha =
     set (map df_path (filter
       (\<lambda>f. list_ex (\<lambda>r. rr_id r = df_run_pk f \<and> rr_commit_sha r = sha) (runs d)) (diff_files d)))"

text \<open>
  \<open>identities_before_run\<close>: \<open>MAX(started_at)\<close> per identity over the runs that started strictly
  before the given one, most recently started first, then by key.
\<close>

definition started_before :: "db \<Rightarrow> nat \<Rightarrow> nat \<Rightarrow> string list" where
  "started_before d run_pk identity_id =
     (case List.find (\<lambda>r. rr_id r = run_pk) (runs d) of
        None \<Rightarrow> []
      | Some this \<Rightarrow>
          map (\<lambda>(e, r). rr_started_at r)
            (filter (\<lambda>(e, r). ex_identity_id e = identity_id \<and> rr_started_at r < rr_started_at this)
              (joined d)))"

definition identities_before_run :: "db \<Rightarrow> nat \<Rightarrow> (nat \<times> test_identity) list" where
  "identities_before_run d run_pk =
     map (\<lambda>r. (ir_id r, identity_from_row r))
       (sort_desc (\<lambda>r. fold max (started_before d run_pk (ir_id r)) [])
         (sort_key ir_id
           (filter (\<lambda>r. started_before d run_pk (ir_id r) \<noteq> []) (test_identities d))))"

section \<open>Groups of aliased identities\<close>

record identity_group =
  ig_identity_ids :: "nat list"
  ig_merged_uncertain :: bool

definition is_merged :: "identity_group \<Rightarrow> bool" where
  "is_merged g \<longleftrightarrow> 1 < length (ig_identity_ids g)"

definition touching :: "alias_row list \<Rightarrow> nat \<Rightarrow> alias_row list" where
  "touching rows i = filter (\<lambda>r. al_old r = i \<or> al_new r = i) rows"

definition ends :: "alias_row list \<Rightarrow> nat list" where
  "ends rows = concat (map (\<lambda>r. [al_old r, al_new r]) rows)"

text \<open>The frontier is a stack; its top, the end of the Python list, is the head here.\<close>

definition visit :: "nat \<Rightarrow> nat list \<times> nat list \<Rightarrow> nat list \<times> nat list" where
  "visit n = (\<lambda>(seen, frontier). if n \<in> set seen then (seen, frontier) else (n # seen, n # frontier))"

lemma visit_seen: "set (fst (fold visit ns (seen, frontier))) = set seen \<union> set ns"
  by (induction ns arbitrary: seen frontier) (auto simp: visit_def)

lemma visit_frontier:
  "\<exists>new. fold visit ns (seen, frontier) = (new @ seen, new @ frontier) \<and> distinct new \<and>
     set new \<inter> set seen = {} \<and> set new \<subseteq> set ns"
proof (induction ns arbitrary: seen frontier)
  case Nil
  then show ?case by simp
next
  case (Cons n ns)
  show ?case
  proof (cases "n \<in> set seen")
    case True
    then show ?thesis using Cons.IH [of seen frontier] by (fastforce simp: visit_def)
  next
    case False
    obtain new where "fold visit ns (n # seen, n # frontier) = (new @ n # seen, new @ n # frontier)"
      "distinct new" "set new \<inter> set (n # seen) = {}" "set new \<subseteq> set ns"
      using Cons.IH [of "n # seen" "n # frontier"] by blast
    moreover have "visit n (seen, frontier) = (n # seen, n # frontier)"
      using False by (simp add: visit_def)
    ultimately show ?thesis
      using False by (intro exI [of _ "new @ [n]"]) auto
  qed
qed

function group_loop ::
  "alias_row list \<Rightarrow> nat list \<Rightarrow> nat list \<Rightarrow> bool \<Rightarrow> nat list \<times> bool" where
  "group_loop rows seen [] uncertain = (seen, uncertain)"
| "group_loop rows seen (current # frontier) uncertain =
     (let found = touching rows current;
          (seen', frontier') = fold visit (ends found) (seen, frontier)
      in group_loop rows seen' frontier' (uncertain \<or> list_ex (\<lambda>r. \<not> al_certain r) found))"
  by pat_completeness auto
termination
proof (relation "measures [\<lambda>(rows, seen, frontier, uncertain). card (set (ends rows) - set seen),
    \<lambda>(rows, seen, frontier, uncertain). length frontier]", simp)
  fix rows :: "alias_row list" and seen frontier current uncertain found st seen' frontier'
  assume found: "found = touching rows current"
    and st: "st = fold visit (ends found) (seen, frontier)" and "(seen', frontier') = st"
  then obtain new where new: "seen' = new @ seen" "frontier' = new @ frontier"
    "set new \<inter> set seen = {}" "set new \<subseteq> set (ends found)"
    using visit_frontier [of "ends found" seen frontier] by auto
  have "set (ends found) \<subseteq> set (ends rows)"
    by (auto simp: found touching_def ends_def)
  with new have "new = [] \<or> set (ends rows) - set seen' \<subset> set (ends rows) - set seen"
    by (cases new) auto
  then have "new = [] \<or> card (set (ends rows) - set seen') < card (set (ends rows) - set seen)"
    by (auto intro: psubset_card_mono)
  with new show "((rows, seen', frontier', uncertain \<or> list_ex (\<lambda>r. \<not> al_certain r) found),
      rows, seen, current # frontier, uncertain)
      \<in> measures [\<lambda>(rows, seen, frontier, uncertain). card (set (ends rows) - set seen),
          \<lambda>(rows, seen, frontier, uncertain). length frontier]"
    by auto
qed

definition identity_group :: "db \<Rightarrow> nat \<Rightarrow> identity_group" where
  "identity_group d identity_id =
     (let (seen, uncertain) = group_loop (identity_aliases d) [identity_id] [identity_id] False
      in \<lparr>ig_identity_ids = sort seen, ig_merged_uncertain = uncertain\<rparr>)"

definition executions_for_group :: "db \<Rightarrow> nat option \<Rightarrow> nat \<Rightarrow> execution_record list" where
  "executions_for_group d limit identity_id =
     limited limit (sort_desc recency
       (concat (map (executions_for_identity d limit) (ig_identity_ids (identity_group d identity_id)))))"

definition recent_outcomes :: "db \<Rightarrow> nat \<Rightarrow> nat \<Rightarrow> bool list" where
  "recent_outcomes d limit identity_id =
     map (\<lambda>r. is_pass (er_outcome r))
       (filter (\<lambda>r. counts_as_observation (er_outcome r))
         (executions_for_group d (Some limit) identity_id))"

end
