(* ===== verification/History.thy ===== *)
theory History
  imports Store Config
begin

text \<open>
  Per-commit windows (\<open>detect/infra.py\<close>, \<open>detect/history.py\<close>): execution rows of one logical test
  are stripped of platform failures, grouped by commit and ordered by time. A window carries what
  the constructor of \<open>ShaWindow\<close> computes; the properties of the class are functions on it.
\<close>

section \<open>The program\<close>

definition truthy :: "string option \<Rightarrow> bool" where
  "truthy v \<longleftrightarrow> v \<noteq> None \<and> v \<noteq> Some []"

definition infra_haystack :: "execution_record \<Rightarrow> string" where
  "infra_haystack r =
     join '' '' (map (\<lambda>part. str_lower (the part))
       (filter truthy [er_failure_type r, er_failure_message r, er_stack_trace r]))"

definition is_infra_failure :: "detect_config \<Rightarrow> execution_record \<Rightarrow> bool" where
  "is_infra_failure settings r =
     (if er_outcome r \<noteq> ERROR then False
      else
        let haystack = infra_haystack r in
        if haystack = [] then False
        else list_ex (\<lambda>pattern. contains haystack (str_lower pattern)) (infra_error_patterns settings))"

datatype window_status = PASSED | FAILED | DIVERGED | NO_DATA

record sha_window =
  sw_commit_sha :: string
  sw_records :: "execution_record list"
  sw_started_at :: string
  sw_branch :: string
  sw_outcomes :: "outcome list"
  sw_attempts :: "int list"
  sw_shards :: "string list"
  sw_rerun_observed :: bool
  sw_infra_excluded :: nat

definition mk_window :: "string \<Rightarrow> execution_record list \<Rightarrow> sha_window" where
  "mk_window sha rs =
     \<lparr>sw_commit_sha = sha, sw_records = rs,
      sw_started_at = fold min (map er_started_at (tl rs)) (er_started_at (hd rs)),
      sw_branch = er_branch (hd rs),
      sw_outcomes = filter counts_as_observation (map er_outcome rs),
      sw_attempts = sorted_set (map er_attempt rs),
      sw_shards = sorted_set (filter (\<lambda>s. s \<noteq> []) (map er_shard_id rs)),
      sw_rerun_observed = list_ex er_rerun_observed rs, sw_infra_excluded = 0\<rparr>"

definition sw_observations :: "sha_window \<Rightarrow> nat" where
  "sw_observations w = length (sw_outcomes w)"

definition has_pass :: "sha_window \<Rightarrow> bool" where
  "has_pass w = list_ex is_pass (sw_outcomes w)"

definition has_failure :: "sha_window \<Rightarrow> bool" where
  "has_failure w = list_ex is_failure (sw_outcomes w)"

definition diverged :: "sha_window \<Rightarrow> bool" where
  "diverged w \<longleftrightarrow> (has_pass w \<and> has_failure w) \<or> sw_rerun_observed w"

text \<open>The attempts whose observations include one with the given property, as a set of keys.\<close>

definition attempts_with :: "(outcome \<Rightarrow> bool) \<Rightarrow> sha_window \<Rightarrow> int list" where
  "attempts_with p w =
     map fst (filter (\<lambda>(attempt, rs). list_ex (\<lambda>r. p (er_outcome r)) rs)
       (group_by er_attempt (filter (\<lambda>r. counts_as_observation (er_outcome r)) (sw_records w))))"

definition diverged_across_attempts :: "sha_window \<Rightarrow> bool" where
  "diverged_across_attempts w =
     (if \<not> diverged w \<or> length (sw_attempts w) < 2 then False
      else
        let passing = set (attempts_with is_pass w); failing = set (attempts_with is_failure w)
        in passing \<noteq> {} \<and> failing \<noteq> {} \<and> (passing - failing \<noteq> {} \<or> failing - passing \<noteq> {}))"

definition status :: "sha_window \<Rightarrow> window_status" where
  "status w =
     (if diverged w then DIVERGED else if sw_outcomes w = [] then NO_DATA
      else if has_failure w then FAILED else PASSED)"

definition failing_shards :: "sha_window \<Rightarrow> string list" where
  "failing_shards w =
     sorted_set (map er_shard_id
       (filter (\<lambda>r. er_shard_id r \<noteq> [] \<and> is_failure (er_outcome r)) (sw_records w)))"

record history =
  h_windows :: "sha_window list"
  h_infra_excluded :: nat
  h_skipped :: nat

definition h_observations :: "history \<Rightarrow> nat" where
  "h_observations h = sum_list (map sw_observations (h_windows h))"

definition measurable_windows :: "history \<Rightarrow> sha_window list" where
  "measurable_windows h = filter (\<lambda>w. 2 \<le> sw_observations w) (h_windows h)"

definition retry_data_available :: "history \<Rightarrow> bool" where
  "retry_data_available h \<longleftrightarrow> measurable_windows h \<noteq> []"

definition latest :: "history \<Rightarrow> sha_window option" where
  "latest h = (if h_windows h = [] then None else Some (last (h_windows h)))"

fun latest_failure_in :: "sha_window list \<Rightarrow> execution_record option" where
  "latest_failure_in [] = None"
| "latest_failure_in (w # ws) =
     (let failures = filter (\<lambda>r. is_failure (er_outcome r)) (sw_records w)
      in if failures \<noteq> [] then Some (last failures) else latest_failure_in ws)"

definition latest_failure :: "history \<Rightarrow> execution_record option" where
  "latest_failure h = latest_failure_in (rev (h_windows h))"

definition statuses :: "history \<Rightarrow> window_status list" where
  "statuses h = map status (h_windows h)"

text \<open>The loop of \<open>build_history\<close>: groups by commit, the two counters.\<close>

definition history_step ::
  "detect_config \<Rightarrow> execution_record \<Rightarrow> (string \<times> execution_record list) list \<times> nat \<times> nat \<Rightarrow>
   (string \<times> execution_record list) list \<times> nat \<times> nat" where
  "history_step settings r = (\<lambda>(grouped, infra_excluded, skipped).
     if is_infra_failure settings r then (grouped, infra_excluded + 1, skipped)
     else
       let skipped' = (if counts_as_observation (er_outcome r) then skipped else skipped + 1)
       in (group_append (er_commit_sha r) r grouped, infra_excluded, skipped'))"

definition window_order :: "sha_window \<Rightarrow> string \<times> string" where
  "window_order w = (sw_started_at w, sw_commit_sha w)"

definition build_history :: "detect_config \<Rightarrow> execution_record list \<Rightarrow> history" where
  "build_history settings rs =
     (let (grouped, infra_excluded, skipped) = fold (history_step settings) rs ([], 0, 0)
      in \<lparr>h_windows = sort_key window_order (map (\<lambda>(sha, g). mk_window sha g) grouped),
          h_infra_excluded = infra_excluded, h_skipped = skipped\<rparr>)"

section \<open>Windows\<close>

lemma window_simps [simp]:
  "sw_commit_sha (mk_window sha rs) = sha" "sw_records (mk_window sha rs) = rs"
  "sw_outcomes (mk_window sha rs) = filter counts_as_observation (map er_outcome rs)"
  "sw_rerun_observed (mk_window sha rs) = list_ex er_rerun_observed rs"
  by (simp_all add: mk_window_def)

lemma fold_min_least:
  fixes y :: "'a::linorder"
  shows "fold min xs y \<in> set (y # xs) \<and> (\<forall>x \<in> set (y # xs). fold min xs y \<le> x)"
proof (induction xs arbitrary: y)
  case (Cons x xs)
  show ?case using Cons.IH [of "min x y"] by (auto simp: min_def split: if_splits)
qed simp

lemma window_started_at:
  "rs \<noteq> [] \<Longrightarrow>
   sw_started_at (mk_window sha rs) \<in> er_started_at ` set rs \<and>
   (\<forall>r \<in> set rs. sw_started_at (mk_window sha rs) \<le> er_started_at r)"
  using fold_min_least [of "map er_started_at (tl rs)" "er_started_at (hd rs)"]
  by (cases rs) (auto simp: mk_window_def)

lemma window_has_pass: "has_pass (mk_window sha rs) \<longleftrightarrow> (\<exists>r \<in> set rs. er_outcome r = PASS)"
  by (force simp: has_pass_def list_ex_iff is_pass_iff counts_as_observation_def)

lemma window_has_failure: "has_failure (mk_window sha rs) \<longleftrightarrow> (\<exists>r \<in> set rs. is_failure (er_outcome r))"
  by (force simp: has_failure_def list_ex_iff outcome_defs)

lemma status_simps:
  "status w = DIVERGED \<longleftrightarrow> diverged w"
  "status w = NO_DATA \<longleftrightarrow> \<not> diverged w \<and> sw_outcomes w = []"
  "status w = FAILED \<longleftrightarrow> \<not> diverged w \<and> has_failure w"
  "status w = PASSED \<longleftrightarrow> \<not> diverged w \<and> sw_outcomes w \<noteq> [] \<and> \<not> has_failure w"
  by (auto simp: status_def has_failure_def)

lemma set_attempts_with:
  "set (attempts_with p w) =
     {er_attempt r | r. r \<in> set (sw_records w) \<and> counts_as_observation (er_outcome r) \<and> p (er_outcome r)}"
  unfolding attempts_with_def group_by_eq
  by (auto simp: filter_map comp_def list_ex_iff image_iff, metis)

section \<open>Building a history\<close>

definition kept :: "detect_config \<Rightarrow> execution_record list \<Rightarrow> execution_record list" where
  "kept settings rs = filter (\<lambda>r. \<not> is_infra_failure settings r) rs"

lemma history_fold:
  "fold (history_step settings) rs (g, i, s) =
     (fold (\<lambda>r. group_append (er_commit_sha r) r) (kept settings rs) g,
      i + length (filter (is_infra_failure settings) rs),
      s + length (filter (\<lambda>r. \<not> counts_as_observation (er_outcome r)) (kept settings rs)))"
  by (induction rs arbitrary: g i s) (simp_all add: history_step_def kept_def Let_def)

definition commits :: "detect_config \<Rightarrow> execution_record list \<Rightarrow> string list" where
  "commits settings rs = uniq (map er_commit_sha (kept settings rs))"

definition at_commit :: "detect_config \<Rightarrow> execution_record list \<Rightarrow> string \<Rightarrow> execution_record list" where
  "at_commit settings rs sha = filter (\<lambda>r. er_commit_sha r = sha) (kept settings rs)"

lemma build_history_eq:
  "build_history settings rs =
     \<lparr>h_windows = sort_key window_order
        (map (\<lambda>sha. mk_window sha (at_commit settings rs sha)) (commits settings rs)),
      h_infra_excluded = length (filter (is_infra_failure settings) rs),
      h_skipped = length (filter (\<lambda>r. \<not> counts_as_observation (er_outcome r)) (kept settings rs))\<rparr>"
  using group_by_eq [of er_commit_sha "kept settings rs"]
  by (simp add: build_history_def history_fold group_by_def commits_def at_commit_def comp_def)

lemma build_history_simps [simp]:
  "h_infra_excluded (build_history settings rs) = length (filter (is_infra_failure settings) rs)"
  "h_skipped (build_history settings rs) =
     length (filter (\<lambda>r. \<not> counts_as_observation (er_outcome r)) (kept settings rs))"
  by (simp_all add: build_history_eq)

lemma windows_mset:
  "mset (h_windows (build_history settings rs)) =
     mset (map (\<lambda>sha. mk_window sha (at_commit settings rs sha)) (commits settings rs))"
  by (simp add: build_history_eq)

lemma at_commit_nonempty: "sha \<in> set (commits settings rs) \<longleftrightarrow> at_commit settings rs sha \<noteq> []"
  by (auto simp: commits_def at_commit_def filter_empty_conv)

lemma windows_set:
  "set (h_windows (build_history settings rs)) =
     (\<lambda>sha. mk_window sha (at_commit settings rs sha)) ` set (commits settings rs)"
  by (simp add: build_history_eq)

lemma length_partition:
  "length (filter P xs) + length (filter (\<lambda>x. \<not> P x) xs) = length xs"
  by (induction xs) auto

lemma sum_list_perm: "mset xs = mset ys \<Longrightarrow> sum_list (xs :: nat list) = sum_list ys"
  by (metis sum_mset_sum_list)

lemma sum_length_groups:
  assumes "distinct ks" and "set (map k xs) \<subseteq> set ks"
  shows "sum_list (map (\<lambda>v. length (filter (\<lambda>x. k x = v) xs)) ks) = length xs"
  using assms
proof (induction xs)
  case (Cons x xs)
  have "sum_list (map (\<lambda>v. length (filter (\<lambda>y. k y = v) (x # xs))) ks) =
      sum_list (map (\<lambda>v. (if v = k x then 1 else 0) + length (filter (\<lambda>y. k y = v) xs)) ks)"
    by (intro arg_cong [of _ _ sum_list] map_cong) auto
  also have "\<dots> = sum_list (map (\<lambda>v. if v = k x then 1 else 0) ks) +
      sum_list (map (\<lambda>v. length (filter (\<lambda>y. k y = v) xs)) ks)"
    by (rule sum_list_addf)
  also have "sum_list (map (\<lambda>v. if v = k x then 1 else (0::nat)) ks) = 1"
  proof -
    have "sum_list (map (\<lambda>v. if v = k x then 1 else (0::nat)) ks) = count (mset ks) (k x)" for ks
      by (induction ks) auto
    then show ?thesis using Cons.prems by (simp add: distinct_count_atmost_1)
  qed
  finally show ?case using Cons by simp
qed simp

lemma observations_total:
  "h_observations (build_history settings rs) =
     length (filter (\<lambda>r. counts_as_observation (er_outcome r)) (kept settings rs))"
proof -
  let ?obs = "filter (\<lambda>r. counts_as_observation (er_outcome r)) (kept settings rs)"
  have obs: "sw_observations (mk_window sha (at_commit settings rs sha)) =
      length (filter (\<lambda>r. er_commit_sha r = sha) ?obs)" for sha
    by (simp add: sw_observations_def at_commit_def filter_map comp_def conj_commute)
  have "h_observations (build_history settings rs) =
      sum_list (map sw_observations
        (map (\<lambda>sha. mk_window sha (at_commit settings rs sha)) (commits settings rs)))"
    unfolding h_observations_def
    by (rule sum_list_perm) (simp only: mset_map [of sw_observations] windows_mset)
  also have "\<dots> = sum_list (map (\<lambda>v. length (filter (\<lambda>r. er_commit_sha r = v) ?obs)) (commits settings rs))"
    by (simp add: obs comp_def)
  also have "\<dots> = length ?obs"
    by (rule sum_length_groups) (auto simp: commits_def)
  finally show ?thesis .
qed

text \<open>
  C37. Every execution is accounted for exactly once: the observations in the windows, the skips
  and the excluded platform failures add up to the rows given. The windows are in strictly
  increasing order of (first start time, commit), there is exactly one per commit that has a row
  which is not a platform failure, and it holds exactly the rows of that commit in their order.
\<close>

theorem history_accounts_for_every_row:
  "let h = build_history settings rs in
     h_observations h + h_skipped h + h_infra_excluded h = length rs \<and>
     sorted (map window_order (h_windows h)) \<and>
     distinct (map sw_commit_sha (h_windows h)) \<and>
     set (map (\<lambda>w. (sw_commit_sha w, sw_records w)) (h_windows h)) =
       {(sha, at_commit settings rs sha) | sha. at_commit settings rs sha \<noteq> []}"
proof -
  have "h_observations (build_history settings rs) + h_skipped (build_history settings rs) =
      length (kept settings rs)"
    using length_partition [of "\<lambda>r. counts_as_observation (er_outcome r)" "kept settings rs"]
    by (simp add: observations_total)
  then have "h_observations (build_history settings rs) + h_skipped (build_history settings rs) +
      h_infra_excluded (build_history settings rs) = length rs"
    using length_partition [of "is_infra_failure settings" rs]
    by (simp add: kept_def)
  moreover have "distinct (map sw_commit_sha (h_windows (build_history settings rs)))"
  proof -
    have "mset (map sw_commit_sha (h_windows (build_history settings rs))) = mset (commits settings rs)"
      by (simp only: mset_map [of sw_commit_sha] windows_mset) (simp flip: mset_map add: comp_def)
    then show ?thesis
      by (rule mset_eq_imp_distinct_iff [THEN iffD2]) (simp add: commits_def)
  qed
  moreover have "set (map (\<lambda>w. (sw_commit_sha w, sw_records w)) (h_windows (build_history settings rs))) =
      {(sha, at_commit settings rs sha) | sha. at_commit settings rs sha \<noteq> []}"
    by (auto simp: windows_set image_iff at_commit_nonempty)
  ultimately show ?thesis by (simp add: Let_def build_history_eq)
qed

section \<open>What a window says\<close>

lemma latest_window_mem: "latest h = Some w \<Longrightarrow> w \<in> set (h_windows h)"
  by (auto simp: latest_def split: if_splits)

lemma window_from:
  "w \<in> set (h_windows (build_history settings rs)) \<Longrightarrow>
   w = mk_window (sw_commit_sha w) (at_commit settings rs (sw_commit_sha w)) \<and>
   at_commit settings rs (sw_commit_sha w) \<noteq> []"
  using at_commit_nonempty by (auto simp: windows_set)

text \<open>
  A window of a built history diverges exactly when the rows of its commit that are not
  platform failures contain both a pass and a failure, or a row the runner itself reported as
  re-run; its status is \<open>failed\<close> or \<open>passed\<close> exactly when every
  observation agrees; and a row that is a platform failure or a skip never decides any of these.
\<close>

theorem window_status_meaning:
  assumes "w \<in> set (h_windows (build_history settings rs))"
  shows "let mine = filter (\<lambda>r. er_commit_sha r = sw_commit_sha w \<and> \<not> is_infra_failure settings r) rs;
             seen = er_outcome ` set mine
         in (status w = DIVERGED \<longleftrightarrow>
               PASS \<in> seen \<and> (FAIL \<in> seen \<or> ERROR \<in> seen) \<or> (\<exists>r \<in> set mine. er_rerun_observed r)) \<and>
            (status w = FAILED \<longleftrightarrow> status w \<noteq> DIVERGED \<and> seen \<inter> {FAIL, ERROR} \<noteq> {} \<and> PASS \<notin> seen) \<and>
            (status w = PASSED \<longleftrightarrow> status w \<noteq> DIVERGED \<and> PASS \<in> seen \<and> seen \<subseteq> {PASS, SKIP}) \<and>
            (status w = NO_DATA \<longleftrightarrow> status w \<noteq> DIVERGED \<and> seen = {SKIP})"
proof -
  define g where "g = at_commit settings rs (sw_commit_sha w)"
  define seen where "seen = er_outcome ` set g"
  have w: "w = mk_window (sw_commit_sha w) g" and ne: "g \<noteq> []"
    using window_from [OF assms] by (simp_all add: g_def)
  have g: "g = filter (\<lambda>r. er_commit_sha r = sw_commit_sha w \<and> \<not> is_infra_failure settings r) rs"
    by (simp add: g_def at_commit_def kept_def conj_commute)
  have pass: "has_pass w \<longleftrightarrow> PASS \<in> seen"
    by (subst w) (force simp: window_has_pass seen_def)
  have fail: "has_failure w \<longleftrightarrow> FAIL \<in> seen \<or> ERROR \<in> seen"
    by (subst w) (force simp: window_has_failure seen_def is_failure_def)
  have div: "diverged w \<longleftrightarrow> PASS \<in> seen \<and> (FAIL \<in> seen \<or> ERROR \<in> seen) \<or> (\<exists>r \<in> set g. er_rerun_observed r)"
    unfolding diverged_def pass fail by (subst w) (simp add: list_ex_iff)
  have none: "sw_outcomes w = [] \<longleftrightarrow> seen \<subseteq> {SKIP}"
    by (subst w) (auto simp: filter_empty_conv seen_def counts_as_observation_def)
  have seen: "seen \<noteq> {}" using ne by (simp add: seen_def)
  have all: "seen \<subseteq> {PASS, FAIL, ERROR, SKIP}"
    using outcome.exhaust by blast
  show ?thesis
    unfolding Let_def g [symmetric] seen_def [symmetric] status_simps div fail none
    using seen all by auto
qed

definition sample_record :: "nat \<Rightarrow> string \<Rightarrow> outcome \<Rightarrow> execution_record" where
  "sample_record k sha r = \<lparr>er_execution_id = k, er_identity_id = 1, er_outcome = r,
     er_duration_ms = None, er_failure_type = None, er_failure_message = Some (''m'' @ show_nat k),
     er_stack_trace = None, er_rerun_observed = False, er_run_id = ''r'' @ show_nat k,
     er_attempt = int k, er_commit_sha = sha, er_branch = ''main'', er_shard_id = [],
     er_started_at = ''2024-01-0'' @ show_nat k\<rparr>"

theorem window_status_meaning_witness:
  "map status (h_windows (build_history default_detect_config
     [sample_record 3 ''b'' FAIL, sample_record 2 ''a'' PASS, sample_record 1 ''a'' FAIL])) =
     [DIVERGED, FAILED] \<and>
   status (mk_window ''a'' [sample_record 2 ''a'' PASS, sample_record 1 ''a'' FAIL]) = DIVERGED"
proof -
  let ?rs = "[sample_record 3 ''b'' FAIL, sample_record 2 ''a'' PASS, sample_record 1 ''a'' FAIL]"
  have windows: "h_windows (build_history default_detect_config ?rs) =
      [mk_window ''a'' [sample_record 2 ''a'' PASS, sample_record 1 ''a'' FAIL],
       mk_window ''b'' [sample_record 3 ''b'' FAIL]]"
    by code_simp
  have "status (mk_window ''b'' [sample_record 3 ''b'' FAIL]) = FAILED" by code_simp
  moreover have "status (mk_window ''a'' [sample_record 2 ''a'' PASS, sample_record 1 ''a'' FAIL]) = DIVERGED"
  proof -
    let ?w = "mk_window ''a'' [sample_record 2 ''a'' PASS, sample_record 1 ''a'' FAIL]"
    have "?w \<in> set (h_windows (build_history default_detect_config ?rs))"
      unfolding windows by simp
    moreover have "filter (\<lambda>r. er_commit_sha r = ''a'' \<and> \<not> is_infra_failure default_detect_config r) ?rs =
        [sample_record 2 ''a'' PASS, sample_record 1 ''a'' FAIL]"
      by code_simp
    ultimately show ?thesis
      using window_status_meaning [of ?w default_detect_config ?rs]
      by (simp add: Let_def sample_record_def)
  qed
  ultimately show ?thesis unfolding windows by simp
qed

section \<open>Platform failures and row order\<close>

lemma kept_idem [simp]: "kept settings (kept settings rs) = kept settings rs"
  by (simp add: kept_def)

lemma windows_kept: "h_windows (build_history settings (kept settings rs)) = h_windows (build_history settings rs)"
  by (simp add: build_history_eq commits_def at_commit_def)

text \<open>
  Platform failures are never blamed on a test: removing (or adding) rows that are platform
  failures leaves every window of the history as it is, and with them the observations, the latest
  window, the latest failure and the retry data. An assertion failure is never taken for one,
  whatever its message says.
\<close>

theorem infra_failures_do_not_count:
  "h_windows (build_history settings (filter (\<lambda>r. \<not> is_infra_failure settings r) rs)) =
     h_windows (build_history settings rs) \<and>
   latest (build_history settings (filter (\<lambda>r. \<not> is_infra_failure settings r) rs)) =
     latest (build_history settings rs) \<and>
   latest_failure (build_history settings (filter (\<lambda>r. \<not> is_infra_failure settings r) rs)) =
     latest_failure (build_history settings rs) \<and>
   list_all (\<lambda>r. er_outcome r = ERROR) (filter (is_infra_failure settings) rs)"
  using windows_kept [of settings rs]
  by (simp add: kept_def latest_def latest_failure_def list_all_iff is_infra_failure_def)

section \<open>Which failure is shown\<close>

lemma latest_failure_in_some:
  "latest_failure_in ws = Some r \<Longrightarrow>
   \<exists>us w vs. ws = us @ w # vs \<and> (\<forall>u \<in> set us. \<forall>q \<in> set (sw_records u). \<not> is_failure (er_outcome q)) \<and>
     (let fs = filter (\<lambda>r. is_failure (er_outcome r)) (sw_records w) in fs \<noteq> [] \<and> r = last fs)"
proof (induction ws)
  case (Cons w ws)
  show ?case
  proof (cases "filter (\<lambda>r. is_failure (er_outcome r)) (sw_records w) = []")
    case False
    with Cons.prems show ?thesis
      by (intro exI [of _ "[]"] exI [of _ w] exI [of _ ws]) (simp add: Let_def)
  next
    case True
    then obtain us v vs where "ws = us @ v # vs"
      "\<forall>u \<in> set us. \<forall>q \<in> set (sw_records u). \<not> is_failure (er_outcome q)"
      "let fs = filter (\<lambda>r. is_failure (er_outcome r)) (sw_records v) in fs \<noteq> [] \<and> r = last fs"
      using Cons by auto
    with True show ?thesis
      by (intro exI [of _ "w # us"] exI [of _ v] exI [of _ vs]) (auto simp: filter_empty_conv)
  qed
qed simp

lemma last_of_descending:
  "sorted (rev (map f xs)) \<Longrightarrow> x \<in> set xs \<Longrightarrow> f (last xs) \<le> f x"
  by (induction xs) (auto simp: sorted_append)

lemma sorted_desc_filter: "sorted (rev (map f xs)) \<Longrightarrow> sorted (rev (map f (filter P xs)))"
  by (induction xs) (auto simp: sorted_append)

text \<open>
  The record that stands for the test's failure is a failing row of the newest commit that
  has one, but within that commit it is the oldest: the rows come from the store newest first and
  the last failing one is taken. When a commit failed in two attempts, the evidence, the footprint
  and the model prompt are built from the earlier attempt, not from the most recent failure.
\<close>

theorem latest_failure_is_oldest_of_its_commit:
  assumes "sorted (rev (map recency rs))"
    and "latest_failure (build_history settings rs) = Some r"
  shows "r \<in> set rs \<and> is_failure (er_outcome r) \<and>
    (\<forall>q \<in> set (kept settings rs). is_failure (er_outcome q) \<longrightarrow>
       (er_commit_sha q = er_commit_sha r \<longrightarrow> recency r \<le> recency q) \<and>
       window_order (mk_window (er_commit_sha q) (at_commit settings rs (er_commit_sha q))) \<le>
       window_order (mk_window (er_commit_sha r) (at_commit settings rs (er_commit_sha r))))"
proof -
  let ?ws = "h_windows (build_history settings rs)"
  obtain us w vs where ws: "rev ?ws = us @ w # vs"
    and none: "\<forall>u \<in> set us. \<forall>q \<in> set (sw_records u). \<not> is_failure (er_outcome q)"
    and fs: "filter (\<lambda>r. is_failure (er_outcome r)) (sw_records w) \<noteq> []"
    and r: "r = last (filter (\<lambda>r. is_failure (er_outcome r)) (sw_records w))"
    using latest_failure_in_some [of "rev ?ws" r] assms(2) by (auto simp: latest_failure_def Let_def)
  have "w \<in> set ?ws" using ws by (metis in_set_conv_decomp set_rev)
  then have w: "w = mk_window (sw_commit_sha w) (at_commit settings rs (sw_commit_sha w))"
    using window_from by blast
  then have recs: "sw_records w = at_commit settings rs (sw_commit_sha w)"
    by (metis window_simps(2))
  have "r \<in> set (filter (\<lambda>r. is_failure (er_outcome r)) (sw_records w))"
    using fs r by (metis last_in_set)
  then have in_r: "r \<in> set (kept settings rs)" "is_failure (er_outcome r)" "er_commit_sha r = sw_commit_sha w"
    by (auto simp: recs at_commit_def)
  have desc: "sorted (rev (map recency (filter (\<lambda>r. is_failure (er_outcome r)) (sw_records w))))"
    unfolding recs at_commit_def kept_def by (intro sorted_desc_filter assms(1))
  have first: "recency r \<le> recency q"
    if "q \<in> set (kept settings rs)" "is_failure (er_outcome q)" "er_commit_sha q = er_commit_sha r" for q
    unfolding r using that in_r(3) by (intro last_of_descending [OF desc]) (simp add: recs at_commit_def)
  have newest: "window_order (mk_window (er_commit_sha q) (at_commit settings rs (er_commit_sha q))) \<le>
      window_order w"
    if q: "q \<in> set (kept settings rs)" "is_failure (er_outcome q)" for q
  proof -
    let ?v = "mk_window (er_commit_sha q) (at_commit settings rs (er_commit_sha q))"
    have qv: "q \<in> set (sw_records ?v)" using q by (simp add: at_commit_def)
    have "er_commit_sha q \<in> set (commits settings rs)" using q by (simp add: commits_def)
    then have "?v \<in> set (rev ?ws)" by (simp add: windows_set)
    then have "?v \<in> set (w # vs)" using ws none qv q(2) by auto
    moreover have "sorted (map window_order (rev vs @ [w] @ rev us))"
    proof -
      have "?ws = rev vs @ [w] @ rev us" using arg_cong [OF ws, of rev] by simp
      then show ?thesis by (metis build_history_eq history.select_convs(1) sorted_sort_key)
    qed
    ultimately show ?thesis by (auto simp: sorted_append)
  qed
  show ?thesis
    using in_r first newest w by (auto simp: kept_def)
qed

theorem latest_failure_is_oldest_of_its_commit_witness:
  "map_option er_failure_message (latest_failure (build_history default_detect_config
     [sample_record 2 ''a'' FAIL, sample_record 1 ''a'' FAIL])) = Some (Some ''m1'') \<and>
   recency (sample_record 1 ''a'' FAIL) \<le> recency (sample_record 2 ''a'' FAIL)"
proof -
  let ?rs = "[sample_record 2 ''a'' FAIL, sample_record 1 ''a'' FAIL]"
  have lf: "latest_failure (build_history default_detect_config ?rs) = Some (sample_record 1 ''a'' FAIL)"
    by code_simp
  have "sorted (rev (map recency ?rs))" "sample_record 2 ''a'' FAIL \<in> set (kept default_detect_config ?rs)"
    by code_simp+
  then have "recency (sample_record 1 ''a'' FAIL) \<le> recency (sample_record 2 ''a'' FAIL)"
    using latest_failure_is_oldest_of_its_commit [OF _ lf] by (auto simp: sample_record_def)
  moreover have "er_failure_message (sample_record 1 ''a'' FAIL) = Some ''m1''" by code_simp
  ultimately show ?thesis unfolding lf by simp
qed

end
