(* ===== verification/Rates.thy ===== *)
theory Rates
  imports History
begin

text \<open>
  Flake rates (\<open>detect/rates.py\<close>): exponentially weighted averages of 0/1 indicators over the
  windows of a history, oldest first. Floating point numbers are exact rationals.
\<close>

section \<open>The program\<close>

definition ewma_step :: "pyfloat \<Rightarrow> pyfloat \<Rightarrow> pyfloat \<Rightarrow> pyfloat" where
  "ewma_step alpha v smoothed = alpha * v + (1 - alpha) * smoothed"

fun ewma :: "pyfloat list \<Rightarrow> pyfloat \<Rightarrow> pyfloat" where
  "ewma [] alpha = 0"
| "ewma (v # vs) alpha = fold (ewma_step alpha) vs v"

definition indicator :: "bool \<Rightarrow> pyfloat" where
  "indicator b = (if b then 1 else 0)"

definition divergence_rate :: "detect_config \<Rightarrow> history \<Rightarrow> pyfloat" where
  "divergence_rate settings h =
     (let windows = filter (\<lambda>w. status w \<noteq> NO_DATA) (h_windows h)
      in if windows = [] then 0
         else ewma (map (\<lambda>w. indicator (diverged w)) windows) (ewma_alpha settings))"

fun flips :: "window_status list \<Rightarrow> pyfloat list" where
  "flips (previous # current # rest) =
     (if current = DIVERGED \<or> previous = DIVERGED then 1
      else indicator (current \<noteq> previous)) # flips (current # rest)"
| "flips _ = []"

definition intermittency_rate :: "detect_config \<Rightarrow> history \<Rightarrow> pyfloat" where
  "intermittency_rate settings h =
     (let ss = filter (\<lambda>s. s \<noteq> NO_DATA) (statuses h)
      in if length ss < 2 then 0 else ewma (flips ss) (ewma_alpha settings))"

definition flake_rate :: "detect_config \<Rightarrow> history \<Rightarrow> pyfloat" where
  "flake_rate settings h =
     (if retry_data_available h then divergence_rate settings h else intermittency_rate settings h)"

section \<open>The average\<close>

lemma ewma_snoc: "vs \<noteq> [] \<Longrightarrow> ewma (vs @ [v]) alpha = ewma_step alpha v (ewma vs alpha)"
  by (cases vs) simp_all

text \<open>The closed form: the weights of the values, oldest first.\<close>

definition weights :: "pyfloat \<Rightarrow> nat \<Rightarrow> pyfloat list" where
  "weights alpha n = (1 - alpha) ^ n # map (\<lambda>i. alpha * (1 - alpha) ^ (n - 1 - i)) [0..<n]"

lemma length_weights [simp]: "length (weights alpha n) = Suc n"
  by (simp add: weights_def)

lemma weights_Suc: "weights alpha (Suc n) = map ((*) (1 - alpha)) (weights alpha n) @ [alpha]"
proof -
  have "map (\<lambda>i. alpha * (1 - alpha) ^ (n - i)) [0..<n] =
      map (\<lambda>i. (1 - alpha) * (alpha * (1 - alpha) ^ (n - 1 - i))) [0..<n]"
    by (intro map_cong refl) (simp add: Suc_diff_Suc flip: power_Suc)
  then show ?thesis by (simp add: weights_def)
qed

definition dot :: "pyfloat list \<Rightarrow> pyfloat list \<Rightarrow> pyfloat" where
  "dot ws vs = sum_list (map2 (*) ws vs)"

lemma dot_scale: "dot (map ((*) c) ws) vs = c * dot ws vs"
  unfolding dot_def
proof (induction ws arbitrary: vs)
  case (Cons w ws)
  then show ?case by (cases vs) (simp_all add: algebra_simps)
qed simp

lemma dot_append: "length ws = length vs \<Longrightarrow> dot (ws @ [w]) (vs @ [v]) = dot ws vs + w * v"
  by (simp add: dot_def)

lemma ewma_dot: "vs \<noteq> [] \<Longrightarrow> ewma vs alpha = dot (weights alpha (length vs - 1)) vs"
proof (induction vs rule: rev_induct)
  case (snoc v vs)
  show ?case
  proof (cases "vs = []")
    case True
    then show ?thesis by (simp add: dot_def weights_def)
  next
    case False
    then obtain n where n: "length vs = Suc n" by (cases vs) auto
    have "dot (weights alpha (Suc n)) (vs @ [v]) = (1 - alpha) * dot (weights alpha n) vs + alpha * v"
      by (simp add: weights_Suc dot_append dot_scale n)
    with snoc False n show ?thesis by (simp add: ewma_snoc ewma_step_def)
  qed
qed simp

lemma sum_weights: "sum_list (weights alpha n) = 1"
proof (induction n)
  case (Suc n)
  have "sum_list (map ((*) (1 - alpha)) (weights alpha n)) = (1 - alpha) * sum_list (weights alpha n)"
    using sum_list_const_mult [of "1 - alpha" id "weights alpha n"] by (simp add: comp_def)
  then show ?case using Suc by (simp add: weights_Suc)
qed (simp add: weights_def)

text \<open>
  The smoothed rate is a weighted mean of the indicators: the newest value has weight
  \<open>alpha\<close>, each older one \<open>1 - alpha\<close> times the weight of its successor,
  the oldest carries the remaining mass, and the weights add up to one.
\<close>

theorem ewma_is_weighted_mean:
  "(if vs = [] then ewma vs alpha = 0 else ewma vs alpha = dot (weights alpha (length vs - 1)) vs) \<and>
   sum_list (weights alpha n) = 1 \<and>
   weights alpha (Suc n) = map ((*) (1 - alpha)) (weights alpha n) @ [alpha]"
  using ewma_dot [of vs alpha] sum_weights weights_Suc by simp

section \<open>Bounds\<close>

lemma ewma_step_range:
  assumes "0 \<le> alpha" "alpha \<le> 1" "lo \<le> v" "v \<le> hi" "lo \<le> s" "s \<le> hi"
  shows "lo \<le> ewma_step alpha v s \<and> ewma_step alpha v s \<le> hi"
proof -
  have "alpha * lo + (1 - alpha) * lo \<le> ewma_step alpha v s"
    unfolding ewma_step_def using assms by (intro add_mono mult_left_mono) auto
  moreover have "ewma_step alpha v s \<le> alpha * hi + (1 - alpha) * hi"
    unfolding ewma_step_def using assms by (intro add_mono mult_left_mono) auto
  ultimately show ?thesis by (simp add: algebra_simps)
qed

lemma ewma_range:
  assumes "0 \<le> alpha" "alpha \<le> 1" "vs \<noteq> []" "\<forall>v \<in> set vs. lo \<le> v \<and> v \<le> hi"
  shows "lo \<le> ewma vs alpha \<and> ewma vs alpha \<le> hi"
  using assms(3,4)
proof (induction vs rule: rev_induct)
  case (snoc v vs)
  then show ?case
    using ewma_step_range [OF assms(1,2), of lo v hi "ewma vs alpha"]
    by (cases "vs = []") (auto simp: ewma_snoc)
qed simp

lemma indicator_range [simp]: "0 \<le> indicator b" "indicator b \<le> 1"
  by (simp_all add: indicator_def)

lemma flips_range: "v \<in> set (flips ss) \<Longrightarrow> 0 \<le> v \<and> v \<le> 1"
  by (induction ss rule: flips.induct) (auto split: if_splits)

lemma length_flips: "length (flips ss) = length ss - 1"
  by (induction ss rule: flips.induct) auto

lemma flips_Nil: "flips ss = [] \<longleftrightarrow> length ss < 2"
  using length_flips [of ss] by auto

lemma valid_alpha: "valid_detect_config c \<Longrightarrow> 0 < ewma_alpha c \<and> ewma_alpha c \<le> 1"
  by (simp add: valid_detect_config_def)

lemma divergence_rate_range:
  assumes "valid_detect_config c"
  shows "0 \<le> divergence_rate c h \<and> divergence_rate c h \<le> 1"
proof (cases "filter (\<lambda>w. status w \<noteq> NO_DATA) (h_windows h) = []")
  case False
  then have "0 \<le> ewma (map (\<lambda>w. indicator (diverged w)) (filter (\<lambda>w. status w \<noteq> NO_DATA) (h_windows h)))
        (ewma_alpha c) \<and>
      ewma (map (\<lambda>w. indicator (diverged w)) (filter (\<lambda>w. status w \<noteq> NO_DATA) (h_windows h)))
        (ewma_alpha c) \<le> 1"
    using valid_alpha [OF assms] by (intro ewma_range) auto
  with False show ?thesis by (simp add: divergence_rate_def Let_def)
qed (simp add: divergence_rate_def)

lemma intermittency_rate_range:
  assumes "valid_detect_config c"
  shows "0 \<le> intermittency_rate c h \<and> intermittency_rate c h \<le> 1"
proof (cases "length (filter (\<lambda>s. s \<noteq> NO_DATA) (statuses h)) < 2")
  case False
  then have "0 \<le> ewma (flips (filter (\<lambda>s. s \<noteq> NO_DATA) (statuses h))) (ewma_alpha c) \<and>
      ewma (flips (filter (\<lambda>s. s \<noteq> NO_DATA) (statuses h))) (ewma_alpha c) \<le> 1"
    using valid_alpha [OF assms] flips_range by (intro ewma_range) (auto simp: flips_Nil)
  with False show ?thesis by (simp add: intermittency_rate_def Let_def)
qed (simp add: intermittency_rate_def)

lemma ewma_zero:
  assumes "0 < alpha" "alpha < 1" "\<forall>v \<in> set vs. 0 \<le> v"
  shows "ewma vs alpha = 0 \<longleftrightarrow> (\<forall>v \<in> set vs. v = 0)"
  using assms(3)
proof (induction vs rule: rev_induct)
  case (snoc v vs)
  show ?case
  proof (cases "vs = []")
    case False
    have "0 \<le> ewma vs alpha"
    proof -
      have "\<forall>x \<in> set vs. 0 \<le> x \<and> x \<le> Max (set vs)" using snoc.prems by auto
      with False assms(1,2) ewma_range [of alpha vs 0 "Max (set vs)"] show ?thesis by simp
    qed
    then have "ewma (vs @ [v]) alpha = 0 \<longleftrightarrow> v = 0 \<and> ewma vs alpha = 0"
      using False snoc.prems assms(1,2)
      by (auto simp: ewma_snoc ewma_step_def add_nonneg_eq_0_iff)
    with snoc show ?thesis by auto
  qed simp
qed simp

lemma filter_status: "filter (\<lambda>s. s \<noteq> NO_DATA) (statuses h) = map status (filter (\<lambda>w. status w \<noteq> NO_DATA) (h_windows h))"
  by (simp add: statuses_def filter_map comp_def)

lemma flips_zero: "(\<forall>v \<in> set (flips ss). v = 0) \<longleftrightarrow>
    length ss < 2 \<or> (\<exists>s. s \<noteq> DIVERGED \<and> set ss \<subseteq> {s})"
proof (induction ss rule: flips.induct)
  case (1 p c rest)
  then show ?case by (cases rest) (auto simp: indicator_def)
qed auto

lemma one_status:
  assumes "X \<noteq> {}" and "NO_DATA \<notin> X"
  shows "(\<exists>s. s \<noteq> DIVERGED \<and> X \<subseteq> {s}) \<longleftrightarrow> X = {PASSED} \<or> X = {FAILED}"
proof
  assume "\<exists>s. s \<noteq> DIVERGED \<and> X \<subseteq> {s}"
  then obtain s where "s \<noteq> DIVERGED" "X = {s}" using assms(1) by blast
  with assms(2) show "X = {PASSED} \<or> X = {FAILED}" by (cases s) auto
qed auto

text \<open>
  All three rates lie between 0 and 1. For a smoothing factor below one they vanish exactly
  when nothing ever moved: the divergence rate when no commit diverged, the intermittency rate
  when fewer than two commits have data or all of them passed, or all of them failed.
\<close>

theorem rates_bounded:
  assumes "valid_detect_config c"
  shows "0 \<le> flake_rate c h \<and> flake_rate c h \<le> 1 \<and>
    0 \<le> divergence_rate c h \<and> divergence_rate c h \<le> 1 \<and>
    0 \<le> intermittency_rate c h \<and> intermittency_rate c h \<le> 1 \<and>
    (ewma_alpha c < 1 \<longrightarrow>
      (divergence_rate c h = 0 \<longleftrightarrow> (\<forall>w \<in> set (h_windows h). \<not> diverged w)) \<and>
      (intermittency_rate c h = 0 \<longleftrightarrow>
         (let ss = filter (\<lambda>s. s \<noteq> NO_DATA) (statuses h)
          in length ss < 2 \<or> set ss = {PASSED} \<or> set ss = {FAILED})))"
proof -
  let ?ss = "filter (\<lambda>s. s \<noteq> NO_DATA) (statuses h)"
  have "divergence_rate c h = 0 \<longleftrightarrow> (\<forall>w \<in> set (h_windows h). \<not> diverged w)" if "ewma_alpha c < 1"
  proof -
    have "\<forall>w \<in> set (h_windows h). status w = NO_DATA \<longrightarrow> \<not> diverged w"
      by (simp add: status_simps)
    moreover have "divergence_rate c h = 0 \<longleftrightarrow>
        (\<forall>w \<in> set (filter (\<lambda>w. status w \<noteq> NO_DATA) (h_windows h)). indicator (diverged w) = 0)"
      using ewma_zero [of "ewma_alpha c"
          "map (\<lambda>w. indicator (diverged w)) (filter (\<lambda>w. status w \<noteq> NO_DATA) (h_windows h))"]
        valid_alpha [OF assms] that
      by (auto simp: divergence_rate_def Let_def filter_empty_conv)
    ultimately show ?thesis by (auto simp: indicator_def)
  qed
  moreover have "intermittency_rate c h = 0 \<longleftrightarrow>
      length ?ss < 2 \<or> set ?ss = {PASSED} \<or> set ?ss = {FAILED}" if "ewma_alpha c < 1"
  proof -
    have "ewma (flips ?ss) (ewma_alpha c) = 0 \<longleftrightarrow> (\<forall>v \<in> set (flips ?ss). v = 0)"
      using valid_alpha [OF assms] that flips_range by (intro ewma_zero) auto
    then have "intermittency_rate c h = 0 \<longleftrightarrow> length ?ss < 2 \<or> (\<exists>s. s \<noteq> DIVERGED \<and> set ?ss \<subseteq> {s})"
      by (simp add: intermittency_rate_def Let_def flips_zero)
    moreover have "2 \<le> length ?ss \<Longrightarrow> set ?ss \<noteq> {}" by (cases ?ss) auto
    moreover have "NO_DATA \<notin> set ?ss" by simp
    ultimately show ?thesis
      using one_status [of "set ?ss"] by (cases "length ?ss < 2") auto
  qed
  ultimately show ?thesis
    using divergence_rate_range [OF assms, of h] intermittency_rate_range [OF assms, of h]
    by (simp add: flake_rate_def Let_def)
qed

definition sample_window :: "outcome list \<Rightarrow> sha_window" where
  "sample_window os = mk_window ''c'' (map (sample_record 1 ''c'') os)"

definition sample_history :: "outcome list list \<Rightarrow> history" where
  "sample_history oss = \<lparr>h_windows = map sample_window oss, h_infra_excluded = 0, h_skipped = 0\<rparr>"

theorem rates_bounded_witness:
  "flake_rate default_detect_config (sample_history [[PASS, FAIL], [PASS]]) = 7 / 10 \<and>
   (7 / 10 :: pyfloat) \<le> 1"
proof -
  have "flake_rate default_detect_config (sample_history [[PASS, FAIL], [PASS]]) = 7 / 10"
    by code_simp
  with rates_bounded [OF valid_default_configs(1), of "sample_history [[PASS, FAIL], [PASS]]"]
  show ?thesis by simp
qed

section \<open>Recovery\<close>

lemma ewma_replicate_zero:
  "vs \<noteq> [] \<Longrightarrow> ewma (vs @ replicate n 0) alpha = (1 - alpha) ^ n * ewma vs alpha"
proof (induction n)
  case (Suc n)
  have "vs @ replicate (Suc n) 0 = (vs @ replicate n 0) @ [0]"
    by (simp flip: replicate_append_same)
  moreover have "vs @ replicate n 0 \<noteq> []" using Suc.prems by simp
  ultimately have "ewma (vs @ replicate (Suc n) 0) alpha = ewma_step alpha 0 (ewma (vs @ replicate n 0) alpha)"
    by (metis ewma_snoc)
  then show ?case using Suc by (simp add: ewma_step_def)
qed simp

text \<open>
  A fixed test recovers: after \<open>n\<close> further commits that only passed, the
  divergence rate is \<open>(1 - alpha) ^ n\<close> times what it was, so it never rises, and
  commits that produced no data leave it alone.
\<close>

theorem divergence_rate_decays:
  assumes "\<forall>w \<in> set clean. status w = PASSED" and "\<exists>w \<in> set ws. status w \<noteq> NO_DATA"
    and "\<forall>w \<in> set idle. status w = NO_DATA"
  shows "divergence_rate c \<lparr>h_windows = ws @ clean @ idle, h_infra_excluded = i, h_skipped = s\<rparr> =
    (1 - ewma_alpha c) ^ length clean *
    divergence_rate c \<lparr>h_windows = ws, h_infra_excluded = i, h_skipped = s\<rparr>"
proof -
  let ?f = "filter (\<lambda>w. status w \<noteq> NO_DATA)"
  have "?f clean = clean" using assms(1) by (simp add: filter_id_conv)
  moreover have "?f idle = []" using assms(3) by (simp add: filter_empty_conv)
  moreover have "map (\<lambda>w. indicator (diverged w)) clean = replicate (length clean) 0"
  proof (rule replicate_eqI)
    fix x
    assume "x \<in> set (map (\<lambda>w. indicator (diverged w)) clean)"
    then show "x = 0" using assms(1) by (auto simp: indicator_def status_simps)
  qed simp
  moreover have "?f ws \<noteq> []" using assms(2) by (simp add: filter_empty_conv)
  ultimately show ?thesis
    by (simp add: divergence_rate_def Let_def ewma_replicate_zero)
qed

theorem divergence_rate_decays_witness:
  "divergence_rate default_detect_config (sample_history [[PASS, FAIL], [PASS], [PASS], [SKIP]]) =
     49 / 100"
proof -
  have "divergence_rate default_detect_config
      \<lparr>h_windows = [sample_window [PASS, FAIL]], h_infra_excluded = 0, h_skipped = 0\<rparr> = 1"
    by code_simp
  moreover have "status (sample_window [PASS]) = PASSED" "status (sample_window [SKIP]) = NO_DATA"
    "status (sample_window [PASS, FAIL]) = DIVERGED"
    by code_simp+
  ultimately show ?thesis
    using divergence_rate_decays [of "[sample_window [PASS], sample_window [PASS]]"
        "[sample_window [PASS, FAIL]]" "[sample_window [SKIP]]" default_detect_config 0 0]
    by (simp add: sample_history_def default_detect_config_def power2_eq_square)
qed

end
