(* ===== verification/Regex.thy ===== *)
theory Regex
  imports Prelude
begin

text \<open>
  The fragment of Python's \<open>re\<close> the program uses, as a backtracking matcher: all the ways to match
  a prefix of the subject, in the order the engine tries them, so that the head of the list is the
  match it reports. Greedy and lazy repetition differ only in that order.
\<close>

datatype regex =
    Cls "char \<Rightarrow> bool"
  | Eps
  | Seq regex regex
  | Alt regex regex
  | Greedy regex
  | Lazy regex

definition extend :: "string \<Rightarrow> (string \<times> string) list \<Rightarrow> (string \<times> string) list" where
  "extend c ms = map (\<lambda>(c', s'). (c @ c', s')) ms"

function matches :: "regex \<Rightarrow> string \<Rightarrow> (string \<times> string) list" where
  "matches (Cls p) s = (case s of [] \<Rightarrow> [] | c # cs \<Rightarrow> if p c then [([c], cs)] else [])"
| "matches Eps s = [([], s)]"
| "matches (Seq r q) s = concat (map (\<lambda>(c, s'). extend c (matches q s')) (matches r s))"
| "matches (Alt r q) s = matches r s @ matches q s"
| "matches (Greedy r) s =
     concat (map (\<lambda>(c, s'). if length s' < length s then extend c (matches (Greedy r) s') else [])
       (matches r s)) @ [([], s)]"
| "matches (Lazy r) s =
     ([], s) # concat (map (\<lambda>(c, s'). if length s' < length s then extend c (matches (Lazy r) s') else [])
       (matches r s))"
  by pat_completeness auto
termination
  by (relation "measures [\<lambda>(r, s). size r, \<lambda>(r, s). length s]") auto

declare matches.simps(5,6) [simp del]

definition lit :: "string \<Rightarrow> regex" where
  "lit s = foldr (\<lambda>c. Seq (Cls (\<lambda>x. x = c))) s Eps"

definition plus :: "regex \<Rightarrow> regex" where
  "plus r = Seq r (Greedy r)"

definition alts :: "regex list \<Rightarrow> regex" where
  "alts rs = (case rev rs of [] \<Rightarrow> Eps | r # qs \<Rightarrow> foldr Alt (rev qs) r)"

definition re_match :: "regex \<Rightarrow> string \<Rightarrow> (string \<times> string) option" where
  "re_match r s = (case matches r s of [] \<Rightarrow> None | m # _ \<Rightarrow> Some m)"

text \<open>
  \<open>re.finditer\<close> for a pattern that matches no empty text: the leftmost match, then on from its end.
\<close>

function find_all :: "regex \<Rightarrow> string \<Rightarrow> string list" where
  "find_all r [] = []"
| "find_all r (c # cs) =
     (case re_match r (c # cs) of
        None \<Rightarrow> find_all r cs
      | Some (m, rest) \<Rightarrow> if length rest \<le> length cs then m # find_all r rest else find_all r cs)"
  by pat_completeness auto
termination by (relation "measure (\<lambda>(r, s). length s)") auto

section \<open>The matcher is sound and complete for the language\<close>

inductive_set lang_star :: "string set \<Rightarrow> string set" for L where
  star_Nil: "[] \<in> lang_star L"
| star_step: "u \<in> L \<Longrightarrow> v \<in> lang_star L \<Longrightarrow> u @ v \<in> lang_star L"

fun lang :: "regex \<Rightarrow> string set" where
  "lang (Cls p) = {[c] | c. p c}"
| "lang Eps = {[]}"
| "lang (Seq r q) = {u @ v | u v. u \<in> lang r \<and> v \<in> lang q}"
| "lang (Alt r q) = lang r \<union> lang q"
| "lang (Greedy r) = lang_star (lang r)"
| "lang (Lazy r) = lang_star (lang r)"

lemma mem_extend: "(x, t) \<in> set (extend c ms) \<longleftrightarrow> (\<exists>c'. x = c @ c' \<and> (c', t) \<in> set ms)"
  by (force simp: extend_def)

lemma mem_Seq:
  "(x, t) \<in> set (matches (Seq r q) s) \<longleftrightarrow>
     (\<exists>c c' u. x = c @ c' \<and> (c, u) \<in> set (matches r s) \<and> (c', t) \<in> set (matches q u))"
  by (fastforce simp: mem_extend)

lemma mem_star:
  "(x, t) \<in> set (matches (Greedy r) s) \<longleftrightarrow> (x = [] \<and> t = s) \<or>
     (\<exists>c c' u. x = c @ c' \<and> (c, u) \<in> set (matches r s) \<and> length u < length s \<and>
        (c', t) \<in> set (matches (Greedy r) u))"
  "(x, t) \<in> set (matches (Lazy r) s) \<longleftrightarrow> (x = [] \<and> t = s) \<or>
     (\<exists>c c' u. x = c @ c' \<and> (c, u) \<in> set (matches r s) \<and> length u < length s \<and>
        (c', t) \<in> set (matches (Lazy r) u))"
  by (subst matches.simps, fastforce simp: mem_extend split: if_splits)+

lemma matches_sound: "(c, s') \<in> set (matches r s) \<Longrightarrow> s = c @ s' \<and> c \<in> lang r"
proof (induction r s arbitrary: c s' rule: matches.induct)
  case (3 r q s)
  then obtain a b u where ab: "c = a @ b" "(a, u) \<in> set (matches r s)" "(b, s') \<in> set (matches q u)"
    unfolding mem_Seq by blast
  have "s = a @ u \<and> a \<in> lang r" using "3.IH"(1) ab(2) by blast
  moreover have "u = b @ s' \<and> b \<in> lang q" using "3.IH"(2) ab(2,3) by blast
  ultimately show ?case using ab(1) by auto
next
  case (5 r s)
  from mem_star(1) [THEN iffD1, OF "5.prems"] show ?case
  proof (elim disjE exE conjE)
    fix a b u
    assume ab: "c = a @ b" "(a, u) \<in> set (matches r s)" "length u < length s"
      "(b, s') \<in> set (matches (Greedy r) u)"
    have "s = a @ u \<and> a \<in> lang r" using "5.IH"(1) ab(2) by blast
    moreover have "u = b @ s' \<and> b \<in> lang (Greedy r)" using "5.IH"(2) ab(2,3,4) by blast
    ultimately show ?case using ab(1) by (auto intro: star_step)
  qed (simp add: star_Nil)
next
  case (6 r s)
  from mem_star(2) [THEN iffD1, OF "6.prems"] show ?case
  proof (elim disjE exE conjE)
    fix a b u
    assume ab: "c = a @ b" "(a, u) \<in> set (matches r s)" "length u < length s"
      "(b, s') \<in> set (matches (Lazy r) u)"
    have "s = a @ u \<and> a \<in> lang r" using "6.IH"(1) ab(2) by blast
    moreover have "u = b @ s' \<and> b \<in> lang (Lazy r)" using "6.IH"(2) ab(2,3,4) by blast
    ultimately show ?case using ab(1) by (auto intro: star_step)
  qed (simp add: star_Nil)
qed (auto split: list.splits if_splits)

lemma star_nonempty:
  "v \<in> lang_star L \<Longrightarrow> v = [] \<or> (\<exists>u w. v = u @ w \<and> u \<noteq> [] \<and> u \<in> L \<and> w \<in> lang_star L)"
proof (induction rule: lang_star.induct)
  case (star_step u v)
  then show ?case by (cases "u = []") auto
qed simp

lemma matches_star:
  assumes "\<And>s u. u \<in> lang r \<Longrightarrow> (u, s) \<in> set (matches r (u @ s))" and "v \<in> lang_star (lang r)"
  shows "(v, s) \<in> set (matches (Greedy r) (v @ s)) \<and> (v, s) \<in> set (matches (Lazy r) (v @ s))"
  using assms(2)
proof (induction "length v" arbitrary: v rule: less_induct)
  case less
  show ?case
  proof (cases "v = []")
    case True
    then show ?thesis by (simp add: matches.simps(5,6) [of r s])
  next
    case False
    then obtain u w where uw: "v = u @ w" "u \<noteq> []" "u \<in> lang r" "w \<in> lang_star (lang r)"
      using star_nonempty [OF less.prems] by blast
    then have "(w, s) \<in> set (matches (Greedy r) (w @ s)) \<and> (w, s) \<in> set (matches (Lazy r) (w @ s))"
      by (intro less.hyps) auto
    moreover have "(u, w @ s) \<in> set (matches r (v @ s))"
      using assms(1) [OF uw(3), of "w @ s"] uw(1) by simp
    moreover have "length (w @ s) < length (v @ s)" using uw(1,2) by simp
    ultimately show ?thesis
      using uw(1) mem_star [of v s r "v @ s"] by blast
  qed
qed

lemma matches_complete: "u \<in> lang r \<Longrightarrow> (u, s) \<in> set (matches r (u @ s))"
proof (induction r arbitrary: u s)
  case (Seq r q)
  then obtain v w where "u = v @ w" "v \<in> lang r" "w \<in> lang q" by auto
  with Seq.IH(1) [of v "w @ s"] Seq.IH(2) [of w s] show ?case
    unfolding mem_Seq by auto
next
  case (Greedy r)
  then show ?case using matches_star [of r u s] by simp
next
  case (Lazy r)
  then show ?case using matches_star [of r u s] by simp
qed auto

lemma matches_iff: "(u, v) \<in> set (matches r s) \<longleftrightarrow> s = u @ v \<and> u \<in> lang r"
  using matches_sound matches_complete by blast

lemma re_match_sound: "re_match r s = Some (u, v) \<Longrightarrow> s = u @ v \<and> u \<in> lang r"
  by (rule matches_sound) (auto simp: re_match_def split: list.splits)

lemma find_all_sound: "m \<in> set (find_all r s) \<Longrightarrow> sublist m s \<and> m \<in> lang r"
proof (induction r s rule: find_all.induct)
  case (2 r c cs)
  show ?case
  proof (cases "re_match r (c # cs)")
    case None
    with 2 show ?thesis by (auto simp: sublist_Cons_right)
  next
    case (Some p)
    obtain u v where p: "p = (u, v)" by (cases p)
    have uv: "c # cs = u @ v" "u \<in> lang r" using re_match_sound Some p by blast+
    show ?thesis
    proof (cases "length v \<le> length cs")
      case True
      then have "m = u \<or> sublist m v \<and> m \<in> lang r"
        using 2 Some p by auto
      moreover have "sublist u (u @ v)" "sublist v (u @ v)"
        by (simp_all add: sublist_appendI [of _ "[]", simplified] suffix_imp_sublist)
      ultimately show ?thesis
        unfolding uv(1) using uv(2) sublist_order.order_trans by blast
    next
      case False
      then have "sublist m cs \<and> m \<in> lang r"
        using 2 Some p by auto
      then show ?thesis by (auto simp: sublist_Cons_right)
    qed
  qed
qed simp

end
