(* ===== verification/Fingerprint.thy ===== *)
theory Fingerprint
  imports Models
begin

text \<open>
  Test identity (\<open>identity/fingerprint.py\<close>): a parsed case is normalised into a suite path, a
  test name and a parameter string, and the three are hashed. SHA-256 is a parameter \<open>sha\<close> of
  the model (the hexadecimal digest of a text).

  The two regular expressions are written out. \<open>.\<close> matches any character but a line feed and
  \<open>$\<close> also matches before a final line feed.
\<close>

section \<open>The program\<close>

text \<open>
  \<open>^(?P<base>.*?)\[(?P<params>.*)\]$\<close> on a stripped name: the base is lazy, so it ends at the
  first opening bracket; the parameters run to the closing bracket at the end.
\<close>

definition match_trailing_bracket :: "string \<Rightarrow> (string \<times> string) option" where
  "match_trailing_bracket s =
     (if LF \<notin> set s \<and> CHR ''['' \<in> set s \<and> s \<noteq> [] \<and> last s = CHR '']''
      then Some (takeWhile (\<lambda>c. c \<noteq> CHR ''['') s,
                 butlast (tl (dropWhile (\<lambda>c. c \<noteq> CHR ''['') s)))
      else None)"

definition split_parameters :: "string \<Rightarrow> string \<times> string" where
  "split_parameters name =
     (case match_trailing_bracket (strip name) of
        None \<Rightarrow> (strip name, [])
      | Some (base0, params0) \<Rightarrow>
          let base = strip base0; params = strip params0
          in if base = [] then (strip name, []) else (base, params))"

fun strip_dot_slash :: "string \<Rightarrow> string" where
  "strip_dot_slash (a # b # rest) =
     (if a = CHR ''.'' \<and> b = CHR ''/'' then strip_dot_slash rest else a # b # rest)"
| "strip_dot_slash s = s"

definition normalize_file_path :: "string \<Rightarrow> string" where
  "normalize_file_path path =
     strip_by (\<lambda>c. c = CHR ''/'')
       (strip_dot_slash (replace_char (CHR 0x5C) (CHR ''/'') (strip path)))"

definition is_upper_ascii :: "char \<Rightarrow> bool" where
  "is_upper_ascii c \<longleftrightarrow> 65 \<le> code c \<and> code c \<le> 90"

definition is_word_ascii :: "char \<Rightarrow> bool" where
  "is_word_ascii c \<longleftrightarrow>
     is_upper_ascii c \<or> (97 \<le> code c \<and> code c \<le> 122) \<or> is_digit c \<or> c = CHR ''_''"

text \<open>\<open>^[A-Z][A-Za-z0-9_]*$\<close>.\<close>

definition class_segment :: "string \<Rightarrow> bool" where
  "class_segment s =
     (let body = (if s \<noteq> [] \<and> last s = LF then butlast s else s) in
      case body of [] \<Rightarrow> False | c # cs \<Rightarrow> is_upper_ascii c \<and> list_all is_word_ascii cs)"

definition SOURCE_SUFFIXES :: "string list" where
  "SOURCE_SUFFIXES =
     [''.py'', ''.js'', ''.jsx'', ''.ts'', ''.tsx'', ''.java'', ''.kt'', ''.go'', ''.rb'']"

definition clean_classname :: "string \<Rightarrow> string" where
  "clean_classname classname = strip_by (\<lambda>c. c = CHR ''.'') (strip classname)"

definition normalize_dotted :: "string \<Rightarrow> string" where
  "normalize_dotted classname =
     (let cleaned = clean_classname classname in
      if cleaned = [] then []
      else if CHR ''/'' \<in> set cleaned \<or> list_ex (endswith cleaned) SOURCE_SUFFIXES
      then normalize_file_path cleaned
      else
        let segments = split_on (CHR ''.'') cleaned in
        if 1 < length segments \<and> class_segment (last segments)
        then join ''/'' (butlast segments) @ ''::'' @ last segments
        else join ''/'' segments)"

text \<open>\<open>re.split(r"[./]", s)\<close>: a slash separates as a dot does.\<close>

definition class_qualifier :: "string \<Rightarrow> string" where
  "class_qualifier classname =
     (let cleaned = clean_classname classname in
      if cleaned = [] then []
      else
        let tail = last (split_on (CHR ''.'') (replace_char (CHR ''/'') (CHR ''.'') cleaned))
        in if class_segment tail then tail else [])"

definition normalize_suite_path :: "string \<Rightarrow> string \<Rightarrow> string option \<Rightarrow> string" where
  "normalize_suite_path classname suite_path file_path =
     (case file_path of
        Some (c # cs) \<Rightarrow>
          let base = normalize_file_path (c # cs); qualifier = class_qualifier classname
          in if qualifier \<noteq> [] then base @ ''::'' @ qualifier else base
      | _ \<Rightarrow> if classname \<noteq> [] then normalize_dotted classname else normalize_file_path suite_path)"

definition US :: char where
  "US = CHR 0x1F"

definition FINGERPRINT_LENGTH :: nat where
  "FINGERPRINT_LENGTH = 16"

definition payload :: "string \<Rightarrow> string \<Rightarrow> string \<Rightarrow> string" where
  "payload suite_path test_name parameters = join [US] [suite_path, test_name, parameters]"

definition fingerprint :: "(string \<Rightarrow> string) \<Rightarrow> string \<Rightarrow> string \<Rightarrow> string \<Rightarrow> string" where
  "fingerprint sha suite_path test_name parameters =
     take FINGERPRINT_LENGTH (sha (payload suite_path test_name parameters))"

definition identity_for :: "(string \<Rightarrow> string) \<Rightarrow> test_case_result \<Rightarrow> test_identity" where
  "identity_for sha c =
     (let (test_name, parameters) = split_parameters (tc_name c);
          suite_path = normalize_suite_path (tc_classname c) (tc_suite_path c) (tc_file_path c)
      in \<lparr>ti_fingerprint = fingerprint sha suite_path test_name parameters,
          ti_suite_path = suite_path, ti_test_name = test_name, ti_parameters = parameters,
          ti_file_path = (case tc_file_path c of Some (x # xs) \<Rightarrow> Some (normalize_file_path (x # xs))
                          | _ \<Rightarrow> None)\<rparr>)"

section \<open>Lemmas\<close>

lemma split_at_sep:
  assumes "xs @ c # ys = us @ c # vs" and "c \<notin> set xs" and "c \<notin> set us"
  shows "xs = us \<and> ys = vs"
  using assms
proof (induction xs arbitrary: us)
  case Nil
  then show ?case by (cases us) auto
next
  case (Cons x xs)
  then show ?case by (cases us) auto
qed

lemma payload_inj:
  assumes "payload a b c = payload a' b' c'"
    and "US \<notin> set a \<union> set b" and "US \<notin> set a' \<union> set b'"
  shows "a = a' \<and> b = b' \<and> c = c'"
proof -
  from assms have "a @ US # (b @ US # c) = a' @ US # (b' @ US # c')"
    by (simp add: payload_def)
  then have "a = a'" "b @ US # c = b' @ US # c'"
    using split_at_sep [of a US "b @ US # c" a' "b' @ US # c'"] assms by auto
  moreover from this(2) have "b = b' \<and> c = c'"
    using split_at_sep [of b US c b' c'] assms by auto
  ultimately show ?thesis by blast
qed

lemma takeWhile_bracket: "c \<notin> set b \<Longrightarrow> takeWhile (\<lambda>x. x \<noteq> c) (b @ c # r) = b"
  by (induction b) auto

lemma dropWhile_bracket: "c \<notin> set b \<Longrightarrow> dropWhile (\<lambda>x. x \<noteq> c) (b @ c # r) = c # r"
  by (induction b) auto

text \<open>
  A parameterised test name splits into its base and its parameter list and the display name
  puts them back together: for a base without an opening bracket and parameters, both without
  surrounding whitespace or line feeds, \<open>base[params]\<close> is read as that pair even when
  the parameters contain brackets of their own.
\<close>

theorem split_parameters_roundtrip:
  assumes "base \<noteq> []" "\<not> is_space (hd base)" "\<not> is_space (last base)" "CHR ''['' \<notin> set base"
    and "params \<noteq> [] \<Longrightarrow> \<not> is_space (hd params) \<and> \<not> is_space (last params)"
    and "LF \<notin> set base \<union> set params"
  shows "split_parameters (base @ ''['' @ params @ '']'') = (base, params)"
proof -
  let ?s = "base @ ''['' @ params @ '']''"
  have "strip ?s = ?s"
    by (rule strip_id) (use assms in \<open>auto simp: is_space_def\<close>)
  moreover have "match_trailing_bracket ?s = Some (base, params)"
    using assms by (simp add: match_trailing_bracket_def takeWhile_bracket dropWhile_bracket)
  moreover have "strip base = base" "strip params = params"
    using assms by (auto intro: strip_id) (cases "params = []"; simp add: strip_id)
  ultimately show ?thesis
    using assms by (simp add: split_parameters_def)
qed

theorem split_parameters_roundtrip_witness:
  "split_parameters ''test_x[a[0]=1]'' = (''test_x'', ''a[0]=1'')"
  using split_parameters_roundtrip [of "''test_x''" "''a[0]=1''"] by (simp add: is_space_def)

text \<open>
  C32. Fingerprints separate logical tests: if the truncated digest does not collide on the
  payloads at hand, two cases whose suite path and test name are free of the separator
  \<open>0x1F\<close> have the same fingerprint only when suite path, test name and parameters all
  agree. Moving a character across a field boundary therefore always changes the key.
\<close>

theorem fingerprint_separates:
  assumes "inj_on (\<lambda>p. take FINGERPRINT_LENGTH (sha p)) P"
    and "payload a b c \<in> P" and "payload a' b' c' \<in> P"
    and "US \<notin> set a \<union> set b" and "US \<notin> set a' \<union> set b'"
    and "fingerprint sha a b c = fingerprint sha a' b' c'"
  shows "a = a' \<and> b = b' \<and> c = c'"
proof -
  have "payload a b c = payload a' b' c'"
    using assms(1-3,6) by (auto simp: fingerprint_def inj_on_def)
  then show ?thesis using assms(4,5) by (rule payload_inj)
qed

theorem fingerprint_separates_witness:
  "fingerprint rev ''s'' ''ab'' ''c'' \<noteq> fingerprint rev ''s'' ''a'' ''bc''"
proof
  assume eq: "fingerprint rev ''s'' ''ab'' ''c'' = fingerprint rev ''s'' ''a'' ''bc''"
  have "''s'' = ''s'' \<and> ''ab'' = ''a'' \<and> ''c'' = ''bc''"
    by (rule fingerprint_separates
        [where sha = rev and P = "{payload ''s'' ''ab'' ''c'', payload ''s'' ''a'' ''bc''}"])
      (use eq in \<open>auto simp: inj_on_def payload_def US_def FINGERPRINT_LENGTH_def\<close>)
  then show False by simp
qed

lemma strip_dot_slash_suffix: "suffix (strip_dot_slash s) s"
proof (induction s rule: strip_dot_slash.induct)
  case (1 a b rest)
  have "suffix rest (a # b # rest)" by (rule suffixI [of _ "[a, b]"]) simp
  with 1 show ?case by (auto intro: suffix_order.trans)
qed auto

text \<open>
  Suite paths are canonical: whatever the reporter emitted, a path derived from a file or a
  suite name has no backslash and neither starts nor ends with a slash, and a leading
  \<open>./\<close> or a Windows separator does not change it.
\<close>

theorem normalize_file_path_canonical:
  "let p = normalize_file_path path in
     CHR 0x5C \<notin> set p \<and> (p = [] \<or> hd p \<noteq> CHR ''/'' \<and> last p \<noteq> CHR ''/'') \<and>
     normalize_file_path (replace_char (CHR 0x5C) (CHR ''/'') (strip path)) = p"
proof -
  have "set (strip_dot_slash s) \<subseteq> set s" for s
    using strip_dot_slash_suffix by (rule set_mono_suffix)
  moreover have "CHR 0x5C \<notin> set (replace_char (CHR 0x5C) (CHR ''/'') s)" for s
    by (auto simp: replace_char_def)
  ultimately have "CHR 0x5C \<notin> set (normalize_file_path path)"
    unfolding normalize_file_path_def using set_strip_by by blast
  moreover have "strip (replace_char (CHR 0x5C) (CHR ''/'') (strip path)) =
      replace_char (CHR 0x5C) (CHR ''/'') (strip path)"
  proof (cases "strip path = []")
    case True
    then show ?thesis by (simp only: replace_char_def list.map strip_Nil)
  next
    case False
    then have "\<not> is_space (hd (strip path))" "\<not> is_space (last (strip path))"
      using strip_ends [of path] by auto
    with False show ?thesis
      by (intro strip_id) (auto simp: replace_char_def hd_map last_map is_space_def)
  qed
  moreover have "replace_char (CHR 0x5C) (CHR ''/'') (replace_char (CHR 0x5C) (CHR ''/'') s) =
      replace_char (CHR 0x5C) (CHR ''/'') s" for s
    by (simp add: replace_char_def)
  ultimately show ?thesis
    unfolding Let_def
    using strip_by_ends [of "\<lambda>c. c = CHR ''/''"] by (auto simp: normalize_file_path_def)
qed

end
