(* ===== verification/Footprint.thy ===== *)
theory Footprint
  imports Regex Fingerprint
begin

text \<open>
  Source files a failure touched (\<open>detect/footprint.py\<close>): path tokens of a trace, less those of
  frameworks and runtimes, and the comparison with the paths of a diff.
\<close>

section \<open>The program\<close>

text \<open>\<open>\w\<close> on Latin-1 text: letters, digits, the numeric signs and the underscore.\<close>

definition is_word :: "char \<Rightarrow> bool" where
  "is_word c \<longleftrightarrow>
     is_word_ascii c \<or> code c \<in> {0xAA, 0xB2, 0xB3, 0xB5, 0xB9, 0xBA, 0xBC, 0xBD, 0xBE} \<or>
     (0xC0 \<le> code c \<and> code c \<noteq> 0xD7 \<and> code c \<noteq> 0xF7)"

definition is_path_char :: "char \<Rightarrow> bool" where
  "is_path_char c \<longleftrightarrow> is_word c \<or> c = CHR ''.'' \<or> c = CHR ''-''"

definition PATH_EXTENSIONS :: "string list" where
  "PATH_EXTENSIONS =
     [''py'', ''pyi'', ''pyx'', ''js'', ''jsx'', ''mjs'', ''cjs'', ''ts'', ''tsx'', ''java'', ''kt'',
      ''kts'', ''go'', ''rb'', ''cs'', ''php'', ''scala'', ''rs'', ''swift'']"

definition PATH_TOKEN :: regex where
  "PATH_TOKEN =
     Seq (Greedy (Seq (plus (Cls is_path_char)) (Cls (\<lambda>c. c = CHR ''/'' \<or> c = CHR 0x5C))))
       (Seq (plus (Cls is_path_char)) (Seq (lit ''.'') (alts (map lit PATH_EXTENSIONS))))"

definition NOISE_MARKERS :: "string list" where
  "NOISE_MARKERS =
     [''site-packages/'', ''dist-packages/'', ''node_modules/'', ''/usr/lib/'', ''/usr/local/lib/'',
      ''_pytest/'', ''pluggy/'', ''unittest/case.py'', ''runpy.py'', ''asyncio/base_events.py'',
      ''jest-circus/'', ''jest-runtime/'', ''jest-each/'', ''internal/process/'',
      ''internal/modules/'', ''playwright-core/'', ''/gems/'', ''vendor/bundle/'']"

definition NOISE_LINE_MARKERS :: "string list" where
  "NOISE_LINE_MARKERS =
     [''java.base/'', ''java.util.'', ''java.lang.reflect'', ''java.lang.thread'', ''jdk.internal'',
      ''jdk.proxy'', ''sun.nio'', ''sun.reflect'', ''org.junit.'', ''org.gradle.'',
      ''org.apache.maven.surefire'', ''org.testng.'', ''kotlin.coroutines'']"

definition normalize :: "string \<Rightarrow> string" where
  "normalize path = strip_dot_slash (replace_char (CHR 0x5C) (CHR ''/'') (strip path))"

definition is_project_frame :: "string \<Rightarrow> bool" where
  "is_project_frame path =
     (let candidate = str_lower (normalize path) in
      if candidate = [] then False
      else if startswith candidate ''/''
      then \<not> list_ex (contains candidate) NOISE_MARKERS
      else \<not> list_ex (contains candidate) NOISE_MARKERS)"

definition is_noise_line :: "string \<Rightarrow> bool" where
  "is_noise_line line = list_ex (contains (str_lower line)) NOISE_LINE_MARKERS"

definition keep_candidate :: "bool \<Rightarrow> string \<Rightarrow> bool" where
  "keep_candidate project_only candidate \<longleftrightarrow>
     candidate \<noteq> [] \<and> (project_only \<longrightarrow> is_project_frame candidate)"

definition line_paths :: "bool \<Rightarrow> string \<Rightarrow> string list" where
  "line_paths project_only line =
     (if project_only \<and> is_noise_line line then []
      else filter (keep_candidate project_only) (map normalize (find_all PATH_TOKEN line)))"

definition extract_paths :: "bool \<Rightarrow> string option \<Rightarrow> string list" where
  "extract_paths project_only trace =
     (case trace of
        None \<Rightarrow> []
      | Some t \<Rightarrow>
          if t = [] then [] else uniq (concat (map (line_paths project_only) (splitlines t))))"

definition footprint :: "string option \<Rightarrow> string option \<Rightarrow> string option \<Rightarrow> string set" where
  "footprint test_file stack_trace failure_message =
     (case test_file of None \<Rightarrow> {} | Some f \<Rightarrow> if f = [] then {} else {normalize f}) \<union>
     set (extract_paths True stack_trace) \<union> set (extract_paths True failure_message)"

definition paths_match :: "string \<Rightarrow> string \<Rightarrow> bool" where
  "paths_match changed known =
     (let changed_norm = normalize changed; known_norm = normalize known in
      changed_norm = known_norm \<or> endswith changed_norm (CHR ''/'' # known_norm) \<or>
      endswith known_norm (CHR ''/'' # changed_norm))"

definition diff_touches_footprint :: "string set \<Rightarrow> string set \<Rightarrow> bool" where
  "diff_touches_footprint diff_paths test_footprint =
     (\<exists>changed \<in> diff_paths. \<exists>known \<in> test_footprint. paths_match changed known)"

section \<open>Extraction\<close>

lemma strip_sublist: "sublist (strip s) s"
proof -
  have "sublist (rstrip_by p t) t" for p t
    unfolding rstrip_by_def using suffix_imp_sublist [OF suffix_dropWhile, of p "rev t"]
    by (metis rev_rev_ident sublist_rev_left)
  moreover have "sublist (lstrip_by p t) t" for p t
    unfolding lstrip_by_def using suffix_dropWhile by (rule suffix_imp_sublist)
  ultimately show ?thesis
    unfolding strip_def strip_by_def using sublist_order.order_trans by blast
qed

text \<open>
  Every path taken from a trace for the footprint is a normalised token of one of its lines
  that ends in a source extension; the line is not a framework or runtime line, the path is not
  inside a dependency, and no path is listed twice.
\<close>

theorem extract_paths_sound:
  "distinct (extract_paths True trace) \<and>
   set (extract_paths True trace) \<subseteq>
     {normalize token | token line. (\<exists>t. trace = Some t \<and> line \<in> set (splitlines t)) \<and>
        \<not> is_noise_line line \<and> sublist token line \<and> token \<in> lang PATH_TOKEN \<and>
        normalize token \<noteq> [] \<and> is_project_frame (normalize token)}"
proof (cases trace)
  case (Some t)
  have "p \<in> {normalize token | token line. line \<in> set (splitlines t) \<and>
        \<not> is_noise_line line \<and> sublist token line \<and> token \<in> lang PATH_TOKEN \<and>
        normalize token \<noteq> [] \<and> is_project_frame (normalize token)}"
    if "line \<in> set (splitlines t)" "p \<in> set (line_paths True line)" for p line
    using that find_all_sound [of _ PATH_TOKEN line]
    by (auto simp: line_paths_def keep_candidate_def split: if_splits)
  then show ?thesis
    using Some by (auto simp: extract_paths_def)
qed (simp add: extract_paths_def)

section \<open>Comparing paths\<close>

lemma split_on_append: "split_on c (xs @ c # ys) = split_on c xs @ split_on c ys"
proof (induction xs)
  case (Cons x xs)
  show ?case
  proof (cases "x = c")
    case False
    obtain z zs where "split_on c xs = z # zs"
      using split_on_nonempty by (metis list.exhaust)
    with Cons False show ?thesis by simp
  qed (use Cons in simp)
qed simp

lemma join_append: "us \<noteq> [] \<Longrightarrow> vs \<noteq> [] \<Longrightarrow> join [c] (us @ vs) = join [c] us @ c # join [c] vs"
proof (induction us)
  case (Cons u us)
  show ?case
  proof (cases us)
    case Nil
    then show ?thesis using Cons.prems by (cases vs) auto
  next
    case (Cons w ws)
    then show ?thesis using Cons.IH Cons.prems by simp
  qed
qed simp

lemma suffix_split:
  "suffix (c # ys) xs \<longleftrightarrow> strict_suffix (split_on c ys) (split_on c xs)"
proof
  assume "suffix (c # ys) xs"
  then obtain zs where "xs = zs @ c # ys" by (auto simp: suffix_def)
  then show "strict_suffix (split_on c ys) (split_on c xs)"
    by (simp add: split_on_append strict_suffix_def suffix_def)
next
  assume "strict_suffix (split_on c ys) (split_on c xs)"
  then obtain us where us: "split_on c xs = us @ split_on c ys" "us \<noteq> []"
    by (auto simp: strict_suffix_def suffix_def)
  then have "xs = join [c] us @ c # ys"
    using join_split_on [of c xs] join_append [of us "split_on c ys" c] by simp
  then show "suffix (c # ys) xs" by (auto simp: suffix_def)
qed

lemma split_on_inj: "split_on c xs = split_on c ys \<longleftrightarrow> xs = ys"
  by (metis join_split_on)

definition components :: "string \<Rightarrow> string list" where
  "components path = split_on (CHR ''/'') (normalize path)"

text \<open>
  Two paths are taken for the same file exactly when, component by component, one is a suffix
  of the other: a bare \<open>service.py\<close> meets \<open>src/service.py\<close>, but
  \<open>my_service.py\<close> does not. A diff touches a footprint exactly when some pair of
  their paths is related in this way, and the order of the two sets does not matter.
\<close>

theorem diff_touches_by_components:
  "(diff_touches_footprint diff_paths test_footprint \<longleftrightarrow>
     (\<exists>p \<in> diff_paths. \<exists>q \<in> test_footprint.
        suffix (components p) (components q) \<or> suffix (components q) (components p))) \<and>
   diff_touches_footprint diff_paths test_footprint = diff_touches_footprint test_footprint diff_paths"
proof -
  have "paths_match p q \<longleftrightarrow> suffix (components p) (components q) \<or> suffix (components q) (components p)"
    for p q
    by (auto simp: paths_match_def components_def endswith_def suffix_split Let_def split_on_inj
        strict_suffix_def)
  then show ?thesis unfolding diff_touches_footprint_def by blast
qed

end
