(* ===== verification/Store_Facts.thy ===== *)
theory Store_Facts
  imports Store
begin

text \<open>
  What the run store guarantees: its integrity invariant and its preservation by every write,
  idempotent ingestion, alias edges that only gain confidence, groups as connected components of
  the alias graph, and a bounded history read that is a prefix of the full one.
\<close>

section \<open>Integrity\<close>

definition db_inv :: "db \<Rightarrow> bool" where
  "db_inv d \<longleftrightarrow>
     distinct (map rr_id (runs d)) \<and> distinct (map run_key (runs d)) \<and>
     distinct (map ir_id (test_identities d)) \<and> distinct (map ir_fingerprint (test_identities d)) \<and>
     distinct (map (\<lambda>r. (al_old r, al_new r)) (identity_aliases d)) \<and>
     set (ends (identity_aliases d)) \<subseteq> ir_id ` set (test_identities d) \<and>
     distinct (map ex_id (executions d)) \<and> distinct (map execution_key (executions d)) \<and>
     ex_run_pk ` set (executions d) \<subseteq> rr_id ` set (runs d) \<and>
     ex_identity_id ` set (executions d) \<subseteq> ir_id ` set (test_identities d) \<and>
     distinct (map df_id (diff_files d)) \<and>
     distinct (map (\<lambda>r. (df_run_pk r, df_path r)) (diff_files d)) \<and>
     df_run_pk ` set (diff_files d) \<subseteq> rr_id ` set (runs d) \<and>
     dh_diff_file_id ` set (diff_hunks d) \<subseteq> df_id ` set (diff_files d)"

lemma fold_max_ge:
  fixes x :: "'a::linorder"
  shows "x \<in> set xs \<Longrightarrow> x \<le> fold max xs y" and "y \<le> fold max xs y"
proof (induction xs arbitrary: y)
  case (Cons z zs)
  { case 1
    then show ?case using Cons.IH(1) [of "max z y"] Cons.IH(2) [of "max z y"] by auto }
  { case 2
    show ?case using Cons.IH(2) [of "max z y"] by simp }
qed simp_all

lemma next_id_fresh: "next_id f rows \<notin> f ` set rows"
proof
  assume "next_id f rows \<in> f ` set rows"
  then have "next_id f rows \<le> fold max (map f rows) 0"
    by (intro fold_max_ge(1)) auto
  then show False by (simp add: next_id_def)
qed

lemma db_inv_empty: "db_inv empty_db"
  by (simp add: db_inv_def empty_db_def ends_def)

lemma record_run_inv: "db_inv d \<Longrightarrow> db_inv (snd (record_run now m d))"
  using next_id_fresh [of rr_id "runs d"]
  by (auto simp: record_run_def db_inv_def Let_def run_key_def metadata_key_def)

lemma upsert_identity_inv:
  assumes "db_inv d"
  shows "db_inv (snd (upsert_identity now i d))"
proof (cases "List.find (\<lambda>r. ir_fingerprint r = ti_fingerprint i) (test_identities d)")
  case None
  then have "ti_fingerprint i \<notin> ir_fingerprint ` set (test_identities d)"
    by (auto simp: find_None_iff)
  with None assms next_id_fresh [of ir_id "test_identities d"] show ?thesis
    by (auto simp: upsert_identity_def db_inv_def Let_def)
next
  case (Some existing)
  let ?f = "\<lambda>r. if ir_id r = ir_id existing
     then r\<lparr>ir_last_seen := now,
            ir_file_path := (case ti_file_path i of None \<Rightarrow> ir_file_path r | Some p \<Rightarrow> Some p)\<rparr>
     else r"
  have d': "snd (upsert_identity now i d) = d\<lparr>test_identities := map ?f (test_identities d)\<rparr>"
    using Some by (simp add: upsert_identity_def)
  have "map ir_id (map ?f rows) = map ir_id rows"
    and "map ir_fingerprint (map ?f rows) = map ir_fingerprint rows"
    and "ir_id ` set (map ?f rows) = ir_id ` set rows" for rows :: "identity_row list"
    by (induction rows) auto
  with assms show ?thesis by (simp add: d' db_inv_def del: map_map set_map)
qed

lemma insert_executions_inv:
  "insert_executions now pk rows d n = Inr (k, d') \<Longrightarrow> db_inv d \<Longrightarrow> db_inv d'"
proof (induction now pk rows d n rule: insert_executions.induct)
  case (2 now pk i c rows d n)
  have "db_inv (d\<lparr>executions := executions d @
      [execution_row_of now pk i c (next_id ex_id (executions d))]\<rparr>)"
    if "(pk, i) \<notin> execution_key ` set (executions d)" "run_exists d pk" "identity_exists d i"
    using that "2.prems"(2) next_id_fresh [of ex_id "executions d"]
    by (auto simp: db_inv_def execution_row_of_def execution_key_def run_exists_def
        identity_exists_def)
  with 2 show ?case by (auto split: if_splits)
qed simp

lemma hunk_rows_file: "dh_diff_file_id ` set (hunk_rows k f rs) \<subseteq> {f}"
  by (induction k f rs rule: hunk_rows.induct) auto

lemma insert_diff_inv:
  "insert_diff pk cs d = Inr d' \<Longrightarrow> db_inv d \<Longrightarrow> db_inv d'"
proof (induction pk cs d rule: insert_diff.induct)
  case (2 pk c cs d)
  let ?f = "next_id df_id (diff_files d)"
  let ?d = "d\<lparr>diff_files := diff_files d @
               [\<lparr>df_id = ?f, df_run_pk = pk, df_path = fc_path c,
                 df_old_path = fc_old_path c, df_change_type = fc_change_type c,
                 df_binary = fc_binary c\<rparr>],
             diff_hunks := diff_hunks d @
               hunk_rows (next_id dh_id (diff_hunks d)) ?f
                 (map (Pair NewSide) (fc_new_ranges c) @ map (Pair OldSide) (fc_old_ranges c))\<rparr>"
  have "db_inv ?d"
    if "(pk, fc_path c) \<notin> (\<lambda>r. (df_run_pk r, df_path r)) ` set (diff_files d)" "run_exists d pk"
    using that "2.prems"(2) next_id_fresh [of df_id "diff_files d"] hunk_rows_file
    by (fastforce simp: db_inv_def run_exists_def image_subset_iff)
  with 2 show ?case by (auto simp: Let_def split: if_splits)
qed simp

lemma record_alias_inv:
  assumes "record_alias now a b s c pk d = Inr (k, d')" and "db_inv d"
  shows "db_inv d'"
proof (cases "(a, b) \<in> (\<lambda>r. (al_old r, al_new r)) ` set (identity_aliases d)")
  case True
  let ?f = "\<lambda>r. if (al_old r, al_new r) = (a, b)
     then r\<lparr>al_certain := al_certain r \<or> c, al_similarity := max (al_similarity r) s\<rparr> else r"
  have d': "d' = d\<lparr>identity_aliases := map ?f (identity_aliases d)\<rparr>"
    using True assms(1) by (simp add: record_alias_def)
  have "map (\<lambda>r. (al_old r, al_new r)) (map ?f rows) = map (\<lambda>r. (al_old r, al_new r)) rows"
    and "ends (map ?f rows) = ends rows" for rows
    by (induction rows) (simp_all add: ends_def)
  with assms(2) show ?thesis by (simp add: d' db_inv_def del: map_map)
next
  case False
  with assms(1) have ok: "identity_exists d a" "identity_exists d b"
    and d': "d' = d\<lparr>identity_aliases := identity_aliases d @
      [\<lparr>al_id = next_id al_id (identity_aliases d), al_old = a, al_new = b, al_similarity = s,
        al_certain = c, al_observed_run_id = pk, al_created_at = now\<rparr>]\<rparr>"
    by (auto simp: record_alias_def split: if_splits)
  have "ends (rows @ [r]) = ends rows @ [al_old r, al_new r]" for rows r
    by (simp add: ends_def)
  with False ok assms(2) show ?thesis
    by (simp add: d' db_inv_def identity_exists_def)
qed

lemma record_warnings_result:
  "record_warnings now pk ws d = Inr (k, d') \<Longrightarrow>
   d' = d\<lparr>parse_warnings := parse_warnings d @
     warning_rows (next_id wr_id (parse_warnings d)) pk now ws\<rparr> \<and> k = length ws"
  by (auto simp: record_warnings_def split: if_splits)

lemma record_warnings_inv: "record_warnings now pk ws d = Inr (k, d') \<Longrightarrow> db_inv d \<Longrightarrow> db_inv d'"
  by (drule record_warnings_result) (simp add: db_inv_def)

lemma record_executions_inv:
  "record_executions now pk rows d = Inr (k, d') \<Longrightarrow> db_inv d \<Longrightarrow> db_inv d'"
  by (auto simp: record_executions_def split: sum.splits dest: insert_executions_inv)

lemma record_diff_inv: "record_diff pk diff d = Inr (k, d') \<Longrightarrow> db_inv d \<Longrightarrow> db_inv d'"
  by (auto simp: record_diff_def split: sum.splits dest: insert_diff_inv)

text \<open>A database the program can produce: the empty one, changed by repository writes.\<close>

inductive db_reachable :: "db \<Rightarrow> bool" where
  empty: "db_reachable empty_db"
| run_row: "db_reachable d \<Longrightarrow> record_run now m d = (k, d') \<Longrightarrow> db_reachable d'"
| identity_row: "db_reachable d \<Longrightarrow> upsert_identity now i d = (k, d') \<Longrightarrow> db_reachable d'"
| execution_rows: "db_reachable d \<Longrightarrow> record_executions now pk rows d = Inr (k, d') \<Longrightarrow> db_reachable d'"
| diff_rows: "db_reachable d \<Longrightarrow> record_diff pk diff d = Inr (k, d') \<Longrightarrow> db_reachable d'"
| alias_edge: "db_reachable d \<Longrightarrow> record_alias now a b s c opk d = Inr (k, d') \<Longrightarrow> db_reachable d'"
| warning_rows: "db_reachable d \<Longrightarrow> record_warnings now opk ws d = Inr (k, d') \<Longrightarrow> db_reachable d'"

lemmas write_invs =
  record_executions_inv record_diff_inv record_alias_inv record_warnings_inv

lemma reachable_db_inv: "db_reachable d \<Longrightarrow> db_inv d"
proof (induction rule: db_reachable.induct)
  case empty
  show ?case by (rule db_inv_empty)
next
  case (run_row d now m k d')
  then show ?case using record_run_inv [of d now m] by simp
next
  case (identity_row d now i k d')
  then show ?case using upsert_identity_inv [of d now i] by simp
qed (auto dest: write_invs)

text \<open>A small reachable database: two failing attempts of one test under two names, linked.\<close>

definition sample_run :: "int \<Rightarrow> run_metadata" where
  "sample_run k = \<lparr>md_commit_sha = ''abc'', md_run_id = ''r1'', md_attempt = k,
     md_branch = Some ''main'', md_shard_id = None, md_worker_id = None,
     md_started_at = ''2024-01-0'' @ show_int k\<rparr>"

definition sample_case :: "outcome \<Rightarrow> test_case_result" where
  "sample_case r = \<lparr>tc_name = ''t'', tc_classname = ''a.b'', tc_suite_path = ''a/b'',
     tc_file_path = None, tc_line = None, tc_duration_ms = Some 5, tc_outcome = r,
     tc_failure_type = None, tc_failure_message = None, tc_stack_trace = None, tc_stdout = None,
     tc_stderr = None, tc_rerun_observed = False, tc_source_file = None\<rparr>"

definition sample_identity :: "string \<Rightarrow> test_identity" where
  "sample_identity n = \<lparr>ti_fingerprint = n, ti_suite_path = ''a/b'', ti_test_name = n,
     ti_parameters = [], ti_file_path = None\<rparr>"

definition sample_base :: db where
  "sample_base =
     (let d1 = snd (record_run ''now'' (sample_run 1) empty_db);
          d2 = snd (record_run ''now'' (sample_run 2) d1);
          d3 = snd (upsert_identity ''now'' (sample_identity ''old'') d2)
      in snd (upsert_identity ''now'' (sample_identity ''new'') d3))"

definition sample_db :: db where
  "sample_db =
     (case record_executions ''now'' 1 [(1, sample_case FAIL)] sample_base of
        Inl _ \<Rightarrow> empty_db
      | Inr (_, d1) \<Rightarrow>
          (case record_executions ''now'' 2 [(2, sample_case PASS)] d1 of
             Inl _ \<Rightarrow> empty_db
           | Inr (_, d2) \<Rightarrow>
               (case record_alias ''now'' 1 2 (9 / 10) False (Some 2) d2 of
                  Inl _ \<Rightarrow> empty_db
                | Inr (_, d3) \<Rightarrow> d3)))"

lemma sample_db_reachable: "db_reachable sample_db"
proof -
  have "db_reachable (snd (record_run now m d))" if "db_reachable d" for now m d
    using that by (rule run_row) (rule prod.collapse [symmetric])
  moreover have "db_reachable (snd (upsert_identity now i d))" if "db_reachable d" for now i d
    using that by (rule identity_row) (rule prod.collapse [symmetric])
  ultimately have "db_reachable sample_base"
    by (simp add: sample_base_def Let_def db_reachable.empty)
  then show ?thesis
    unfolding sample_db_def
    by (auto split: sum.split prod.split intro: db_reachable.empty)
      (blast intro: execution_rows alias_edge)
qed



section \<open>Idempotent ingestion\<close>

lemma find_run_key:
  "metadata_key m \<in> run_key ` set rs \<Longrightarrow>
   \<exists>r. List.find (\<lambda>r. run_key r = metadata_key m) rs = Some r"
  by (induction rs) auto

lemma record_run_result:
  obtains pk where "fst (record_run now m d) = Some pk"
    and "run_exists (snd (record_run now m d)) pk"
    and "metadata_key m \<in> run_key ` set (runs (snd (record_run now m d)))"
proof -
  let ?d = "snd (record_run now m d)"
  have key: "metadata_key m \<in> run_key ` set (runs ?d)"
    by (auto simp: record_run_def Let_def run_key_def metadata_key_def)
  then obtain r where r: "List.find (\<lambda>r. run_key r = metadata_key m) (runs ?d) = Some r"
    using find_run_key by blast
  then have "fst (record_run now m d) = Some (rr_id r)"
    by (simp add: record_run_def Let_def)
  moreover have "run_exists ?d (rr_id r)"
    using r by (auto simp: run_exists_def find_Some_iff)
  ultimately show thesis using that key by blast
qed

lemma insert_executions_keys:
  "insert_executions now pk rows d n = Inr (k, d') \<Longrightarrow>
   Pair pk ` fst ` set rows \<union> execution_key ` set (executions d) \<subseteq>
     execution_key ` set (executions d')"
proof (induction now pk rows d n rule: insert_executions.induct)
  case (2 now pk i c rows d n)
  show ?case
  proof (cases "(pk, i) \<in> execution_key ` set (executions d)")
    case True
    with 2 show ?thesis by auto
  next
    case False
    then have ok: "run_exists d pk \<and> identity_exists d i"
      using "2.prems" by (auto split: if_splits)
    let ?row = "execution_row_of now pk i c (next_id ex_id (executions d))"
    have "Pair pk ` fst ` set rows \<union> execution_key ` set (executions d @ [?row]) \<subseteq>
        execution_key ` set (executions d')"
      using "2.IH"(2) [OF False ok] "2.prems" False ok by simp
    moreover have "execution_key ?row = (pk, i)"
      by (simp add: execution_row_of_def execution_key_def)
    ultimately show ?thesis by auto
  qed
qed simp

lemma insert_executions_present:
  "Pair pk ` fst ` set rows \<subseteq> execution_key ` set (executions d) \<Longrightarrow>
   insert_executions now pk rows d n = Inr (n, d)"
  by (induction rows arbitrary: n) auto

lemma insert_executions_prefix:
  "insert_executions now pk rows d n = Inr (k, d') \<Longrightarrow>
   \<exists>new. executions d' = executions d @ new \<and> k = n + length new \<and>
     d' = d\<lparr>executions := executions d'\<rparr> \<and> length new \<le> length rows"
proof (induction now pk rows d n rule: insert_executions.induct)
  case (2 now pk i c rows d n)
  show ?case
  proof (cases "(pk, i) \<in> execution_key ` set (executions d)")
    case True
    with 2 show ?thesis by fastforce
  next
    case False
    then have ok: "run_exists d pk \<and> identity_exists d i"
      using "2.prems" by (auto split: if_splits)
    let ?d = "d\<lparr>executions := executions d @
      [execution_row_of now pk i c (next_id ex_id (executions d))]\<rparr>"
    obtain new where "executions d' = executions ?d @ new" "k = n + 1 + length new"
      "d' = ?d\<lparr>executions := executions d'\<rparr>" "length new \<le> length rows"
      using "2.IH"(2) [OF False ok] "2.prems" False ok by auto
    then show ?thesis by auto
  qed
qed simp

text \<open>
  Re-ingesting is a no-op for observations: once the executions of a run have been recorded,
  recording the same cases again (at any later time) inserts nothing, reports every case as a
  skipped duplicate and leaves the database as it is; and recording a run whose (run id, attempt,
  shard) is present returns the existing key without touching the database.
\<close>

theorem reingest_is_noop:
  assumes "record_executions now pk rows d = Inr (k, d')"
  shows "record_executions now2 pk rows d' = Inr ((0, length rows), d') \<and>
    record_run now4 m (snd (record_run now3 m d')) = record_run now3 m d'"
proof
  obtain n where "insert_executions now pk rows d 0 = Inr (n, d')"
    using assms by (auto simp: record_executions_def split: sum.splits)
  then have "Pair pk ` fst ` set rows \<subseteq> execution_key ` set (executions d')"
    by (blast dest: insert_executions_keys)
  then show "record_executions now2 pk rows d' = Inr ((0, length rows), d')"
    by (simp add: record_executions_def insert_executions_present)
next
  obtain x where "metadata_key m \<in> run_key ` set (runs (snd (record_run now3 m d')))"
    by (rule record_run_result)
  then show "record_run now4 m (snd (record_run now3 m d')) = record_run now3 m d'"
    by (auto simp: record_run_def Let_def)
qed

theorem reingest_is_noop_witness:
  "\<exists>d'. record_executions ''t'' 1 [(2, sample_case PASS), (1, sample_case FAIL)] sample_db =
       Inr ((1, 1), d') \<and>
     record_executions ''u'' 1 [(2, sample_case PASS), (1, sample_case FAIL)] d' = Inr ((0, 2), d')"
proof -
  obtain d' where d': "record_executions ''t'' 1 [(2, sample_case PASS), (1, sample_case FAIL)]
      sample_db = Inr ((1, 1), d')"
  proof -
    have "(case record_executions ''t'' 1 [(2, sample_case PASS), (1, sample_case FAIL)] sample_db of
        Inr (k, d') \<Rightarrow> k = (1, 1) | Inl _ \<Rightarrow> False)"
      by code_simp
    then show thesis by (auto split: sum.splits intro: that)
  qed
  from reingest_is_noop [OF this] d' show ?thesis by auto
qed

section \<open>Alias edges\<close>

text \<open>
  Evidence for a merge only accumulates: recording an alias keeps every existing edge, an
  edge that was certain stays certain, no similarity score decreases, and the pair just recorded
  is present with at least the given certainty and similarity.
\<close>

theorem record_alias_monotone:
  assumes "record_alias now a b s c pk d = Inr (k, d')"
  shows "(\<forall>r \<in> set (identity_aliases d). \<exists>r' \<in> set (identity_aliases d').
       al_old r' = al_old r \<and> al_new r' = al_new r \<and>
       (al_certain r \<longrightarrow> al_certain r') \<and> al_similarity r \<le> al_similarity r') \<and>
    (\<exists>r' \<in> set (identity_aliases d'). al_old r' = a \<and> al_new r' = b \<and>
       (c \<longrightarrow> al_certain r') \<and> s \<le> al_similarity r')"
proof (cases "(a, b) \<in> (\<lambda>r. (al_old r, al_new r)) ` set (identity_aliases d)")
  case True
  let ?f = "\<lambda>r. if (al_old r, al_new r) = (a, b)
     then r\<lparr>al_certain := al_certain r \<or> c, al_similarity := max (al_similarity r) s\<rparr> else r"
  have d': "identity_aliases d' = map ?f (identity_aliases d)"
    using True assms by (auto simp: record_alias_def)
  have "\<exists>r' \<in> set (identity_aliases d'). al_old r' = al_old r \<and> al_new r' = al_new r \<and>
       (al_certain r \<longrightarrow> al_certain r') \<and> al_similarity r \<le> al_similarity r'"
    if "r \<in> set (identity_aliases d)" for r
    using that by (intro bexI [of _ "?f r"]) (auto simp: d')
  moreover obtain r where "r \<in> set (identity_aliases d)" "al_old r = a" "al_new r = b"
    using True by auto
  then have "\<exists>r' \<in> set (identity_aliases d'). al_old r' = a \<and> al_new r' = b \<and>
       (c \<longrightarrow> al_certain r') \<and> s \<le> al_similarity r'"
    by (intro bexI [of _ "?f r"]) (auto simp: d')
  ultimately show ?thesis by blast
next
  case False
  with assms show ?thesis
    by (fastforce simp: record_alias_def split: if_splits)
qed

theorem record_alias_monotone_witness:
  "\<exists>d'. record_alias ''t'' 1 2 (1 / 2) True None sample_db = Inr (True, d') \<and>
     (\<exists>r \<in> set (identity_aliases d'). al_old r = 1 \<and> al_new r = 2 \<and> al_certain r)"
proof -
  obtain d' where d': "record_alias ''t'' 1 2 (1 / 2) True None sample_db = Inr (True, d')"
  proof -
    have "(case record_alias ''t'' 1 2 (1 / 2) True None sample_db of
        Inr (k, d') \<Rightarrow> k | Inl _ \<Rightarrow> False)"
      by code_simp
    then show thesis by (auto split: sum.splits intro: that)
  qed
  from record_alias_monotone [OF this] d' show ?thesis by blast
qed

section \<open>Groups are connected components\<close>

definition alias_rel :: "alias_row list \<Rightarrow> (nat \<times> nat) set" where
  "alias_rel rows = {(i, j). \<exists>r \<in> set rows. {i, j} = {al_old r, al_new r}}"

lemma alias_rel_sym: "sym (alias_rel rows)"
  by (auto simp: sym_def alias_rel_def insert_commute)

lemma ends_touching: "set (ends (touching rows i)) \<subseteq> insert i (alias_rel rows `` {i})"
  "alias_rel rows `` {i} \<subseteq> set (ends (touching rows i))"
  by (auto simp: ends_def touching_def alias_rel_def doubleton_eq_iff)

definition group_inv :: "alias_row list \<Rightarrow> nat \<Rightarrow> nat list \<Rightarrow> nat list \<Rightarrow> bool \<Rightarrow> bool" where
  "group_inv rows i seen frontier uncertain \<longleftrightarrow>
     i \<in> set seen \<and> set seen \<subseteq> (alias_rel rows)\<^sup>* `` {i} \<and> set frontier \<subseteq> set seen \<and>
     distinct seen \<and> distinct frontier \<and>
     (\<forall>j \<in> set seen - set frontier. alias_rel rows `` {j} \<subseteq> set seen) \<and>
     (uncertain \<longleftrightarrow> (\<exists>r \<in> set rows. \<not> al_certain r \<and>
        {al_old r, al_new r} \<inter> (set seen - set frontier) \<noteq> {}))"

lemma group_inv_step:
  assumes inv: "group_inv rows i seen (current # frontier) uncertain"
    and visit: "fold visit (ends (touching rows current)) (seen, frontier) = (seen', frontier')"
  shows "group_inv rows i seen' frontier'
    (uncertain \<or> list_ex (\<lambda>r. \<not> al_certain r) (touching rows current))"
proof -
  obtain new where new: "seen' = new @ seen" "frontier' = new @ frontier" "distinct new"
    "set new \<inter> set seen = {}" "set new \<subseteq> set (ends (touching rows current))"
    using visit_frontier [of "ends (touching rows current)" seen frontier] visit by auto
  have all: "set seen' = set seen \<union> set (ends (touching rows current))"
    using visit_seen [of "ends (touching rows current)" seen frontier] visit by simp
  have cur: "current \<in> set seen" "current \<notin> set frontier"
    using inv by (auto simp: group_inv_def)
  then have "(i, current) \<in> (alias_rel rows)\<^sup>*"
    using inv by (auto simp: group_inv_def)
  then have "insert current (alias_rel rows `` {current}) \<subseteq> (alias_rel rows)\<^sup>* `` {i}"
    by (auto intro: rtrancl_into_rtrancl)
  then have reach: "set seen' \<subseteq> (alias_rel rows)\<^sup>* `` {i}"
    using inv ends_touching(1) [of rows current] unfolding all group_inv_def by blast
  have done': "set seen' - set frontier' = insert current (set seen - set (current # frontier))"
    using new(1,2,4) cur by auto
  have closed: "\<forall>j \<in> set seen' - set frontier'. alias_rel rows `` {j} \<subseteq> set seen'"
    unfolding done' using inv ends_touching(2) [of rows current]
    by (auto simp: all group_inv_def)
  have "list_ex (\<lambda>r. \<not> al_certain r) (touching rows current) \<longleftrightarrow>
      (\<exists>r \<in> set rows. \<not> al_certain r \<and> current \<in> {al_old r, al_new r})"
    by (auto simp: touching_def list_ex_iff)
  then have "uncertain \<or> list_ex (\<lambda>r. \<not> al_certain r) (touching rows current) \<longleftrightarrow>
      (\<exists>r \<in> set rows. \<not> al_certain r \<and> {al_old r, al_new r} \<inter> (set seen' - set frontier') \<noteq> {})"
    unfolding done' using inv by (auto simp: group_inv_def)
  with inv new reach closed show ?thesis
    unfolding group_inv_def by auto
qed

lemma group_loop_inv:
  "group_inv rows i seen frontier uncertain \<Longrightarrow>
   group_loop rows seen frontier uncertain = (seen', uncertain') \<Longrightarrow>
   group_inv rows i seen' [] uncertain'"
proof (induction rows seen frontier uncertain rule: group_loop.induct)
  case (2 rows seen current frontier uncertain)
  obtain s f where v: "fold visit (ends (touching rows current)) (seen, frontier) = (s, f)"
    by (cases "fold visit (ends (touching rows current)) (seen, frontier)")
  have "group_inv rows i s f (uncertain \<or> list_ex (\<lambda>r. \<not> al_certain r) (touching rows current))"
    using "2.prems"(1) v by (rule group_inv_step)
  then show ?case
    using "2.IH" [OF refl v [symmetric] refl] "2.prems"(2) v by (simp add: Let_def)
qed simp

lemma group_inv_final:
  assumes "group_inv rows i seen [] uncertain"
  shows "set seen = (alias_rel rows)\<^sup>* `` {i}"
    and "uncertain \<longleftrightarrow> (\<exists>r \<in> set rows. \<not> al_certain r \<and> (i, al_old r) \<in> (alias_rel rows)\<^sup>*)"
proof -
  have "alias_rel rows `` set seen \<subseteq> set seen"
    using assms by (auto simp: group_inv_def)
  then have "(alias_rel rows)\<^sup>* `` set seen \<subseteq> set seen"
    by (metis Image_closed_trancl order_refl)
  then show seen: "set seen = (alias_rel rows)\<^sup>* `` {i}"
    using assms by (auto simp: group_inv_def)
  have "(i, al_new r) \<in> (alias_rel rows)\<^sup>* \<longleftrightarrow> (i, al_old r) \<in> (alias_rel rows)\<^sup>*"
    if "r \<in> set rows" for r
  proof -
    have "(al_old r, al_new r) \<in> alias_rel rows" "(al_new r, al_old r) \<in> alias_rel rows"
      using that by (auto simp: alias_rel_def)
    then show ?thesis by (meson rtrancl_into_rtrancl)
  qed
  then show "uncertain \<longleftrightarrow> (\<exists>r \<in> set rows. \<not> al_certain r \<and> (i, al_old r) \<in> (alias_rel rows)\<^sup>*)"
    using assms seen unfolding group_inv_def by auto
qed

lemma identity_group_component:
  "set (ig_identity_ids (identity_group d i)) = (alias_rel (identity_aliases d))\<^sup>* `` {i}"
  "distinct (ig_identity_ids (identity_group d i))" "sorted (ig_identity_ids (identity_group d i))"
  "ig_merged_uncertain (identity_group d i) \<longleftrightarrow>
     (\<exists>r \<in> set (identity_aliases d).
        \<not> al_certain r \<and> (i, al_old r) \<in> (alias_rel (identity_aliases d))\<^sup>*)"
proof -
  obtain seen u where loop: "group_loop (identity_aliases d) [i] [i] False = (seen, u)"
    by (cases "group_loop (identity_aliases d) [i] [i] False")
  have "group_inv (identity_aliases d) i [i] [i] False"
    by (simp add: group_inv_def)
  then have inv: "group_inv (identity_aliases d) i seen [] u"
    using loop by (rule group_loop_inv)
  then show "set (ig_identity_ids (identity_group d i)) = (alias_rel (identity_aliases d))\<^sup>* `` {i}"
    using loop group_inv_final(1) by (simp add: identity_group_def)
  show "distinct (ig_identity_ids (identity_group d i))"
    using inv loop by (simp add: identity_group_def group_inv_def)
  show "sorted (ig_identity_ids (identity_group d i))"
    using loop by (simp add: identity_group_def)
  show "ig_merged_uncertain (identity_group d i) \<longleftrightarrow>
     (\<exists>r \<in> set (identity_aliases d).
        \<not> al_certain r \<and> (i, al_old r) \<in> (alias_rel (identity_aliases d))\<^sup>*)"
    using inv loop group_inv_final(2) by (simp add: identity_group_def)
qed

lemma identity_group_eq:
  assumes "j \<in> set (ig_identity_ids (identity_group d i))"
  shows "identity_group d j = identity_group d i"
proof -
  let ?R = "(alias_rel (identity_aliases d))\<^sup>*"
  have ij: "(i, j) \<in> ?R"
    using assms by (simp add: identity_group_component)
  moreover have "sym ?R" by (rule sym_rtrancl) (rule alias_rel_sym)
  ultimately have ji: "(j, i) \<in> ?R" by (rule symD [rotated])
  have same: "(i, x) \<in> ?R \<longleftrightarrow> (j, x) \<in> ?R" for x
    using ij ji by (meson rtrancl_trans)
  have "ig_identity_ids (identity_group d j) = ig_identity_ids (identity_group d i)"
    using identity_group_component(1-3) [of d i] identity_group_component(1-3) [of d j] same
    by (intro sorted_distinct_set_unique) auto
  moreover have "ig_merged_uncertain (identity_group d j) = ig_merged_uncertain (identity_group d i)"
    using same by (simp add: identity_group_component(4))
  ultimately show ?thesis by simp
qed

text \<open>
  C19. A logical test is a connected component of the alias graph: the traversal returns exactly
  the identities linked to the given one by alias edges in either direction, in increasing order
  and without repetition; it reports \<open>merged_uncertain\<close> exactly when some edge of the
  component was not certain; and every member of a group yields that same group.
\<close>

theorem identity_group_is_component:
  "set (ig_identity_ids (identity_group d i)) = (alias_rel (identity_aliases d))\<^sup>* `` {i} \<and>
   sorted (ig_identity_ids (identity_group d i)) \<and> distinct (ig_identity_ids (identity_group d i)) \<and>
   (ig_merged_uncertain (identity_group d i) \<longleftrightarrow>
     (\<exists>r \<in> set (identity_aliases d).
        \<not> al_certain r \<and> (i, al_old r) \<in> (alias_rel (identity_aliases d))\<^sup>*)) \<and>
   {j. identity_group d j = identity_group d i} = set (ig_identity_ids (identity_group d i))"
proof -
  have "j \<in> set (ig_identity_ids (identity_group d j))" for j
    by (simp add: identity_group_component)
  then have "{j. identity_group d j = identity_group d i} = set (ig_identity_ids (identity_group d i))"
    using identity_group_eq by (intro set_eqI iffI) (simp_all, metis)
  then show ?thesis using identity_group_component [of d i] by blast
qed

section \<open>Bounded history reads\<close>

lemma joined_execution_ids:
  assumes "db_inv d"
  shows "distinct (map (\<lambda>(e, r). ex_id e) (joined d))"
proof -
  have "map (\<lambda>(e, r). ex_id e) (List.map_filter (\<lambda>e. map_option (Pair e) (run_of d e)) es) =
      map ex_id (filter (\<lambda>e. run_of d e \<noteq> None) es)" for es
    by (induction es) (auto simp: List.map_filter_simps split: option.splits)
  then show ?thesis
    using assms by (simp add: joined_def db_inv_def distinct_map_filter)
qed

lemma distinct_parts:
  assumes "distinct js" and "distinct (map h xs)"
  shows "distinct (map h (concat (map (\<lambda>j. filter (\<lambda>x. k x = j) xs) js)))"
  using assms(1)
proof (induction js)
  case (Cons j js)
  have "h ` set (filter (\<lambda>x. k x = j) xs) \<inter>
      h ` set (concat (map (\<lambda>j. filter (\<lambda>x. k x = j) xs) js)) = {}"
    using assms(2) Cons.prems by (auto simp: distinct_map dest: inj_onD)
  then show ?case
    using Cons assms(2) by (simp add: distinct_map_filter)
qed simp

abbreviation rows_of :: "db \<Rightarrow> nat \<Rightarrow> execution_record list" where
  "rows_of d j \<equiv> map (\<lambda>(e, r). execution_record_of e r)
     (filter (\<lambda>(e, r). ex_identity_id e = j) (joined d))"

lemma group_rows_distinct:
  assumes "db_inv d" and "distinct js"
  shows "distinct (map recency (concat (map (rows_of d) js)))"
proof -
  have "map er_execution_id (concat (map (rows_of d) js)) =
      map (\<lambda>(e, r). ex_id e) (concat (map (\<lambda>j. filter (\<lambda>x. (\<lambda>(e, r). ex_identity_id e) x = j)
        (joined d)) js))"
    by (induction js) (auto simp: execution_record_of_def split_beta)
  then have "distinct (map er_execution_id (concat (map (rows_of d) js)))"
    using distinct_parts [OF assms(2) joined_execution_ids [OF assms(1)]] by simp
  then have "distinct (map (snd \<circ> recency) (concat (map (rows_of d) js)))"
    by (simp add: recency_def comp_def)
  then show ?thesis by (rule distinct_map_compI)
qed

lemma rows_for_group:
  "db_inv d \<Longrightarrow>
   executions_for_group d limit i =
     limited limit (sort_desc recency (concat (map (rows_of d) (ig_identity_ids (identity_group d i)))))"
proof (cases limit)
  case (Some n)
  assume "db_inv d"
  then have "distinct (map recency (concat (map (rows_of d) (ig_identity_ids (identity_group d i)))))"
    by (rule group_rows_distinct) (rule identity_group_component)
  then show ?thesis
    using Some take_sort_desc_parts
    by (simp add: executions_for_group_def executions_for_identity_def [abs_def] limited_def)
next
  case None
  assume "db_inv d"
  let ?js = "ig_identity_ids (identity_group d i)"
  have d: "distinct (map recency (concat (map (rows_of d) ?js)))"
    using \<open>db_inv d\<close> by (rule group_rows_distinct) (rule identity_group_component)
  have "mset (concat (map (\<lambda>j. sort_desc recency (rows_of d j)) ?js)) =
      mset (concat (map (rows_of d) ?js))" (is "mset ?B = mset ?A")
    by (rule mset_concat_sort_desc)
  moreover from this have "mset (map recency ?B) = mset (map recency ?A)"
    by (simp only: mset_map)
  ultimately have "distinct (map recency ?B)" and "set ?B = set ?A"
    using d by (blast dest: mset_eq_setD mset_eq_imp_distinct_iff)+
  then have "sort_desc recency (concat (map (\<lambda>j. sort_desc recency (rows_of d j)) ?js)) =
      sort_desc recency (concat (map (rows_of d) ?js))"
    using d by (intro sort_desc_unique) blast+
  then show ?thesis
    by (simp add: None executions_for_group_def executions_for_identity_def [abs_def] limited_def)
qed

lemma bounded_history_set:
  assumes "db_inv d"
  shows "set (executions_for_group d None i) =
    {execution_record_of e r | e r. (e, r) \<in> set (joined d) \<and>
       (i, ex_identity_id e) \<in> (alias_rel (identity_aliases d))\<^sup>*}"
proof -
  have "set (concat (map (rows_of d) (ig_identity_ids (identity_group d i)))) =
      {execution_record_of e r | e r. (e, r) \<in> set (joined d) \<and>
         ex_identity_id e \<in> set (ig_identity_ids (identity_group d i))}"
    by auto
  then show ?thesis
    unfolding rows_for_group [OF assms] limited_def
    by (simp add: identity_group_component(1))
qed

text \<open>
  C20. A bounded history is a prefix of the whole one: reading at most \<open>n\<close> executions
  of a group, which fetches at most \<open>n\<close> per identity, merges and truncates, returns
  exactly the \<open>n\<close> most recent executions of the logical test, each one at most once
  and newest first.
\<close>

theorem bounded_history_is_prefix:
  assumes "db_reachable d"
  shows "executions_for_group d (Some n) i = take n (executions_for_group d None i) \<and>
    sorted (rev (map recency (executions_for_group d None i))) \<and>
    distinct (map recency (executions_for_group d None i)) \<and>
    set (executions_for_group d None i) =
      {execution_record_of e r | e r. (e, r) \<in> set (joined d) \<and>
         (i, ex_identity_id e) \<in> (alias_rel (identity_aliases d))\<^sup>*}"
proof -
  have inv: "db_inv d" using assms by (rule reachable_db_inv)
  have "distinct (map recency (concat (map (rows_of d) (ig_identity_ids (identity_group d i)))))"
    using inv by (rule group_rows_distinct) (rule identity_group_component)
  then show ?thesis
    using bounded_history_set [OF inv, of i]
    by (simp add: rows_for_group [OF inv] limited_def sort_desc_ordered)
qed

theorem bounded_history_is_prefix_witness:
  "map er_outcome (executions_for_group sample_db (Some 1) 1) =
     take 1 (map er_outcome (executions_for_group sample_db None 1)) \<and>
   map er_outcome (executions_for_group sample_db None 1) = [PASS, FAIL]"
proof -
  have "map er_outcome (executions_for_group sample_db None 1) = [PASS, FAIL]" by code_simp
  with bounded_history_is_prefix [OF sample_db_reachable, of 1 1] show ?thesis
    by (metis take_map)
qed

end
