(* ===== verification/Detector.thy ===== *)
theory Detector
  imports Rates Footprint Store_Facts
begin

text \<open>
  The deterministic detector (\<open>detect/models.py\<close>, \<open>detect/detector.py\<close>): the four signals, the
  regression search, the precedence of the verdicts, and the run over all logical tests of the store.
\<close>

section \<open>The program\<close>

datatype flake_signal =
  SAME_SHA_DIVERGENCE | CROSS_ATTEMPT_DIVERGENCE | BRANCH_INDEPENDENT | HISTORICAL_INSTABILITY

datatype verdict = FLAKY | REGRESSION | NEW_FAILURE | PERSISTENT_FAILURE | HEALTHY

fun verdict_value :: "verdict \<Rightarrow> string" where
  "verdict_value FLAKY = ''flaky''"
| "verdict_value REGRESSION = ''regression''"
| "verdict_value NEW_FAILURE = ''new_failure''"
| "verdict_value PERSISTENT_FAILURE = ''persistent_failure''"
| "verdict_value HEALTHY = ''healthy''"

definition is_failure_state :: "verdict \<Rightarrow> bool" where
  "is_failure_state v \<longleftrightarrow> v \<noteq> HEALTHY"

datatype confidence = HIGH | MEDIUM | LOW

record signal_evidence =
  se_signal :: flake_signal
  se_detail :: string
  se_observations :: nat

record detection =
  d_identity :: test_identity
  d_identity_id :: nat
  d_verdict :: verdict
  d_confidence :: confidence
  d_signals :: "signal_evidence list"
  d_flake_rate :: pyfloat
  d_divergence_rate :: pyfloat
  d_intermittency_rate :: pyfloat
  d_retry_data_available :: bool
  d_observations :: nat
  d_windows :: nat
  d_infra_excluded :: nat
  d_latest_outcome :: "outcome option"
  d_latest_sha :: "string option"
  d_regression_sha :: "string option"
  d_failure_message :: "string option"
  d_failure_type :: "string option"
  d_stack_trace :: "string option"
  d_footprint :: "string list"
  d_failing_shards :: "string list"
  d_merged_uncertain :: bool

definition is_flaky :: "detection \<Rightarrow> bool" where
  "is_flaky d \<longleftrightarrow> d_verdict d = FLAKY"

definition needs_classification :: "detection \<Rightarrow> bool" where
  "needs_classification d \<longleftrightarrow> d_verdict d \<in> {FLAKY, PERSISTENT_FAILURE}"

definition priority :: "detection \<Rightarrow> pyfloat \<times> nat" where
  "priority d = (d_flake_rate d, d_observations d)"

record regression_finding =
  rf_pivot_sha :: string
  rf_pass_streak :: nat
  rf_fail_streak :: nat

definition find_same_sha_divergence :: "history \<Rightarrow> signal_evidence list" where
  "find_same_sha_divergence h =
     (let dv = filter diverged (h_windows h) in
      if dv = [] then []
      else
        let evidence =
              [\<lparr>se_signal = SAME_SHA_DIVERGENCE,
                se_detail = show_nat (length dv) @ '' commit(s) produced both a pass and a failure; '' @
                  ''most recent: '' @ take 12 (sw_commit_sha (last dv)),
                se_observations = sum_list (map sw_observations dv)\<rparr>];
            across_attempts = filter diverged_across_attempts dv
        in if across_attempts = [] then evidence
           else evidence @
             [\<lparr>se_signal = CROSS_ATTEMPT_DIVERGENCE,
               se_detail = ''outcome differed between attempts at '' @
                 take 12 (sw_commit_sha (last across_attempts)) @ '' (attempts '' @
                 join '', '' (map show_int (sw_attempts (last across_attempts))) @ '')'',
               se_observations = sum_list (map sw_observations across_attempts)\<rparr>])"

text \<open>The two loops of \<open>find_regression\<close> count a run of equal statuses from the end.\<close>

definition trailing :: "window_status \<Rightarrow> sha_window list \<Rightarrow> nat" where
  "trailing s ws = length (takeWhile (\<lambda>w. status w = s) (rev ws))"

definition find_regression :: "detect_config \<Rightarrow> history \<Rightarrow> regression_finding option" where
  "find_regression settings h =
     (let windows = filter (\<lambda>w. status w \<noteq> NO_DATA) (h_windows h) in
      if list_ex (\<lambda>w. status w = DIVERGED) windows then None
      else
        let trailing_failures = trailing FAILED windows in
        if trailing_failures < regression_fail_streak settings then None
        else
          let preceding = take (length windows - trailing_failures) windows;
              leading_passes = trailing PASSED preceding
          in if leading_passes < regression_pass_streak settings then None
             else Some \<lparr>rf_pivot_sha = sw_commit_sha (windows ! (length windows - trailing_failures)),
                        rf_pass_streak = leading_passes, rf_fail_streak = trailing_failures\<rparr>)"

definition find_branch_independent ::
  "detect_config \<Rightarrow> history \<Rightarrow> string set \<Rightarrow> string set \<Rightarrow> signal_evidence option" where
  "find_branch_independent settings h diff_paths test_footprint =
     (case latest h of
        None \<Rightarrow> None
      | Some w \<Rightarrow>
          if \<not> has_failure w then None
          else if sw_branch w = main_branch settings \<or> sw_branch w = [] then None
          else if diff_paths = {} \<or> test_footprint = {} then None
          else if diff_touches_footprint diff_paths test_footprint then None
          else
            let passed_on_main = filter
                  (\<lambda>v. sw_branch v = main_branch settings \<and> status v = PASSED) (h_windows h)
            in if passed_on_main = [] then None
               else Some \<lparr>se_signal = BRANCH_INDEPENDENT,
                 se_detail = ''fails on '' @ sw_branch w @ '' whose diff touches none of '' @
                   show_nat (card test_footprint) @ '' file(s) this test exercises, and passes on '' @
                   main_branch settings,
                 se_observations = length passed_on_main\<rparr>)"

definition find_historical_instability ::
  "detect_config \<Rightarrow> history \<Rightarrow> signal_evidence option" where
  "find_historical_instability settings h =
     (if h_observations h < min_observations settings then None
      else
        let rate = flake_rate settings h in
        if rate \<le> flake_rate_threshold settings then None
        else
          let basis = (if retry_data_available h then ''same-commit divergence''
                else ''outcome flips between commits (no retry data in this pipeline)'')
          in Some \<lparr>se_signal = HISTORICAL_INSTABILITY,
               se_detail = ''flake rate '' @ fmt_pct 1 rate @ '' over '' @ show_nat (h_observations h) @
                 '' observations exceeds '' @ fmt_pct 1 (flake_rate_threshold settings) @
                 '', measured from '' @ basis,
               se_observations = h_observations h\<rparr>)"

definition confidence_of ::
  "signal_evidence list \<Rightarrow> history \<Rightarrow> detect_config \<Rightarrow> confidence" where
  "confidence_of signals h config =
     (let codes = se_signal ` set signals in
      if SAME_SHA_DIVERGENCE \<in> codes \<or> CROSS_ATTEMPT_DIVERGENCE \<in> codes
      then (if 2 \<le> length (filter diverged (h_windows h)) then HIGH else MEDIUM)
      else if HISTORICAL_INSTABILITY \<in> codes
      then (if retry_data_available h \<and> min_observations config * 2 \<le> h_observations h
            then MEDIUM else LOW)
      else LOW)"

definition decide ::
  "history \<Rightarrow> signal_evidence list \<Rightarrow> regression_finding option \<Rightarrow> detect_config \<Rightarrow>
   verdict \<times> confidence" where
  "decide h signals regression config =
     (if signals \<noteq> [] \<and> se_signal (hd signals) \<in> {SAME_SHA_DIVERGENCE, CROSS_ATTEMPT_DIVERGENCE}
      then (FLAKY, confidence_of signals h config)
      else
        case regression of
          Some r \<Rightarrow>
            (REGRESSION,
             if regression_pass_streak config * 2 \<le> rf_pass_streak r \<and>
                regression_fail_streak config \<le> rf_fail_streak r then HIGH else MEDIUM)
        | None \<Rightarrow>
            if (case latest h of None \<Rightarrow> True | Some w \<Rightarrow> \<not> has_failure w) then (HEALTHY, HIGH)
            else if signals \<noteq> [] then (FLAKY, confidence_of signals h config)
            else if length (h_windows h) \<le> 1 then (NEW_FAILURE, LOW)
            else if h_observations h < min_observations config then (PERSISTENT_FAILURE, LOW)
            else (PERSISTENT_FAILURE, MEDIUM))"

text \<open>\<open>s.split("::")[0]\<close>.\<close>

fun before_colons :: "string \<Rightarrow> string" where
  "before_colons (a # b # rest) =
     (if a = CHR '':'' \<and> b = CHR '':'' then [] else a # before_colons (b # rest))"
| "before_colons s = s"

definition test_file_of :: "test_identity \<Rightarrow> string" where
  "test_file_of identity =
     (case ti_file_path identity of
        Some (c # cs) \<Rightarrow> c # cs
      | _ \<Rightarrow> before_colons (ti_suite_path identity))"

definition test_footprint_of :: "test_identity \<Rightarrow> execution_record option \<Rightarrow> string set" where
  "test_footprint_of identity failure =
     footprint (Some (test_file_of identity)) (Option.bind failure er_stack_trace)
       (Option.bind failure er_failure_message)"

definition signals_of ::
  "detect_config \<Rightarrow> history \<Rightarrow> string set \<Rightarrow> string set \<Rightarrow>
   signal_evidence list \<times> regression_finding option" where
  "signals_of settings h diff_paths test_footprint =
     (let signals = find_same_sha_divergence h;
          regression = (if signals = [] then find_regression settings h else None)
      in if regression = None
         then (signals @
               (case find_branch_independent settings h diff_paths test_footprint of
                  None \<Rightarrow> [] | Some s \<Rightarrow> [s]) @
               (case find_historical_instability settings h of None \<Rightarrow> [] | Some s \<Rightarrow> [s]), None)
         else (signals, regression))"

definition detect_for_history ::
  "test_identity \<Rightarrow> nat \<Rightarrow> history \<Rightarrow> string set \<Rightarrow> bool \<Rightarrow> detect_config \<Rightarrow> detection" where
  "detect_for_history identity identity_id h diff_paths merged_uncertain settings =
     (let lw = latest h; lf = latest_failure h;
          test_footprint = test_footprint_of identity lf;
          (signals, regression) = signals_of settings h diff_paths test_footprint;
          (v, confidence) = decide h signals regression settings
      in \<lparr>d_identity = identity, d_identity_id = identity_id, d_verdict = v,
          d_confidence = confidence, d_signals = signals, d_flake_rate = flake_rate settings h,
          d_divergence_rate = divergence_rate settings h,
          d_intermittency_rate = intermittency_rate settings h,
          d_retry_data_available = retry_data_available h, d_observations = h_observations h,
          d_windows = length (h_windows h), d_infra_excluded = h_infra_excluded h,
          d_latest_outcome =
            (case (lf, lw) of
               (Some f, Some w) \<Rightarrow>
                 if has_failure w then Some (er_outcome f)
                 else if sw_outcomes w \<noteq> [] then Some (last (sw_outcomes w)) else None
             | (None, Some w) \<Rightarrow> if sw_outcomes w \<noteq> [] then Some (last (sw_outcomes w)) else None
             | (_, None) \<Rightarrow> None),
          d_latest_sha = map_option sw_commit_sha lw,
          d_regression_sha = map_option rf_pivot_sha regression,
          d_failure_message = Option.bind lf er_failure_message,
          d_failure_type = Option.bind lf er_failure_type,
          d_stack_trace = Option.bind lf er_stack_trace,
          d_footprint = sorted_list_of_set test_footprint,
          d_failing_shards = (case lw of None \<Rightarrow> [] | Some w \<Rightarrow> failing_shards w),
          d_merged_uncertain = merged_uncertain\<rparr>)"

definition diff_paths_for_latest :: "db \<Rightarrow> history \<Rightarrow> string set" where
  "diff_paths_for_latest d h =
     (case latest h of None \<Rightarrow> {} | Some w \<Rightarrow> diff_paths_for_sha d (sw_commit_sha w))"

definition primary :: "identity_group \<Rightarrow> nat" where
  "primary g = fold max (tl (ig_identity_ids g)) (hd (ig_identity_ids g))"

text \<open>One turn of the loop of \<open>detect_all\<close>, for an identity not reported yet.\<close>

definition detect_one ::
  "detect_config \<Rightarrow> string option \<Rightarrow> db \<Rightarrow> nat \<Rightarrow> detection option" where
  "detect_one settings since d identity_id =
     (let g = identity_group d identity_id in
      case identity_by_id d (primary g) of
        None \<Rightarrow> None
      | Some identity \<Rightarrow>
          let all_records = executions_for_group d (Some (window_executions settings)) identity_id;
              rs = (case since of None \<Rightarrow> all_records
                    | Some t \<Rightarrow> filter (\<lambda>r. t \<le> er_started_at r) all_records)
          in if rs = [] then None
             else
               let h = build_history settings rs
               in Some (detect_for_history identity (primary g) h (diff_paths_for_latest d h)
                    (ig_merged_uncertain g) settings))"

fun detect_loop ::
  "detect_config \<Rightarrow> string option \<Rightarrow> db \<Rightarrow> nat list \<Rightarrow> nat set \<Rightarrow> detection list" where
  "detect_loop settings since d [] reported = []"
| "detect_loop settings since d (identity_id # rest) reported =
     (if identity_id \<in> reported then detect_loop settings since d rest reported
      else
        let reported' = reported \<union> set (ig_identity_ids (identity_group d identity_id)) in
        case detect_one settings since d identity_id of
          None \<Rightarrow> detect_loop settings since d rest reported'
        | Some detection \<Rightarrow> detection # detect_loop settings since d rest reported')"

definition report_order :: "detection \<Rightarrow> pyfloat \<times> string" where
  "report_order x = (- d_flake_rate x, display_name (d_identity x))"

definition detect_all ::
  "detect_config \<Rightarrow> nat list option \<Rightarrow> string option \<Rightarrow> db \<Rightarrow> detection list" where
  "detect_all settings identity_ids since d =
     (let ids = (case identity_ids of None \<Rightarrow> all_identity_ids d | Some is \<Rightarrow> is)
      in sort_key report_order (detect_loop settings since d ids {}))"

section \<open>Signals and verdicts\<close>

lemma divergence_signal_Nil:
  "find_same_sha_divergence h = [] \<longleftrightarrow> filter diverged (h_windows h) = []"
  by (simp add: find_same_sha_divergence_def Let_def)

lemma divergence_signal_hd:
  "filter diverged (h_windows h) \<noteq> [] \<Longrightarrow>
   se_signal (hd (find_same_sha_divergence h)) = SAME_SHA_DIVERGENCE \<and>
   SAME_SHA_DIVERGENCE \<in> se_signal ` set (find_same_sha_divergence h)"
  by (simp add: find_same_sha_divergence_def Let_def)

lemma weak_signal_codes:
  "find_branch_independent c h dp fp = Some s \<Longrightarrow> se_signal s = BRANCH_INDEPENDENT"
  "find_historical_instability c h = Some s \<Longrightarrow> se_signal s = HISTORICAL_INSTABILITY"
  by (auto simp: find_branch_independent_def find_historical_instability_def Let_def
      split: option.splits if_splits)

definition latest_fails :: "history \<Rightarrow> bool" where
  "latest_fails h \<longleftrightarrow> (case latest h of None \<Rightarrow> False | Some w \<Rightarrow> has_failure w)"

lemma detect_fields:
  "d_verdict (detect_for_history identity i h dp mu c) =
     fst (decide h (fst (signals_of c h dp (test_footprint_of identity (latest_failure h))))
       (snd (signals_of c h dp (test_footprint_of identity (latest_failure h)))) c)"
  "d_confidence (detect_for_history identity i h dp mu c) =
     snd (decide h (fst (signals_of c h dp (test_footprint_of identity (latest_failure h))))
       (snd (signals_of c h dp (test_footprint_of identity (latest_failure h)))) c)"
  "d_signals (detect_for_history identity i h dp mu c) =
     fst (signals_of c h dp (test_footprint_of identity (latest_failure h)))"
  "d_regression_sha (detect_for_history identity i h dp mu c) =
     map_option rf_pivot_sha (snd (signals_of c h dp (test_footprint_of identity (latest_failure h))))"
  "d_identity (detect_for_history identity i h dp mu c) = identity"
  "d_identity_id (detect_for_history identity i h dp mu c) = i"
  "d_flake_rate (detect_for_history identity i h dp mu c) = flake_rate c h"
  "d_merged_uncertain (detect_for_history identity i h dp mu c) = mu"
  "d_observations (detect_for_history identity i h dp mu c) = h_observations h"
  by (simp_all add: detect_for_history_def Let_def split_beta)

text \<open>The two weak signals, and what \<open>signals_of\<close> returns in each case.\<close>

definition weak_signals ::
  "detect_config \<Rightarrow> history \<Rightarrow> string set \<Rightarrow> string set \<Rightarrow> signal_evidence list" where
  "weak_signals c h dp fp =
     (case find_branch_independent c h dp fp of None \<Rightarrow> [] | Some s \<Rightarrow> [s]) @
     (case find_historical_instability c h of None \<Rightarrow> [] | Some s \<Rightarrow> [s])"

lemma signals_of_diverged:
  "find_same_sha_divergence h \<noteq> [] \<Longrightarrow>
   signals_of c h dp fp = (find_same_sha_divergence h @ weak_signals c h dp fp, None)"
  by (simp add: signals_of_def weak_signals_def Let_def)

lemma signals_of_steady:
  "find_same_sha_divergence h = [] \<Longrightarrow>
   signals_of c h dp fp =
     (case find_regression c h of Some r \<Rightarrow> ([], Some r) | None \<Rightarrow> (weak_signals c h dp fp, None))"
  by (simp add: signals_of_def weak_signals_def Let_def split: option.split)

lemma confidence_of_diverged:
  "SAME_SHA_DIVERGENCE \<in> se_signal ` set signals \<Longrightarrow>
   confidence_of signals h c = (if 2 \<le> length (filter diverged (h_windows h)) then HIGH else MEDIUM)"
  by (simp add: confidence_of_def)

lemma confidence_of_weak:
  "confidence_of (weak_signals c h dp fp) h c =
     (if find_historical_instability c h \<noteq> None \<and> retry_data_available h \<and>
         min_observations c * 2 \<le> h_observations h then MEDIUM else LOW)"
  using weak_signal_codes
  by (auto simp: confidence_of_def weak_signals_def Let_def split: option.splits)

lemma if_same_fst: "(if P then (a, b) else (a, c)) = (a, if P then b else c)"
  by simp

lemma weak_signals_Nil:
  "weak_signals c h dp fp = [] \<longleftrightarrow>
     find_branch_independent c h dp fp = None \<and> find_historical_instability c h = None"
  by (auto simp: weak_signals_def split: option.splits)

lemma verdict_of_history:
  "(d_verdict (detect_for_history identity i h dp mu c),
    d_confidence (detect_for_history identity i h dp mu c)) =
   (let dv = length (filter diverged (h_windows h));
        branch = find_branch_independent c h dp (test_footprint_of identity (latest_failure h));
        instability = find_historical_instability c h
    in if 0 < dv then (FLAKY, if 2 \<le> dv then HIGH else MEDIUM)
       else case find_regression c h of
         Some r \<Rightarrow> (REGRESSION, if regression_pass_streak c * 2 \<le> rf_pass_streak r \<and>
             regression_fail_streak c \<le> rf_fail_streak r then HIGH else MEDIUM)
       | None \<Rightarrow>
         if \<not> latest_fails h then (HEALTHY, HIGH)
         else if \<not> (branch = None \<and> instability = None)
         then (FLAKY, if instability \<noteq> None \<and> retry_data_available h \<and>
             min_observations c * 2 \<le> h_observations h then MEDIUM else LOW)
         else if length (h_windows h) \<le> 1 then (NEW_FAILURE, LOW)
         else (PERSISTENT_FAILURE, if h_observations h < min_observations c then LOW else MEDIUM))"
proof (cases "filter diverged (h_windows h) = []")
  case False
  let ?w = "weak_signals c h dp (test_footprint_of identity (latest_failure h))"
  let ?e = "find_same_sha_divergence h"
  have ne: "?e \<noteq> []" using False by (simp add: divergence_signal_Nil)
  have "decide h (?e @ ?w) None c = (FLAKY, confidence_of (?e @ ?w) h c)"
    using divergence_signal_hd [OF False] ne by (simp add: decide_def)
  moreover have "SAME_SHA_DIVERGENCE \<in> se_signal ` set (?e @ ?w)"
    using divergence_signal_hd [OF False] by auto
  moreover have "0 < length (filter diverged (h_windows h))"
    using False by (metis length_greater_0_conv)
  ultimately show ?thesis
    unfolding detect_fields signals_of_diverged [OF ne] Let_def
    by (simp only: fst_conv snd_conv confidence_of_diverged if_True)
next
  case True
  then have e: "find_same_sha_divergence h = []" by (simp only: divergence_signal_Nil)
  have none: "\<not> 0 < length (filter diverged (h_windows h))" using True by (metis length_greater_0_conv)
  let ?fp = "test_footprint_of identity (latest_failure h)"
  let ?w = "weak_signals c h dp ?fp"
  show ?thesis
  proof (cases "find_regression c h")
    case (Some r)
    then show ?thesis
      unfolding detect_fields signals_of_steady [OF e] Let_def if_not_P [OF none]
      by (simp add: decide_def)
  next
    case None
    have "?w = [] \<or> se_signal (hd ?w) \<notin> {SAME_SHA_DIVERGENCE, CROSS_ATTEMPT_DIVERGENCE}"
      using weak_signal_codes by (auto simp: weak_signals_def split: option.splits)
    moreover have "(case latest h of None \<Rightarrow> True | Some w \<Rightarrow> \<not> has_failure w) \<longleftrightarrow> \<not> latest_fails h"
      by (simp add: latest_fails_def split: option.split)
    ultimately have "decide h ?w None c =
       (if \<not> latest_fails h then (HEALTHY, HIGH)
        else if ?w \<noteq> [] then (FLAKY, confidence_of ?w h c)
        else if length (h_windows h) \<le> 1 then (NEW_FAILURE, LOW)
        else if h_observations h < min_observations c then (PERSISTENT_FAILURE, LOW)
        else (PERSISTENT_FAILURE, MEDIUM))"
      unfolding decide_def by auto
    then have "decide h ?w None c =
       (if \<not> latest_fails h then (HEALTHY, HIGH)
        else if \<not> (find_branch_independent c h dp ?fp = None \<and> find_historical_instability c h = None)
        then (FLAKY, if find_historical_instability c h \<noteq> None \<and> retry_data_available h \<and>
             min_observations c * 2 \<le> h_observations h then MEDIUM else LOW)
        else if length (h_windows h) \<le> 1 then (NEW_FAILURE, LOW)
        else (PERSISTENT_FAILURE, if h_observations h < min_observations c then LOW else MEDIUM))"
      by (simp only: weak_signals_Nil confidence_of_weak if_same_fst)
    moreover have "signals_of c h dp ?fp = (?w, None)"
      by (simp only: signals_of_steady [OF e] None option.case)
    ultimately show ?thesis
      unfolding detect_fields Let_def if_not_P [OF none] None
      by (simp only: fst_conv snd_conv prod.collapse option.case)
  qed
qed


text \<open>Counting a run from the end, as a decomposition of the list.\<close>

lemma trailing_split:
  "\<exists>us vs. ws = us @ vs \<and> length vs = trailing s ws \<and> list_all (\<lambda>w. status w = s) vs \<and>
     (us = [] \<or> status (last us) \<noteq> s)"
proof -
  let ?p = "\<lambda>w. status w = s"
  have "rev (takeWhile ?p (rev ws) @ dropWhile ?p (rev ws)) = ws"
    by (simp only: takeWhile_dropWhile_id rev_rev_ident)
  then have "ws = rev (dropWhile ?p (rev ws)) @ rev (takeWhile ?p (rev ws))"
    by (simp only: rev_append)
  moreover have "rev (dropWhile ?p (rev ws)) = [] \<or> \<not> ?p (last (rev (dropWhile ?p (rev ws))))"
    using hd_dropWhile [of ?p "rev ws"] by (cases "dropWhile ?p (rev ws)") simp_all
  moreover have "list_all ?p (rev (takeWhile ?p (rev ws)))"
    by (auto simp: list_all_iff dest: set_takeWhileD)
  ultimately show ?thesis
    by (intro exI [of _ "rev (dropWhile ?p (rev ws))"] exI [of _ "rev (takeWhile ?p (rev ws))"])
      (simp add: trailing_def)
qed

lemma trailing_unique:
  assumes "list_all (\<lambda>w. status w = s) vs" and "us = [] \<or> status (last us) \<noteq> s"
  shows "trailing s (us @ vs) = length vs"
proof -
  have "takeWhile (\<lambda>w. status w = s) (rev vs @ rev us) = rev vs"
    using assms by (cases us rule: rev_cases) (simp_all add: takeWhile_append list_all_iff)
  then show ?thesis by (simp add: trailing_def)
qed

definition clean_transition ::
  "detect_config \<Rightarrow> sha_window list \<Rightarrow> regression_finding \<Rightarrow> bool" where
  "clean_transition c windows r \<longleftrightarrow>
     (\<exists>before passes fails. windows = before @ passes @ fails \<and>
        list_all (\<lambda>w. status w = PASSED \<or> status w = FAILED) before \<and>
        list_all (\<lambda>w. status w = PASSED) passes \<and> list_all (\<lambda>w. status w = FAILED) fails \<and>
        (before = [] \<or> status (last before) = FAILED) \<and>
        regression_pass_streak c \<le> length passes \<and> regression_fail_streak c \<le> length fails \<and>
        r = \<lparr>rf_pivot_sha = sw_commit_sha (hd fails), rf_pass_streak = length passes,
             rf_fail_streak = length fails\<rparr>)"

lemma status_PF: "status w \<noteq> NO_DATA \<Longrightarrow> status w \<noteq> DIVERGED \<Longrightarrow> status w = PASSED \<or> status w = FAILED"
  by (cases "status w") auto

text \<open>
  The two runs a list of windows ends in: the longest of failing ones, and the longest of passing
  ones before it.
\<close>

definition ends_in ::
  "sha_window list \<Rightarrow> sha_window list \<Rightarrow> sha_window list \<Rightarrow> sha_window list \<Rightarrow> bool" where
  "ends_in ws before passes fails \<longleftrightarrow>
     ws = (before @ passes) @ fails \<and> length fails = trailing FAILED ws \<and>
     length passes = trailing PASSED (before @ passes) \<and>
     list_all (\<lambda>w. status w = FAILED) fails \<and> list_all (\<lambda>w. status w = PASSED) passes \<and>
     (before @ passes = [] \<or> status (last (before @ passes)) \<noteq> FAILED) \<and>
     (before = [] \<or> status (last before) \<noteq> PASSED)"

lemma ends_in_exists: "\<exists>before passes fails. ends_in ws before passes fails"
proof -
  obtain us fails where fails: "ws = us @ fails" "length fails = trailing FAILED ws"
    "list_all (\<lambda>w. status w = FAILED) fails" "us = [] \<or> status (last us) \<noteq> FAILED"
    using trailing_split by blast
  obtain before passes where "us = before @ passes" "length passes = trailing PASSED us"
    "list_all (\<lambda>w. status w = PASSED) passes" "before = [] \<or> status (last before) \<noteq> PASSED"
    using trailing_split by blast
  with fails show ?thesis
    unfolding ends_in_def by (intro exI [of _ before] exI [of _ passes] exI [of _ fails]) simp
qed

lemma find_regression_streaks:
  assumes "valid_detect_config c"
    and "ends_in (filter (\<lambda>w. status w \<noteq> NO_DATA) (h_windows h)) before passes fails"
  shows "find_regression c h =
     (if list_ex (\<lambda>w. status w = DIVERGED) (filter (\<lambda>w. status w \<noteq> NO_DATA) (h_windows h)) then None
      else if length fails < regression_fail_streak c then None
      else if length passes < regression_pass_streak c then None
      else Some \<lparr>rf_pivot_sha = sw_commit_sha (hd fails), rf_pass_streak = length passes,
                 rf_fail_streak = length fails\<rparr>)"
proof -
  define ws where "ws = filter (\<lambda>w. status w \<noteq> NO_DATA) (h_windows h)"
  have parts: "ws = (before @ passes) @ fails" "length fails = trailing FAILED ws"
    "length passes = trailing PASSED (before @ passes)"
    using assms(2) by (simp_all add: ends_in_def ws_def [symmetric])
  have pos: "1 \<le> regression_pass_streak c" "1 \<le> regression_fail_streak c"
    using assms by (simp_all add: valid_detect_config_def)
  have us: "take (length ws - trailing FAILED ws) ws = before @ passes"
    unfolding parts(2) [symmetric] by (simp add: parts(1))
  have "ws ! (length ws - length fails) = hd fails" if "\<not> length fails < regression_fail_streak c"
    using that pos by (cases fails) (auto simp: parts(1) nth_append)
  then show ?thesis
    using pos us parts(2,3)
    by (auto simp: find_regression_def Let_def simp flip: ws_def)
qed

lemma clean_transition_streaks:
  assumes "valid_detect_config c" and "ends_in ws before passes fails" and "clean_transition c ws r"
  shows "\<not> list_ex (\<lambda>w. status w = DIVERGED) ws \<and> regression_pass_streak c \<le> length passes \<and>
    regression_fail_streak c \<le> length fails \<and>
    r = \<lparr>rf_pivot_sha = sw_commit_sha (hd fails), rf_pass_streak = length passes, rf_fail_streak = length fails\<rparr>"
proof -
  obtain b p f where w: "ws = b @ p @ f"
    "list_all (\<lambda>w. status w = PASSED \<or> status w = FAILED) b"
    "list_all (\<lambda>w. status w = PASSED) p" "list_all (\<lambda>w. status w = FAILED) f"
    "b = [] \<or> status (last b) = FAILED" "regression_pass_streak c \<le> length p"
    "regression_fail_streak c \<le> length f"
    "r = \<lparr>rf_pivot_sha = sw_commit_sha (hd f), rf_pass_streak = length p, rf_fail_streak = length f\<rparr>"
    using assms(3) unfolding clean_transition_def by blast
  have "p \<noteq> []" using w(6) assms(1) by (auto simp: valid_detect_config_def)
  then have "status (last (b @ p)) \<noteq> FAILED"
    using w(3) by (auto simp: list_all_iff)
  then have "trailing FAILED ((b @ p) @ f) = length f"
    using w(4) by (intro trailing_unique) auto
  then have f: "length f = length fails" using w(1) assms(2) by (simp add: ends_in_def)
  then have eq: "f = fails" "before @ passes = b @ p"
    using w(1) assms(2) unfolding ends_in_def by (metis append.assoc append_eq_append_conv)+
  have "trailing PASSED (b @ p) = length p"
    using w(3,5) by (intro trailing_unique) auto
  then have p: "length p = length passes" using assms(2) eq(2) by (simp add: ends_in_def)
  have "\<not> list_ex (\<lambda>w. status w = DIVERGED) ws"
    using w(1-4) by (force simp: list_ex_iff list_all_iff)
  then show ?thesis using w(6-8) eq(1) f p by simp
qed

text \<open>
  C6. A regression is found exactly when the commits that produced data never diverged and end in
  a long enough run of only-passing commits directly followed by a long enough run of only-failing
  ones; the reported pivot is the first commit of the failing run, and the two streaks are the
  full lengths of these runs.
\<close>

theorem find_regression_iff:
  assumes "valid_detect_config c"
  shows "find_regression c h = Some r \<longleftrightarrow>
    clean_transition c (filter (\<lambda>w. status w \<noteq> NO_DATA) (h_windows h)) r"
proof -
  define ws where "ws = filter (\<lambda>w. status w \<noteq> NO_DATA) (h_windows h)"
  obtain before passes fails where parts: "ends_in ws before passes fails"
    using ends_in_exists by blast
  note found = find_regression_streaks [OF assms parts [unfolded ws_def], folded ws_def]
  show ?thesis unfolding ws_def [symmetric]
  proof
    assume "find_regression c h = Some r"
    then have r: "r = \<lparr>rf_pivot_sha = sw_commit_sha (hd fails), rf_pass_streak = length passes,
        rf_fail_streak = length fails\<rparr>" and nd: "\<not> list_ex (\<lambda>w. status w = DIVERGED) ws"
      and len: "regression_fail_streak c \<le> length fails" "regression_pass_streak c \<le> length passes"
      by (auto simp: found split: if_splits)
    have "status w = PASSED \<or> status w = FAILED" if "w \<in> set ws" for w
      using that nd by (intro status_PF) (auto simp: list_ex_iff ws_def)
    then have "list_all (\<lambda>w. status w = PASSED \<or> status w = FAILED) before"
      "before = [] \<or> status (last before) = FAILED"
      using parts unfolding ends_in_def by (auto simp: list_all_iff) (metis Un_iff last_in_set set_append)
    with r len parts show "clean_transition c ws r"
      unfolding clean_transition_def ends_in_def
      by (intro exI [of _ before] exI [of _ passes] exI [of _ fails]) simp
  next
    assume "clean_transition c ws r"
    from clean_transition_streaks [OF assms parts this] show "find_regression c h = Some r"
      by (simp add: found)
  qed
qed

definition sample_shas :: "(string \<times> outcome) list \<Rightarrow> history" where
  "sample_shas os = \<lparr>h_windows = map (\<lambda>(sha, r). mk_window sha [sample_record 1 sha r]) os,
     h_infra_excluded = 0, h_skipped = 0\<rparr>"

theorem find_regression_iff_witness:
  "find_regression default_detect_config
     (sample_shas [(''a'', PASS), (''b'', PASS), (''s'', SKIP), (''c'', PASS), (''d'', FAIL), (''e'', ERROR)]) =
     Some \<lparr>rf_pivot_sha = ''d'', rf_pass_streak = 3, rf_fail_streak = 2\<rparr>"
proof -
  let ?h = "sample_shas [(''a'', PASS), (''b'', PASS), (''s'', SKIP), (''c'', PASS), (''d'', FAIL), (''e'', ERROR)]"
  let ?w = "\<lambda>sha r. mk_window sha [sample_record 1 sha r]"
  have ws: "filter (\<lambda>w. status w \<noteq> NO_DATA) (h_windows ?h) =
      [] @ [?w ''a'' PASS, ?w ''b'' PASS, ?w ''c'' PASS] @ [?w ''d'' FAIL, ?w ''e'' ERROR]"
    by code_simp
  have "clean_transition default_detect_config (filter (\<lambda>w. status w \<noteq> NO_DATA) (h_windows ?h))
      \<lparr>rf_pivot_sha = ''d'', rf_pass_streak = 3, rf_fail_streak = 2\<rparr>"
    unfolding clean_transition_def
  proof (intro exI conjI, rule ws)
    show "list_all (\<lambda>w. status w = PASSED) [?w ''a'' PASS, ?w ''b'' PASS, ?w ''c'' PASS]"
      and "list_all (\<lambda>w. status w = FAILED) [?w ''d'' FAIL, ?w ''e'' ERROR]"
      by code_simp+
  qed (simp_all add: default_detect_config_def)
  then show ?thesis
    using find_regression_iff [OF valid_default_configs(1)] by blast
qed

section \<open>Each logical test once\<close>

text \<open>
  What the detector relies on in the store: every identity belongs to its group, and the members
  of a group agree on it.
\<close>

locale grouping =
  fixes grp :: "nat \<Rightarrow> nat list"
  assumes self: "i \<in> set (grp i)"
    and coherent: "j \<in> set (grp i) \<Longrightarrow> grp j = grp i"

fun leaders :: "(nat \<Rightarrow> nat list) \<Rightarrow> nat list \<Rightarrow> nat set \<Rightarrow> nat list" where
  "leaders grp [] reported = []"
| "leaders grp (i # rest) reported =
     (if i \<in> reported then leaders grp rest reported
      else i # leaders grp rest (reported \<union> set (grp i)))"

context grouping
begin

lemma leaders_subset: "set (leaders grp ids R) \<subseteq> set ids - R"
  by (induction ids arbitrary: R) auto

lemma leaders_distinct: "distinct (map grp (leaders grp ids R))"
proof (induction ids arbitrary: R)
  case (Cons i ids)
  have "grp j \<noteq> grp i" if "j \<in> set (leaders grp ids (R \<union> set (grp i)))" for j
    using that leaders_subset [of ids "R \<union> set (grp i)"] self [of j] by auto
  then have "grp i \<notin> grp ` set (leaders grp ids (R \<union> set (grp i)))" by force
  with Cons show ?case by simp
qed simp

lemma leaders_cover:
  "i \<in> set ids \<Longrightarrow> i \<notin> R \<Longrightarrow> (\<And>j. j \<in> R \<Longrightarrow> set (grp j) \<subseteq> R) \<Longrightarrow>
   \<exists>l \<in> set (leaders grp ids R). grp l = grp i"
proof (induction ids arbitrary: R)
  case (Cons a ids)
  show ?case
  proof (cases "a \<in> R")
    case True
    with Cons.prems Cons.IH [of R] show ?thesis by auto
  next
    case False
    show ?thesis
    proof (cases "i = a \<or> i \<in> set (grp a)")
      case True
      then have "grp a = grp i" using coherent by auto
      with False show ?thesis by auto
    next
      case i: False
      have "set (grp j) \<subseteq> R \<union> set (grp a)" if "j \<in> R \<union> set (grp a)" for j
        using that Cons.prems(3) coherent [of j a] by auto
      with Cons.IH [of "R \<union> set (grp a)"] Cons.prems(1,2) i False show ?thesis by auto
    qed
  qed
qed simp

text \<open>A function that is constant on groups gives the same results on leaders as on everything.\<close>

lemma leaders_image:
  assumes "\<And>i j. grp j = grp i \<Longrightarrow> f j = f i"
  shows "f ` set (leaders grp ids {}) = f ` set ids"
proof
  show "f ` set (leaders grp ids {}) \<subseteq> f ` set ids"
    using leaders_subset by fastforce
  show "f ` set ids \<subseteq> f ` set (leaders grp ids {})"
  proof
    fix y
    assume "y \<in> f ` set ids"
    then obtain i where i: "i \<in> set ids" "y = f i" by blast
    obtain l where "l \<in> set (leaders grp ids {})" "grp l = grp i"
      using leaders_cover [of i ids "{}"] i(1) by auto
    then show "y \<in> f ` set (leaders grp ids {})"
      using assms i(2) by (metis imageI)
  qed
qed

lemma distinct_over_leaders:
  assumes "\<And>i j x y. f i = Some x \<Longrightarrow> f j = Some y \<Longrightarrow> k x = k y \<Longrightarrow> grp i = grp j"
  shows "distinct (map k (List.map_filter f (leaders grp ids R)))"
proof -
  have "distinct (map k (List.map_filter f is))" if "distinct (map grp is)" for "is"
    using that
  proof (induction "is")
    case (Cons i "is")
    then show ?case
    proof (cases "f i")
      case (Some x)
      have "k x \<noteq> k y" if "y \<in> set (List.map_filter f is)" for y
      proof
        assume eq: "k x = k y"
        obtain j where "j \<in> set is" "f j = Some y"
          using \<open>y \<in> set (List.map_filter f is)\<close> by (auto simp: List.map_filter_def)
        with assms [OF Some] eq have "grp i \<in> grp ` set is" by force
        with Cons.prems show False by simp
      qed
      with Cons Some show ?thesis by (auto simp: List.map_filter_simps)
    qed (simp add: List.map_filter_simps)
  qed (simp add: List.map_filter_simps)
  then show ?thesis using leaders_distinct by blast
qed

end

abbreviation group_ids :: "db \<Rightarrow> nat \<Rightarrow> nat list" where
  "group_ids d i \<equiv> ig_identity_ids (identity_group d i)"

interpretation store_groups: grouping "group_ids d" for d
proof unfold_locales
  fix i j
  show "i \<in> set (group_ids d i)" by (simp add: identity_group_component)
  show "group_ids d j = group_ids d i" if "j \<in> set (group_ids d i)"
    using identity_group_eq [OF that] by simp
qed

lemma detect_loop_leaders:
  "detect_loop c since d ids R = List.map_filter (detect_one c since d) (leaders (group_ids d) ids R)"
  by (induction ids arbitrary: R) (auto simp: List.map_filter_simps Let_def split: option.split)

lemma same_group: "group_ids d j = group_ids d i \<Longrightarrow> identity_group d j = identity_group d i"
  using identity_group_eq [of j d i] store_groups.self [of j d] by simp

lemma detect_one_group: "group_ids d j = group_ids d i \<Longrightarrow> detect_one c since d j = detect_one c since d i"
  unfolding detect_one_def executions_for_group_def by (drule same_group) (simp only:)

lemma fold_max_mem: "fold max xs (y::nat) \<in> set (y # xs)"
  by (induction xs arbitrary: y) (auto simp: max_def)

lemma primary_mem: "primary (identity_group d i) \<in> set (group_ids d i)"
proof -
  obtain x xs where "group_ids d i = x # xs"
    using store_groups.self [of i d] by (cases "group_ids d i") auto
  then show ?thesis using fold_max_mem [of xs x] by (simp add: primary_def)
qed

lemma detect_one_id: "detect_one c since d i = Some x \<Longrightarrow> d_identity_id x = primary (identity_group d i)"
  by (auto simp: detect_one_def Let_def detect_fields split: option.splits if_splits)

lemma map_filter_set: "set (List.map_filter f xs) = {y. \<exists>x \<in> set xs. f x = Some y}"
  by (force simp: List.map_filter_def)

lemma some_image: "{x. Some x \<in> f ` A} = {x. \<exists>i \<in> A. f i = Some x}"
  by (auto simp: image_iff eq_commute)

lemma detect_all_set:
  "set (detect_all c ids since d) =
     {x. \<exists>i \<in> set (case ids of None \<Rightarrow> all_identity_ids d | Some js \<Rightarrow> js).
        detect_one c since d i = Some x}"
proof -
  let ?asked = "case ids of None \<Rightarrow> all_identity_ids d | Some js \<Rightarrow> js"
  let ?loop = "List.map_filter (detect_one c since d) (leaders (group_ids d) ?asked {})"
  have "set ?loop = {x. Some x \<in> detect_one c since d ` set (leaders (group_ids d) ?asked {})}"
    by (simp only: map_filter_set some_image)
  also have "\<dots> = {x. Some x \<in> detect_one c since d ` set ?asked}"
    by (simp only: store_groups.leaders_image [OF detect_one_group])
  finally have "set ?loop = {x. \<exists>i \<in> set ?asked. detect_one c since d i = Some x}"
    by (simp only: some_image)
  then show ?thesis by (simp add: detect_all_def detect_loop_leaders)
qed

text \<open>
  Every logical test is reported exactly once: whichever identities are asked for, in
  whatever order and with whatever repetitions, the detections are those of the single identities
  with no duplicate, because the members of a group of aliases all give the same detection; no two
  detections have the same identity, and they come by falling flake rate, then by name.
\<close>

theorem detect_all_reports_once:
  "let asked = (case ids of None \<Rightarrow> all_identity_ids d | Some js \<Rightarrow> js);
       out = detect_all c ids since d
   in set out = {x. \<exists>i \<in> set asked. detect_one c since d i = Some x} \<and>
      distinct (map d_identity_id out) \<and> sorted (map report_order out)"
proof -
  let ?asked = "case ids of None \<Rightarrow> all_identity_ids d | Some js \<Rightarrow> js"
  let ?loop = "List.map_filter (detect_one c since d) (leaders (group_ids d) ?asked {})"
  have "distinct (map d_identity_id ?loop)"
  proof (rule store_groups.distinct_over_leaders)
    fix i j x y
    assume "detect_one c since d i = Some x" "detect_one c since d j = Some y"
      "d_identity_id x = d_identity_id y"
    then have "primary (identity_group d i) \<in> set (group_ids d i) \<inter> set (group_ids d j)"
      using primary_mem by (metis IntI detect_one_id)
    then show "group_ids d i = group_ids d j"
      using store_groups.coherent by (metis IntD1 IntD2)
  qed
  then have "distinct (map d_identity_id (sort_key report_order ?loop))"
    by (metis mset_eq_imp_distinct_iff mset_map mset_sort)
  then have "distinct (map d_identity_id (detect_all c ids since d)) \<and>
      sorted (map report_order (detect_all c ids since d))"
    by (simp add: detect_all_def detect_loop_leaders)
  then show ?thesis
    unfolding Let_def detect_all_set by blast
qed

section \<open>Nothing is missed\<close>

lemma group_exists:
  assumes "db_inv d" and "identity_exists d i" and "j \<in> set (group_ids d i)"
  shows "identity_exists d j"
proof -
  have "(i, j) \<in> (alias_rel (identity_aliases d))\<^sup>*"
    using assms(3) by (simp add: identity_group_component)
  then show ?thesis
  proof (cases rule: rtranclE)
    case base
    then show ?thesis using assms(2) by simp
  next
    case (step k)
    then have "j \<in> set (ends (identity_aliases d))"
      by (force simp: alias_rel_def ends_def doubleton_eq_iff)
    moreover have "set (ends (identity_aliases d)) \<subseteq> ir_id ` set (test_identities d)"
      using assms(1) by (simp add: db_inv_def)
    ultimately show ?thesis unfolding identity_exists_def by (rule rev_subsetD)
  qed
qed

lemma identity_by_id_exists: "identity_exists d i \<Longrightarrow> identity_by_id d i \<noteq> None"
  by (auto simp: identity_by_id_def identity_exists_def find_None_iff)

lemma executions_exist:
  assumes "db_reachable d" and "executions_for_group d None i \<noteq> []"
  shows "identity_exists d i"
proof -
  have inv: "db_inv d" using assms(1) by (rule reachable_db_inv)
  obtain e r where e: "(e, r) \<in> set (joined d)"
    "(i, ex_identity_id e) \<in> (alias_rel (identity_aliases d))\<^sup>*"
  proof -
    obtain x where "x \<in> set (executions_for_group d None i)"
      using assms(2) by (cases "executions_for_group d None i") auto
    then show thesis unfolding bounded_history_set [OF inv] by (auto intro: that)
  qed
  then have "e \<in> set (executions d)"
    by (auto simp: joined_def List.map_filter_def split: option.splits)
  moreover have "ex_identity_id ` set (executions d) \<subseteq> ir_id ` set (test_identities d)"
    using inv by (simp add: db_inv_def)
  ultimately have "identity_exists d (ex_identity_id e)"
    unfolding identity_exists_def by blast
  moreover have "i \<in> set (group_ids d (ex_identity_id e))"
    using e(2) alias_rel_sym by (simp add: identity_group_component) (metis sym_rtrancl symD)
  ultimately show ?thesis using group_exists [OF inv] by blast
qed

text \<open>
  C7. No test with data is left out and none is invented: over a database the program built, with
  a window of at least one execution and no cut-off date, the reported identities are exactly the
  newest members of the groups that have an execution on record.
\<close>

theorem detect_all_complete:
  assumes "db_reachable d" and "valid_detect_config c"
  shows "d_identity_id ` set (detect_all c None None d) =
    {primary (identity_group d i) | i. executions_for_group d None i \<noteq> []}"
proof -
  have inv: "db_inv d" using assms(1) by (rule reachable_db_inv)
  have one: "(\<exists>x. detect_one c None d i = Some x) \<longleftrightarrow> executions_for_group d None i \<noteq> []"
    if "identity_exists d i" for i
  proof -
    have "identity_by_id d (primary (identity_group d i)) \<noteq> None"
      using group_exists [OF inv that primary_mem] by (rule identity_by_id_exists)
    moreover have "executions_for_group d (Some (window_executions c)) i \<noteq> [] \<longleftrightarrow>
        executions_for_group d None i \<noteq> []"
      using assms(2) by (simp add: rows_for_group [OF inv] limited_def valid_detect_config_def)
    ultimately show ?thesis by (auto simp: detect_one_def Let_def)
  qed
  have ids: "set (all_identity_ids d) = {i. identity_exists d i}"
    by (auto simp: all_identity_ids_def identity_exists_def)
  have "set (detect_all c None None d) = {x. \<exists>i. identity_exists d i \<and> detect_one c None d i = Some x}"
    by (simp add: detect_all_set ids)
  then have "d_identity_id ` set (detect_all c None None d) =
      {primary (identity_group d i) | i. identity_exists d i \<and> (\<exists>x. detect_one c None d i = Some x)}"
    using detect_one_id by (auto simp: image_iff) metis
  then show ?thesis
    using one executions_exist [OF assms(1)] by auto
qed

theorem detect_all_complete_witness:
  "d_identity_id ` set (detect_all default_detect_config None None sample_db) =
     {primary (identity_group sample_db i) | i. executions_for_group sample_db None i \<noteq> []} \<and>
   map er_outcome (executions_for_group sample_db None 2) = [PASS, FAIL]"
proof -
  have "map er_outcome (executions_for_group sample_db None 2) = [PASS, FAIL]" by code_simp
  with detect_all_complete [OF sample_db_reachable valid_default_configs(1)] show ?thesis by blast
qed

section \<open>A detection to compute with\<close>

definition flaky_detection :: detection where
  "flaky_detection =
     \<lparr>d_identity = \<lparr>ti_fingerprint = ''f1'', ti_suite_path = ''tests/test_cart.py::TestCart'',
        ti_test_name = ''test_total'', ti_parameters = [], ti_file_path = None\<rparr>,
      d_identity_id = 1, d_verdict = FLAKY, d_confidence = HIGH, d_signals = [],
      d_flake_rate = 3 / 10, d_divergence_rate = 3 / 10, d_intermittency_rate = 0,
      d_retry_data_available = True, d_observations = 20, d_windows = 12, d_infra_excluded = 0,
      d_latest_outcome = None, d_latest_sha = None, d_regression_sha = None,
      d_failure_message = None, d_failure_type = None, d_stack_trace = None, d_footprint = [],
      d_failing_shards = [], d_merged_uncertain = False\<rparr>"

end
