(* ===== verification/Prompt.thy ===== *)
theory Prompt
  imports Detector
begin

text \<open>
  Context assembly for the classifier (\<open>classify/prompt.py\<close>): the trace is cut to a budget, the diff
  to the files the failure mentions, and the history to the facts the detector established. The
  fixed instructions for the model are in \<open>Prompt_Text\<close>.
\<close>

section \<open>The program\<close>

fun signal_value :: "flake_signal \<Rightarrow> string" where
  "signal_value SAME_SHA_DIVERGENCE = ''same_sha_divergence''"
| "signal_value CROSS_ATTEMPT_DIVERGENCE = ''cross_attempt_divergence''"
| "signal_value BRANCH_INDEPENDENT = ''branch_independent_intermittency''"
| "signal_value HISTORICAL_INSTABILITY = ''historical_instability''"

fun confidence_value :: "confidence \<Rightarrow> string" where
  "confidence_value HIGH = ''high''"
| "confidence_value MEDIUM = ''medium''"
| "confidence_value LOW = ''low''"

definition signal_codes :: "detection \<Rightarrow> string list" where
  "signal_codes d = map (signal_value \<circ> se_signal) (d_signals d)"

definition looks_like_project_line :: "string \<Rightarrow> bool" where
  "looks_like_project_line line \<longleftrightarrow> extract_paths True (Some line) \<noteq> []"

text \<open>The first loop: whole lines while they fit; \<open>used\<close> counts a line feed after each.\<close>

fun head_lines :: "nat \<Rightarrow> nat \<Rightarrow> string list \<Rightarrow> string list" where
  "head_lines head_budget used [] = []"
| "head_lines head_budget used (line # rest) =
     (if head_budget < used + length line + 1 then []
      else line # head_lines head_budget (used + length line + 1) rest)"

fun tail_lines :: "nat \<Rightarrow> string list \<Rightarrow> string list" where
  "tail_lines remaining [] = []"
| "tail_lines remaining (line # rest) =
     (if is_noise_line line \<or> \<not> looks_like_project_line line then tail_lines remaining rest
      else if remaining < length line + 1 then []
      else line # tail_lines (remaining - (length line + 1)) rest)"

definition OMITTED :: string where
  "OMITTED = ''    ... framework frames omitted ...''"

definition used_by :: "string list \<Rightarrow> nat" where
  "used_by ls = sum_list (map (\<lambda>l. length l + 1) ls)"

definition truncate_trace :: "string option \<Rightarrow> nat \<Rightarrow> string" where
  "truncate_trace trace budget =
     (case trace of
        None \<Rightarrow> []
      | Some t0 \<Rightarrow>
          let t = strip t0 in
          if length t \<le> budget then t
          else
            let ls = splitlines t; head = head_lines (budget * 3 div 5) 0 ls;
                tail = tail_lines (budget - used_by head) (drop (length head) ls)
            in join [LF] (if tail \<noteq> [] then head @ [OMITTED] @ tail else head))"

definition diff_entry :: "file_change \<Rightarrow> string" where
  "diff_entry change =
     (let ranges = join '', '' (map (\<lambda>r. show_int (lr_start r) @ ''-'' @ show_int (lr_end r)) (fc_new_ranges change))
      in ''- '' @ fc_path change @ '' ('' @ change_value (fc_change_type change) @ '')'' @
         (if ranges \<noteq> [] then '' changed lines '' @ ranges else []))"

definition relevant_diff :: "diff_summary option \<Rightarrow> string list \<Rightarrow> string" where
  "relevant_diff diff test_footprint =
     (case diff of
        None \<Rightarrow> []
      | Some d \<Rightarrow>
          if test_footprint = [] then []
          else
            let ls = uniq (map diff_entry (List.map_filter (change_for d) test_footprint))
            in if ls = []
               then ''The change under test touches none of the files this test's failure mentions.''
               else join [LF] ls)"

definition history_summary :: "detection \<Rightarrow> string" where
  "history_summary d =
     join [LF]
       ([''- verdict: '' @ verdict_value (d_verdict d) @ '' (detector confidence: '' @
           confidence_value (d_confidence d) @ '')'',
         ''- flake rate: '' @ fmt_pct 1 (d_flake_rate d) @ '' over '' @ show_nat (d_observations d) @
           '' observations across '' @ show_nat (d_windows d) @ '' commit(s)''] @
        (if d_retry_data_available d
         then [''- same-commit divergence rate: '' @ fmt_pct 1 (d_divergence_rate d) @
           '' (this pipeline retries, so divergence is directly observable)'']
         else [''- this pipeline does not retry, so same-commit divergence cannot be '' @
           ''observed; cross-commit flip rate is '' @ fmt_pct 1 (d_intermittency_rate d)]) @
        (if d_failing_shards d \<noteq> []
         then [''- failures are confined to shard(s) '' @ join '', '' (d_failing_shards d) @
           '', which can indicate order dependency''] else []) @
        (if d_infra_excluded d \<noteq> 0
         then [''- '' @ show_nat (d_infra_excluded d) @ '' execution(s) were excluded as '' @
           ''platform failures and are not in the rate above''] else []) @
        (if d_merged_uncertain d
         then [''- this history was merged across an inferred rename and may combine '' @
           ''two tests; treat the history as less reliable than the trace''] else []))"

definition signals_summary :: "detection \<Rightarrow> string" where
  "signals_summary d =
     (if d_signals d = [] then ''- none fired; this test was selected on its failure alone''
      else join [LF] (map (\<lambda>e. ''- '' @ signal_value (se_signal e) @ '': '' @ se_detail e) (d_signals d)))"

definition outcome_line :: "detection \<Rightarrow> string" where
  "outcome_line d =
     (let r = (case d_latest_outcome d of None \<Rightarrow> ''unknown'' | Some r \<Rightarrow> outcome_value r)
      in ''Most recent outcome: '' @
         (if r = ''fail''
          then ''assertion failure (the framework ran the test and the check did not hold)''
          else if r = ''error'' then ''harness error (the test did not complete normally)''
          else r))"

definition fenced :: "string \<Rightarrow> string" where
  "fenced t = replicate 3 CHR 0x60 @ [LF] @ t @ [LF] @ replicate 3 CHR 0x60"

definition given :: "string option \<Rightarrow> bool" where
  "given v \<longleftrightarrow> v \<noteq> None \<and> v \<noteq> Some []"

definition failure_block :: "detection \<Rightarrow> nat \<Rightarrow> string" where
  "failure_block d trace_budget =
     (let trace = truncate_trace (d_stack_trace d) trace_budget;
          ls = (if given (d_failure_type d) then [''Type: '' @ the (d_failure_type d)] else []) @
               (if given (d_failure_message d) then [''Message: '' @ the (d_failure_message d)] else []) @
               (if trace \<noteq> [] then [''Trace:'' @ [LF] @ fenced trace] else [])
      in if ls = [] then ''No failure message or trace was captured for this failure.''
         else join [LF] ls)"

definition titled :: "string \<Rightarrow> string \<Rightarrow> string" where
  "titled title body = ''## '' @ title @ [LF] @ body"

definition build_context ::
  "detection \<Rightarrow> diff_summary option \<Rightarrow> nat \<Rightarrow> string option \<Rightarrow> string" where
  "build_context d diff trace_budget test_source =
     (let diff_text = relevant_diff diff (d_footprint d)
      in join [LF, LF]
        ([titled ''Test'' (display_name (d_identity d)),
          titled ''Outcome'' (outcome_line d),
          titled ''Failure detail'' (failure_block d trace_budget)] @
         (if given test_source then [titled ''Test source'' (fenced (strip (the test_source)))] else []) @
         [titled ''Execution history'' (history_summary d),
          titled ''Detector signals'' (signals_summary d)] @
         (if diff_text \<noteq> []
          then [titled ''Change under test (only files this failure mentions)'' diff_text] else []) @
         [titled ''Task'' (''Classify the most likely cause. Cite evidence from the sections '' @
            ''above. Answer UNKNOWN if the evidence does not distinguish one cause.'')]))"

definition build_prefilter_context :: "detection \<Rightarrow> nat \<Rightarrow> string" where
  "build_prefilter_context d trace_budget =
     join [LF]
       [''Test: '' @ display_name (d_identity d),
        ''Outcome: '' @ (case d_latest_outcome d of None \<Rightarrow> ''?'' | Some r \<Rightarrow> outcome_value r),
        failure_block d trace_budget,
        ''Signals: '' @ (let codes = join '', '' (signal_codes d) in if codes \<noteq> [] then codes else ''none'')]"

section \<open>The budget of a trace\<close>

lemma used_by_simps [simp]:
  "used_by [] = 0" "used_by (l # ls) = length l + 1 + used_by ls" "used_by (ls @ ms) = used_by ls + used_by ms"
  by (simp_all add: used_by_def)

lemma head_lines_fit: "used \<le> head_budget \<Longrightarrow> used + used_by (head_lines head_budget used ls) \<le> head_budget"
proof (induction ls arbitrary: used)
  case (Cons l ls)
  show ?case
  proof (cases "head_budget < used + length l + 1")
    case True
    with Cons.prems show ?thesis by simp
  next
    case False
    then show ?thesis using Cons.IH [of "used + length l + 1"] by simp
  qed
qed simp

lemma head_lines_prefix: "prefix (head_lines head_budget used ls) ls"
  by (induction ls arbitrary: used) auto

lemma tail_lines_fit: "used_by (tail_lines remaining ls) \<le> remaining"
proof (induction remaining ls rule: tail_lines.induct)
  case (2 remaining line rest)
  show ?case
  proof (cases "is_noise_line line \<or> \<not> looks_like_project_line line")
    case True
    with "2.IH"(1) show ?thesis by simp
  next
    case False
    show ?thesis
    proof (cases "remaining < length line + 1")
      case True
      with False show ?thesis by simp
    next
      case fits: False
      have "used_by (tail_lines (remaining - (length line + 1)) rest) \<le> remaining - (length line + 1)"
        by (rule "2.IH"(2) [OF False fits])
      then show ?thesis using False fits by simp
    qed
  qed
qed simp

lemma tail_lines_kept:
  "subseq (tail_lines remaining ls) ls \<and>
   list_all (\<lambda>l. looks_like_project_line l \<and> \<not> is_noise_line l) (tail_lines remaining ls)"
proof (induction remaining ls rule: tail_lines.induct)
  case (2 remaining line rest)
  show ?case
  proof (cases "is_noise_line line \<or> \<not> looks_like_project_line line")
    case True
    with "2.IH"(1) show ?thesis by auto
  next
    case False
    with "2.IH"(2) [OF False] show ?thesis by simp
  qed
qed simp

lemma length_join: "ls \<noteq> [] \<Longrightarrow> length (join [c] ls) + 1 = used_by ls"
proof (induction ls rule: induct_list012)
  case (3 x y zs)
  then show ?case by simp
qed simp_all

lemma length_join_le: "length (join [c] ls) \<le> used_by ls"
  using length_join [of ls c] by (cases ls) auto

text \<open>
  A trace sent to the model is bounded and nothing in it is invented: it is at most the
  budget long, plus the one line that marks the omission, and when it was cut it consists of the
  first lines of the trace and, after that mark, of project frames from the rest in their order.
\<close>

theorem truncated_trace_bounded:
  "length (truncate_trace (Some t) budget) \<le> budget + length OMITTED \<and>
   (\<exists>head tail. truncate_trace (Some t) budget \<in>
      {strip t, join [LF] head, join [LF] (head @ [OMITTED] @ tail)} \<and>
      prefix head (splitlines (strip t)) \<and>
      subseq tail (drop (length head) (splitlines (strip t))) \<and>
      list_all (\<lambda>l. looks_like_project_line l \<and> \<not> is_noise_line l) tail)"
proof -
  define ls where "ls = splitlines (strip t)"
  define head where "head = head_lines (budget * 3 div 5) 0 ls"
  define tail where "tail = tail_lines (budget - used_by head) (drop (length head) ls)"
  have cut: "truncate_trace (Some t) budget =
      (if length (strip t) \<le> budget then strip t
       else join [LF] (if tail \<noteq> [] then head @ [OMITTED] @ tail else head))"
    by (simp add: truncate_trace_def Let_def head_def tail_def ls_def)
  have "used_by head \<le> budget * 3 div 5"
    using head_lines_fit [of 0 "budget * 3 div 5" ls] by (simp add: head_def)
  moreover have "used_by tail \<le> budget - used_by head"
    unfolding tail_def by (rule tail_lines_fit)
  ultimately have fit: "used_by head + used_by tail \<le> budget" by linarith
  have "length (join [LF] (head @ [OMITTED] @ tail)) + 1 = used_by (head @ [OMITTED] @ tail)"
    by (rule length_join) simp
  with fit have "length (join [LF] (head @ [OMITTED] @ tail)) \<le> budget + length OMITTED"
    by simp
  moreover have "length (join [LF] head) \<le> budget"
    using length_join_le [of LF head] fit by linarith
  ultimately have "length (truncate_trace (Some t) budget) \<le> budget + length OMITTED"
    unfolding cut by (simp add: trans_le_add1)
  moreover have "prefix head ls" by (simp add: head_def head_lines_prefix)
  moreover note tail_lines_kept [of "budget - used_by head" "drop (length head) ls"]
  moreover have "truncate_trace (Some t) budget \<in>
      {strip t, join [LF] head, join [LF] (head @ [OMITTED] @ tail)}"
    unfolding cut by simp
  ultimately show ?thesis
    unfolding ls_def [symmetric] tail_def [symmetric] by blast
qed

text \<open>
  The head is lost when its first line alone is too long: such a trace keeps project frames only,
  and nothing at all when it has none.
\<close>

lemma long_first_line_is_dropped:
  assumes "splitlines (strip t) = l # ls" and "budget * 3 div 5 \<le> length l" and "budget < length (strip t)"
    and "list_all (\<lambda>l. is_noise_line l \<or> \<not> looks_like_project_line l) (l # ls)"
  shows "truncate_trace (Some t) budget = []"
proof -
  have "tail_lines r ms = []" if "list_all (\<lambda>l. is_noise_line l \<or> \<not> looks_like_project_line l) ms" for r ms
    using that by (induction r ms rule: tail_lines.induct) auto
  then show ?thesis
    using assms by (auto simp: truncate_trace_def Let_def)
qed

end
