(* ===== verification/Schema.thy ===== *)
theory Schema
  imports Models "HOL-Library.Monad_Syntax"
begin

text \<open>
  The classifier's output contract (\<open>classify/schema.py\<close>): validation of the untrusted answer and
  the guardrails. The JSON decoder is the parameter \<open>loads\<close> (\<open>None\<close> for a \<open>ValueError\<close>). Pydantic's
  validation is written out for the fields used, in its lax mode, as documented; the conversion of a
  numeric string is the parameter \<open>coerce\<close>.
\<close>

section \<open>JSON values\<close>

datatype json =
  JNull | JBool bool | JNum float_value | JStr string | JArr "json list"
| JObj "(string \<times> json) list"

definition MAX_REASONING_CHARS :: nat where "MAX_REASONING_CHARS = 600"
definition MAX_ACTION_CHARS :: nat where "MAX_ACTION_CHARS = 400"
definition MAX_EVIDENCE_ITEMS :: nat where "MAX_EVIDENCE_ITEMS = 6"
definition MAX_EVIDENCE_CHARS :: nat where "MAX_EVIDENCE_CHARS = 300"

section \<open>The untrusted answer\<close>

record raw_classification =
  rc_cause :: cause_code
  rc_confidence :: pyfloat
  rc_reasoning :: string
  rc_evidence :: "string list"
  rc_suggested_action :: string
  rc_abstained :: bool

definition as_cause :: "json \<Rightarrow> cause_code option" where
  "as_cause j = (case j of JStr s \<Rightarrow> List.find (\<lambda>c. cause_value c = s) all_causes | _ \<Rightarrow> None)"

definition as_confidence :: "(string \<Rightarrow> float_value option) \<Rightarrow> json \<Rightarrow> pyfloat option" where
  "as_confidence coerce j =
     (case (case j of JNum v \<Rightarrow> Some v | JBool b \<Rightarrow> Some (FFinite (if b then 1 else 0))
            | JStr s \<Rightarrow> coerce s | _ \<Rightarrow> None) of
        Some (FFinite x) \<Rightarrow> if 0 \<le> x \<and> x \<le> 1 then Some x else None
      | _ \<Rightarrow> None)"

definition as_string :: "nat option \<Rightarrow> json \<Rightarrow> string option" where
  "as_string limit j =
     (case j of
        JStr s \<Rightarrow> if (case limit of None \<Rightarrow> True | Some n \<Rightarrow> length s \<le> n) then Some s else None
      | _ \<Rightarrow> None)"

definition as_strings :: "json \<Rightarrow> string list option" where
  "as_strings j =
     (case j of
        JArr js \<Rightarrow> if list_all (\<lambda>x. as_string None x \<noteq> None) js
                   then Some (List.map_filter (as_string None) js) else None
      | _ \<Rightarrow> None)"

definition TRUE_WORDS :: "string list" where
  "TRUE_WORDS = [''1'', ''t'', ''true'', ''y'', ''yes'', ''on'']"

definition FALSE_WORDS :: "string list" where
  "FALSE_WORDS = [''0'', ''f'', ''false'', ''n'', ''no'', ''off'']"

definition as_bool :: "json \<Rightarrow> bool option" where
  "as_bool j =
     (case j of
        JBool b \<Rightarrow> Some b
      | JNum (FFinite x) \<Rightarrow> if x = 0 then Some False else if x = 1 then Some True else None
      | JStr s \<Rightarrow> if str_lower s \<in> set TRUE_WORDS then Some True
                  else if str_lower s \<in> set FALSE_WORDS then Some False else None
      | _ \<Rightarrow> None)"

definition model_validate ::
  "(string \<Rightarrow> float_value option) \<Rightarrow> (string \<times> json) list \<Rightarrow> raw_classification option" where
  "model_validate coerce payload =
     (let get = (\<lambda>k. map_of payload k) in do {
        c \<leftarrow> Option.bind (get ''cause'') as_cause;
        p \<leftarrow> Option.bind (get ''confidence'') (as_confidence coerce);
        r \<leftarrow> Option.bind (get ''reasoning'') (as_string (Some MAX_REASONING_CHARS));
        e \<leftarrow> Option.bind (get ''evidence'') as_strings;
        a \<leftarrow> Option.bind (get ''suggested_action'') (as_string (Some MAX_ACTION_CHARS));
        b \<leftarrow> Option.bind (get ''abstained'') as_bool;
        Some \<lparr>rc_cause = c, rc_confidence = p, rc_reasoning = r, rc_evidence = e,
              rc_suggested_action = a, rc_abstained = b\<rparr>})"

section \<open>Guardrails\<close>

definition abstain :: "downgrade_reason \<Rightarrow> string \<Rightarrow> string \<Rightarrow> string \<Rightarrow> classification" where
  "abstain reason model prompt_version detail =
     \<lparr>cl_cause = UNKNOWN, cl_confidence = 0, cl_reasoning = detail, cl_evidence = [],
      cl_suggested_action = [], cl_abstained = True, cl_downgrade_reason = reason,
      cl_model = model, cl_prompt_version = prompt_version\<rparr>"

text \<open>The loop of \<open>_clean_evidence\<close>: it stops once enough items are kept.\<close>

fun clean_evidence_loop :: "string list \<Rightarrow> string list \<Rightarrow> string list" where
  "clean_evidence_loop [] cleaned = cleaned"
| "clean_evidence_loop (item # items) cleaned =
     (let t = strip item;
          cleaned' = (if t \<noteq> [] then cleaned @ [take MAX_EVIDENCE_CHARS t] else cleaned)
      in if MAX_EVIDENCE_ITEMS \<le> length cleaned' then cleaned' else clean_evidence_loop items cleaned')"

definition clean_evidence :: "string list \<Rightarrow> string list" where
  "clean_evidence items = clean_evidence_loop items []"

definition apply_guardrails ::
  "pyfloat \<Rightarrow> string \<Rightarrow> string \<Rightarrow> raw_classification \<Rightarrow> classification" where
  "apply_guardrails confidence_floor model prompt_version raw =
     (let evidence = clean_evidence (rc_evidence raw) in
      if rc_abstained raw \<or> rc_cause raw = UNKNOWN
      then \<lparr>cl_cause = UNKNOWN, cl_confidence = rc_confidence raw, cl_reasoning = rc_reasoning raw,
            cl_evidence = evidence, cl_suggested_action = rc_suggested_action raw,
            cl_abstained = True,
            cl_downgrade_reason = (if rc_abstained raw then MODEL_ABSTAINED else NO_DOWNGRADE),
            cl_model = model, cl_prompt_version = prompt_version\<rparr>
      else if evidence = [] then abstain NO_EVIDENCE model prompt_version (rc_reasoning raw)
      else if rc_confidence raw < confidence_floor
      then abstain BELOW_CONFIDENCE_FLOOR model prompt_version (rc_reasoning raw)
      else \<lparr>cl_cause = rc_cause raw, cl_confidence = rc_confidence raw,
            cl_reasoning = rc_reasoning raw, cl_evidence = evidence,
            cl_suggested_action = rc_suggested_action raw, cl_abstained = False,
            cl_downgrade_reason = NO_DOWNGRADE, cl_model = model,
            cl_prompt_version = prompt_version\<rparr>)"

text \<open>Python's three backticks.\<close>

definition FENCE :: string where
  "FENCE = replicate 3 CHR 0x60"

definition strip_code_fence :: "string \<Rightarrow> string" where
  "strip_code_fence t =
     (let stripped = strip t in
      if \<not> startswith stripped FENCE then stripped
      else
        let ls = splitlines stripped;
            body = (if 2 < length ls \<and> startswith (strip (last ls)) FENCE
                    then butlast (tl ls) else tl ls)
        in strip (join [LF] body))"

definition parse_and_validate ::
  "(string \<Rightarrow> json option) \<Rightarrow> (string \<Rightarrow> float_value option) \<Rightarrow> pyfloat \<Rightarrow> string \<Rightarrow> string \<Rightarrow>
   string option \<Rightarrow> classification \<times> string option" where
  "parse_and_validate loads coerce confidence_floor model prompt_version answer =
     (let fail = (\<lambda>reason. (abstain reason model prompt_version [], answer)) in
      case answer of
        None \<Rightarrow> fail EMPTY_RESPONSE
      | Some t \<Rightarrow>
          if strip t = [] then fail EMPTY_RESPONSE
          else
            case loads (strip_code_fence t) of
              None \<Rightarrow> fail INVALID_JSON
            | Some (JObj payload) \<Rightarrow>
                (case map_of payload ''cause'' of
                   Some (JStr s) \<Rightarrow>
                     if str_upper (strip s) \<notin> cause_value ` set all_causes then fail UNKNOWN_CAUSE
                     else (case model_validate coerce payload of
                             None \<Rightarrow> fail SCHEMA_INVALID
                           | Some raw \<Rightarrow>
                               (apply_guardrails confidence_floor model prompt_version raw, None))
                 | _ \<Rightarrow> (case model_validate coerce payload of
                           None \<Rightarrow> fail SCHEMA_INVALID
                         | Some raw \<Rightarrow>
                             (apply_guardrails confidence_floor model prompt_version raw, None)))
            | Some _ \<Rightarrow> fail SCHEMA_INVALID)"

section \<open>The schema sent to the API\<close>

definition UNSUPPORTED_SCHEMA_KEYWORDS :: "string list" where
  "UNSUPPORTED_SCHEMA_KEYWORDS =
     [''minimum'', ''maximum'', ''exclusiveMinimum'', ''exclusiveMaximum'', ''multipleOf'']"

text \<open>The descriptions, which are prose for the model, are the parameter \<open>description\<close>.\<close>

definition json_schema :: "(string \<Rightarrow> string) \<Rightarrow> json" where
  "json_schema description = JObj
     [(''type'', JStr ''object''),
      (''properties'', JObj
        [(''cause'', JObj [(''type'', JStr ''string''),
           (''enum'', JArr (map (JStr \<circ> cause_value) all_causes)),
           (''description'', JStr (description ''cause''))]),
         (''confidence'', JObj [(''type'', JStr ''number''),
           (''description'', JStr (description ''confidence''))]),
         (''reasoning'', JObj [(''type'', JStr ''string''),
           (''description'', JStr (description ''reasoning''))]),
         (''evidence'', JObj [(''type'', JStr ''array''), (''items'', JObj [(''type'', JStr ''string'')]),
           (''description'', JStr (description ''evidence''))]),
         (''suggested_action'', JObj [(''type'', JStr ''string''),
           (''description'', JStr (description ''suggested_action''))]),
         (''abstained'', JObj [(''type'', JStr ''boolean''),
           (''description'', JStr (description ''abstained''))])]),
      (''required'', JArr (map JStr
        [''cause'', ''confidence'', ''reasoning'', ''evidence'', ''suggested_action'', ''abstained''])),
      (''additionalProperties'', JBool False)]"

section \<open>What the guardrails promise\<close>

lemmas schema_limits =
  MAX_REASONING_CHARS_def MAX_ACTION_CHARS_def MAX_EVIDENCE_ITEMS_def MAX_EVIDENCE_CHARS_def

definition evidence_ok :: "string list \<Rightarrow> bool" where
  "evidence_ok es \<longleftrightarrow> length es \<le> MAX_EVIDENCE_ITEMS \<and>
     list_all (\<lambda>e. e \<noteq> [] \<and> length e \<le> MAX_EVIDENCE_CHARS) es"

lemma clean_evidence_loop_ok:
  "length cleaned < MAX_EVIDENCE_ITEMS \<Longrightarrow> evidence_ok cleaned \<Longrightarrow>
   evidence_ok (clean_evidence_loop items cleaned)"
proof (induction items cleaned rule: clean_evidence_loop.induct)
  case (2 item items cleaned)
  define cleaned' where
    "cleaned' = (if strip item \<noteq> [] then cleaned @ [take MAX_EVIDENCE_CHARS (strip item)] else cleaned)"
  have "evidence_ok cleaned'"
    using "2.prems" by (auto simp: cleaned'_def evidence_ok_def MAX_EVIDENCE_CHARS_def)
  moreover have "length cleaned' < MAX_EVIDENCE_ITEMS \<Longrightarrow> evidence_ok (clean_evidence_loop items cleaned')"
    using "2.IH" [OF refl] calculation unfolding cleaned'_def by (simp add: not_le)
  ultimately show ?case
    by (auto simp: Let_def simp flip: cleaned'_def)
qed simp

lemma clean_evidence_ok: "evidence_ok (clean_evidence items)"
  unfolding clean_evidence_def
  by (rule clean_evidence_loop_ok) (simp_all add: evidence_ok_def MAX_EVIDENCE_ITEMS_def)

text \<open>An answer that names a cause, as a reader may take it.\<close>

definition grounded :: "pyfloat \<Rightarrow> classification \<Rightarrow> bool" where
  "grounded confidence_floor c \<longleftrightarrow>
     cl_cause c \<noteq> UNKNOWN \<and> \<not> cl_abstained c \<and> cl_downgrade_reason c = NO_DOWNGRADE \<and>
     cl_evidence c \<noteq> [] \<and> evidence_ok (cl_evidence c) \<and> confidence_floor \<le> cl_confidence c \<and>
     length (cl_reasoning c) \<le> MAX_REASONING_CHARS \<and>
     length (cl_suggested_action c) \<le> MAX_ACTION_CHARS"

definition withheld :: "classification \<Rightarrow> bool" where
  "withheld c \<longleftrightarrow> cl_cause c = UNKNOWN \<and> cl_abstained c"

definition trusted :: "pyfloat \<Rightarrow> classification \<Rightarrow> bool" where
  "trusted confidence_floor c \<longleftrightarrow>
     valid_classification c \<and> (withheld c \<or> grounded confidence_floor c)"

lemma trusted_abstain: "trusted f (abstain reason model prompt_version detail)"
  by (simp add: trusted_def withheld_def abstain_def valid_classification_def)

lemma validated:
  assumes "model_validate coerce payload = Some raw"
  shows "0 \<le> rc_confidence raw \<and> rc_confidence raw \<le> 1 \<and>
    length (rc_reasoning raw) \<le> MAX_REASONING_CHARS \<and>
    length (rc_suggested_action raw) \<le> MAX_ACTION_CHARS"
proof -
  have conf: "as_confidence coerce j = Some x \<Longrightarrow> 0 \<le> x \<and> x \<le> 1" for j x
    by (auto simp: as_confidence_def split: option.splits float_value.splits json.splits if_splits)
  have str: "as_string (Some n) j = Some s \<Longrightarrow> length s \<le> n" for n j s
    by (auto simp: as_string_def split: json.splits if_splits)
  show ?thesis
    using assms
    by (auto simp: model_validate_def Let_def bind_eq_Some_conv dest!: conf str)
qed

lemma trusted_guardrails:
  assumes "model_validate coerce payload = Some raw"
  shows "trusted f (apply_guardrails f model prompt_version raw)"
  using validated [OF assms] clean_evidence_ok [of "rc_evidence raw"]
  by (auto simp: apply_guardrails_def Let_def trusted_def withheld_def grounded_def abstain_def
      valid_classification_def)

definition validates ::
  "(string \<Rightarrow> json option) \<Rightarrow> (string \<Rightarrow> float_value option) \<Rightarrow> string \<Rightarrow> raw_classification option" where
  "validates loads coerce t =
     (if strip t = [] then None
      else case loads (strip_code_fence t) of
             Some (JObj payload) \<Rightarrow> model_validate coerce payload | _ \<Rightarrow> None)"

lemma cause_known:
  assumes "model_validate coerce payload = Some raw" and "map_of payload ''cause'' = Some (JStr s)"
  shows "str_upper (strip s) \<in> cause_value ` set all_causes"
proof -
  have "as_cause (JStr s) \<noteq> None"
    using assms by (auto simp: model_validate_def Let_def bind_eq_Some_conv)
  then obtain c where c: "c \<in> set all_causes" "cause_value c = s"
    by (auto simp: as_cause_def find_None_iff)
  have "list_all (\<lambda>c. str_upper (strip (cause_value c)) = cause_value c) all_causes"
    by code_simp
  with c show ?thesis by (auto simp: list_all_iff image_iff)
qed

lemma parse_and_validate_eq:
  "parse_and_validate loads coerce f model prompt_version (Some t) =
     (case validates loads coerce t of
        Some raw \<Rightarrow> (apply_guardrails f model prompt_version raw, None)
      | None \<Rightarrow>
          (abstain
             (if strip t = [] then EMPTY_RESPONSE
              else case loads (strip_code_fence t) of
                None \<Rightarrow> INVALID_JSON
              | Some (JObj payload) \<Rightarrow>
                  (case map_of payload ''cause'' of
                     Some (JStr s) \<Rightarrow>
                       if str_upper (strip s) \<notin> cause_value ` set all_causes then UNKNOWN_CAUSE
                       else SCHEMA_INVALID
                   | _ \<Rightarrow> SCHEMA_INVALID)
              | Some _ \<Rightarrow> SCHEMA_INVALID)
             model prompt_version [], Some t))"
  using cause_known
  by (auto simp: parse_and_validate_def validates_def Let_def split: option.splits json.splits)

lemma trusted_parse: "trusted f (fst (parse_and_validate loads coerce f model prompt_version answer))"
proof (cases answer)
  case None
  then show ?thesis by (simp add: parse_and_validate_def Let_def trusted_abstain)
next
  case (Some t)
  show ?thesis
  proof (cases "validates loads coerce t")
    case None
    then show ?thesis by (simp add: Some parse_and_validate_eq trusted_abstain)
  next
    case raw: (Some raw)
    then have "\<exists>payload. model_validate coerce payload = Some raw"
      by (auto simp: validates_def split: if_splits option.splits json.splits)
    then show ?thesis using raw trusted_guardrails by (auto simp: Some parse_and_validate_eq)
  qed
qed


text \<open>Every object key in a JSON value.\<close>

fun schema_keys :: "json \<Rightarrow> string list" where
  "schema_keys (JObj kvs) = map fst kvs @ concat (map (\<lambda>(k, v). schema_keys v) kvs)"
| "schema_keys (JArr js) = concat (map schema_keys js)"
| "schema_keys _ = []"

definition REQUIRED_FIELDS :: "string list" where
  "REQUIRED_FIELDS =
     [''cause'', ''confidence'', ''reasoning'', ''evidence'', ''suggested_action'', ''abstained'']"

lemma map_of_filter_key: "map_of (filter (\<lambda>(k, v). k \<noteq> f) xs) f = None"
  by (induction xs) auto

text \<open>
  The schema handed to the API and the validation of the answer agree, and the API accepts it:
  no keyword it rejects occurs anywhere in the schema, the object is closed, every property is
  required, and the properties are exactly the fields without any one of which validation fails.
\<close>

theorem schema_matches_validation:
  "set (schema_keys (json_schema description)) \<inter> set UNSUPPORTED_SCHEMA_KEYWORDS = {} \<and>
   (case json_schema description of
      JObj kvs \<Rightarrow>
        map_of kvs ''additionalProperties'' = Some (JBool False) \<and>
        map_of kvs ''required'' = Some (JArr (map JStr REQUIRED_FIELDS)) \<and>
        (case map_of kvs ''properties'' of
           Some (JObj ps) \<Rightarrow> map fst ps = REQUIRED_FIELDS | _ \<Rightarrow> False)
    | _ \<Rightarrow> False) \<and>
   list_all (\<lambda>f. model_validate coerce (filter (\<lambda>(k, v). k \<noteq> f) payload) = None) REQUIRED_FIELDS"
proof (intro conjI)
  show "set (schema_keys (json_schema description)) \<inter> set UNSUPPORTED_SCHEMA_KEYWORDS = {}"
    by (simp add: json_schema_def UNSUPPORTED_SCHEMA_KEYWORDS_def all_causes_def)
  show "case json_schema description of
      JObj kvs \<Rightarrow>
        map_of kvs ''additionalProperties'' = Some (JBool False) \<and>
        map_of kvs ''required'' = Some (JArr (map JStr REQUIRED_FIELDS)) \<and>
        (case map_of kvs ''properties'' of
           Some (JObj ps) \<Rightarrow> map fst ps = REQUIRED_FIELDS | _ \<Rightarrow> False)
    | _ \<Rightarrow> False"
    by (simp add: json_schema_def REQUIRED_FIELDS_def)
  show "list_all (\<lambda>f. model_validate coerce (filter (\<lambda>(k, v). k \<noteq> f) payload) = None) REQUIRED_FIELDS"
    by (simp add: REQUIRED_FIELDS_def model_validate_def Let_def map_of_filter_key)
qed

end
