(* ===== verification/Result_Cache.thy ===== *)
theory Result_Cache
  imports Schema "HOL-Library.AList"
begin

text \<open>
  The content-addressed cache of classifications (\<open>classify/cache.py\<close>) and the price table
  (\<open>classify/pricing.py\<close>). A cache directory is the map from key to the file stored under it, which
  holds a classification or does not parse; \<open>cache_writable\<close> says where the file system accepts a
  write. The hash function is the parameter \<open>sha256\<close>.
\<close>

section \<open>The program\<close>

datatype cache_entry = Readable classification | Corrupt

record cache_state =
  cache_enabled :: bool
  cache_entries :: "string \<Rightarrow> cache_entry option"
  cache_writable :: "string \<Rightarrow> bool"
  cache_hits :: nat
  cache_misses :: nat
  cache_writes :: nat

definition CACHE_FORMAT_VERSION :: nat where
  "CACHE_FORMAT_VERSION = 1"

definition context_key :: "(string \<Rightarrow> string) \<Rightarrow> string \<Rightarrow> string \<Rightarrow> string \<Rightarrow> string" where
  "context_key sha256 context model prompt_version =
     sha256 (join [CHR 0x1F] [show_nat CACHE_FORMAT_VERSION, model, prompt_version, context])"

definition cache_path :: "string \<Rightarrow> string \<Rightarrow> string" where
  "cache_path dir key = dir @ ''/'' @ take 2 key @ ''/'' @ key @ ''.json''"

definition is_cacheable :: "classification \<Rightarrow> bool" where
  "is_cacheable c \<longleftrightarrow> cl_downgrade_reason c \<notin> {API_ERROR, BUDGET_EXHAUSTED, LLM_DISABLED}"

definition cache_get :: "string \<Rightarrow> cache_state \<Rightarrow> classification option \<times> cache_state" where
  "cache_get key s =
     (if \<not> cache_enabled s then (None, s)
      else
        case cache_entries s key of
          None \<Rightarrow> (None, s\<lparr>cache_misses := cache_misses s + 1\<rparr>)
        | Some Corrupt \<Rightarrow>
            (None, s\<lparr>cache_entries := (cache_entries s)(key := None), cache_misses := cache_misses s + 1\<rparr>)
        | Some (Readable c) \<Rightarrow> (Some c, s\<lparr>cache_hits := cache_hits s + 1\<rparr>))"

definition cache_put :: "string \<Rightarrow> classification \<Rightarrow> cache_state \<Rightarrow> cache_state" where
  "cache_put key c s =
     (if \<not> cache_enabled s \<or> \<not> is_cacheable c then s
      else if cache_writable s key
      then s\<lparr>cache_entries := (cache_entries s)(key \<mapsto> Readable c), cache_writes := cache_writes s + 1\<rparr>
      else s)"

definition hit_rate :: "cache_state \<Rightarrow> pyfloat" where
  "hit_rate s =
     (let lookups = cache_hits s + cache_misses s in
      if lookups \<noteq> 0 then of_nat (cache_hits s) / of_nat lookups else 0)"

type_synonym cost_table = "(string \<times> (pyfloat \<times> pyfloat)) list"

definition cost_table_from_config :: "(string \<times> pyfloat list) list \<Rightarrow> cost_table" where
  "cost_table_from_config prices =
     fold (\<lambda>(name, v). AList.update (str_lower name) v)
       (fold (\<lambda>(model, pair). case pair of [i, out] \<Rightarrow> AList.update model (i, out) | _ \<Rightarrow> id) prices []) []"

definition price_for :: "cost_table \<Rightarrow> string \<Rightarrow> (pyfloat \<times> pyfloat) option" where
  "price_for prices model =
     (let key = str_lower model in
      case map_of prices key of
        Some v \<Rightarrow> Some v
      | None \<Rightarrow> map_option snd (List.find (\<lambda>(name, v). startswith key name \<or> startswith name key) prices))"

definition cost_usd :: "cost_table \<Rightarrow> string \<Rightarrow> nat \<Rightarrow> nat \<Rightarrow> pyfloat" where
  "cost_usd prices model input_tokens output_tokens =
     (case price_for prices model of
        None \<Rightarrow> 0
      | Some (input_price, output_price) \<Rightarrow>
          (of_nat input_tokens * input_price + of_nat output_tokens * output_price) / 1000000)"

section \<open>What a client may rely on\<close>

text \<open>
  The contract of a cache of answers: a stored answer is found again, storing under one key leaves
  the answers under the others, and looking up changes no answer.
\<close>

locale answer_cache =
  fixes get :: "string \<Rightarrow> 's \<Rightarrow> classification option \<times> 's"
    and put :: "string \<Rightarrow> classification \<Rightarrow> 's \<Rightarrow> 's"
    and accepts :: "string \<Rightarrow> 's \<Rightarrow> bool"
  assumes get_put: "accepts k s \<Longrightarrow> is_cacheable c \<Longrightarrow> fst (get k (put k c s)) = Some c"
    and get_put_other: "k \<noteq> k' \<Longrightarrow> fst (get k (put k' c s)) = fst (get k s)"
    and get_get: "fst (get k (snd (get k' s))) = fst (get k s)"
    and put_refused: "\<not> (accepts k s \<and> is_cacheable c) \<Longrightarrow> put k c s = s"
    and accepts_put: "accepts k (put k' c s) = accepts k s"
    and accepts_get: "accepts k (snd (get k' s)) = accepts k s"
begin

lemma get_after_puts:
  "k \<notin> fst ` set kcs \<Longrightarrow> fst (get k (fold (\<lambda>(k, c). put k c) kcs s)) = fst (get k s)"
proof (induction kcs arbitrary: s)
  case (Cons kc kcs)
  obtain k' c where kc: "kc = (k', c)" by (cases kc)
  with Cons.prems have "k \<notin> fst ` set kcs" "k \<noteq> k'" by auto
  then show ?case using Cons.IH [of "put k' c s"] by (simp add: kc get_put_other)
qed simp

text \<open>An answer once stored is served until something is stored under the same key.\<close>

lemma served:
  assumes "accepts k s" and "is_cacheable c" and "k \<notin> fst ` set kcs"
  shows "fst (get k (snd (get k' (fold (\<lambda>(k, c). put k c) kcs (put k c s))))) = Some c"
  by (simp add: get_get get_after_puts [OF assms(3)] get_put [OF assms(1,2)])

text \<open>A predicate of answers that every stored answer satisfies holds of every answer served.\<close>

lemma served_satisfies:
  assumes "\<And>c. fst (get k s) = Some c \<Longrightarrow> P c" and "P c'"
    and "fst (get k (put k' c' s)) = Some c"
  shows "P c"
proof (cases "k = k' \<and> accepts k' s \<and> is_cacheable c'")
  case True
  then show ?thesis using assms get_put [of k s c'] by simp
next
  case False
  then have "fst (get k (put k' c' s)) = fst (get k s)"
    using get_put_other [of k k' c' s] put_refused [of k' s c'] by auto
  with assms show ?thesis by auto
qed

end

interpretation file_cache: answer_cache cache_get cache_put
  "\<lambda>k s. cache_enabled s \<and> cache_writable s k"
  by unfold_locales (auto simp: cache_get_def cache_put_def split: option.split cache_entry.split)

section \<open>Prices\<close>

definition nonnegative_prices :: "cost_table \<Rightarrow> bool" where
  "nonnegative_prices prices \<longleftrightarrow> list_all (\<lambda>(m, i, out). 0 \<le> i \<and> 0 \<le> out) prices"

lemma price_for_mem: "price_for prices model = Some v \<Longrightarrow> v \<in> snd ` set prices"
  by (force simp: price_for_def Let_def find_Some_iff dest: map_of_SomeD nth_mem split: option.splits)

lemma cost_nonnegative: "nonnegative_prices prices \<Longrightarrow> 0 \<le> cost_usd prices model i out"
  by (cases "price_for prices model")
    (fastforce simp: cost_usd_def nonnegative_prices_def list_all_iff dest: price_for_mem)+

end
