(* ===== verification/Classifier.thy ===== *)
theory Classifier
  imports Prompt Result_Cache Config
begin

text \<open>
  Classification orchestration (\<open>classify/classifier.py\<close>): cache, budget, prefilter, one call, one
  repair. The model is the parameter \<open>ce_client\<close>, an arbitrary function of the number of calls made
  so far and of the request, so its answers may change from call to call; the JSON decoder, the hash
  and the fixed prompt texts are parameters too. Logging is left out.
\<close>

section \<open>The program\<close>

datatype call_kind = PREFILTER | CLASSIFY | REPAIR

fun kind_value :: "call_kind \<Rightarrow> string" where
  "kind_value PREFILTER = ''prefilter''"
| "kind_value CLASSIFY = ''classify''"
| "kind_value REPAIR = ''repair''"

record model_response =
  mr_text :: "string option"
  mr_input_tokens :: nat
  mr_output_tokens :: nat
  mr_latency_ms :: pyfloat
  mr_error :: "string option"

record model_request =
  rq_model :: string
  rq_system :: string
  rq_user :: string
  rq_max_tokens :: nat
  rq_temperature :: pyfloat
  rq_schema :: json

record call_record =
  cr_kind :: call_kind
  cr_model :: string
  cr_input_tokens :: nat
  cr_output_tokens :: nat
  cr_latency_ms :: pyfloat
  cr_cost_usd :: pyfloat
  cr_cache_hit :: bool
  cr_schema_valid :: bool
  cr_error :: "string option"

record prompt_texts =
  pt_version :: string
  pt_system :: string
  pt_prefilter_system :: string
  pt_repair :: "string \<Rightarrow> string"
  pt_description :: "string \<Rightarrow> string"

record classifier_env =
  ce_client :: "(nat \<Rightarrow> model_request \<Rightarrow> model_response) option"
  ce_config :: classify_config
  ce_costs :: cost_table
  ce_budget_usd :: pyfloat
  ce_texts :: prompt_texts
  ce_loads :: "string \<Rightarrow> json option"
  ce_coerce :: "string \<Rightarrow> float_value option"
  ce_sha256 :: "string \<Rightarrow> string"

record classifier_state =
  cs_calls :: "call_record list"
  cs_cache_hits :: nat
  cs_cache_misses :: nat
  cs_prefiltered :: nat
  cs_repairs_attempted :: nat
  cs_repairs_succeeded :: nat
  cs_schema_failures :: nat
  cs_budget_exhausted_count :: nat
  cs_cache_hit_ids :: "nat set"
  cs_cache :: "cache_state option"

definition new_classifier :: "cache_state option \<Rightarrow> classifier_state" where
  "new_classifier cache =
     \<lparr>cs_calls = [], cs_cache_hits = 0, cs_cache_misses = 0, cs_prefiltered = 0,
      cs_repairs_attempted = 0, cs_repairs_succeeded = 0, cs_schema_failures = 0,
      cs_budget_exhausted_count = 0, cs_cache_hit_ids = {}, cs_cache = cache\<rparr>"

definition total_cost_usd :: "classifier_state \<Rightarrow> pyfloat" where
  "total_cost_usd s = sum_list (map cr_cost_usd (cs_calls s))"

definition api_calls :: "classifier_state \<Rightarrow> nat" where
  "api_calls s = length (cs_calls s)"

definition cache_hit_rate :: "classifier_state \<Rightarrow> pyfloat" where
  "cache_hit_rate s =
     (let lookups = cs_cache_hits s + cs_cache_misses s in
      if lookups \<noteq> 0 then of_nat (cs_cache_hits s) / of_nat lookups else 0)"

definition latencies_ms :: "classifier_state \<Rightarrow> call_kind option \<Rightarrow> pyfloat list" where
  "latencies_ms s kind =
     map cr_latency_ms (filter (\<lambda>r. kind = None \<or> kind = Some (cr_kind r)) (cs_calls s))"

definition budget_remaining_usd :: "classifier_env \<Rightarrow> classifier_state \<Rightarrow> pyfloat" where
  "budget_remaining_usd env s = max (ce_budget_usd env - total_cost_usd s) 0"

definition cache_model_id :: "classifier_env \<Rightarrow> string" where
  "cache_model_id env =
     (let config = ce_config env in
      if \<not> prefilter_enabled config then classifier_model config
      else classifier_model config @ ''+gate:'' @ prefilter_model config)"

definition mean_classify_cost :: "classifier_state \<Rightarrow> pyfloat" where
  "mean_classify_cost s =
     (let billed = map cr_cost_usd (filter (\<lambda>r. cr_kind r \<in> {CLASSIFY, REPAIR}) (cs_calls s)) in
      if billed \<noteq> [] then sum_list billed / of_nat (length billed) else 0)"

definition would_exceed_budget :: "classifier_env \<Rightarrow> classifier_state \<Rightarrow> bool" where
  "would_exceed_budget env s =
     (let spent = total_cost_usd s; estimate = mean_classify_cost s in
      if ce_budget_usd env \<le> spent then True
      else 0 < estimate \<and> ce_budget_usd env < spent + estimate)"

definition call_model ::
  "classifier_env \<Rightarrow> (nat \<Rightarrow> model_request \<Rightarrow> model_response) \<Rightarrow> call_kind \<Rightarrow> string \<Rightarrow> string \<Rightarrow> string \<Rightarrow>
   nat option \<Rightarrow> json option \<Rightarrow> classifier_state \<Rightarrow> model_response \<times> classifier_state" where
  "call_model env client kind model system user max_tokens schema s =
     (let response = client (length (cs_calls s))
            \<lparr>rq_model = model, rq_system = system, rq_user = user,
             rq_max_tokens = (case max_tokens of Some n \<Rightarrow> if n \<noteq> 0 then n else max_output_tokens (ce_config env)
                              | None \<Rightarrow> max_output_tokens (ce_config env)),
             rq_temperature = temperature (ce_config env),
             rq_schema = (case schema of None \<Rightarrow> json_schema (pt_description (ce_texts env)) | Some j \<Rightarrow> j)\<rparr>
      in (response,
          s\<lparr>cs_calls := cs_calls s @
              [\<lparr>cr_kind = kind, cr_model = model, cr_input_tokens = mr_input_tokens response,
                cr_output_tokens = mr_output_tokens response, cr_latency_ms = mr_latency_ms response,
                cr_cost_usd = cost_usd (ce_costs env) model (mr_input_tokens response)
                  (mr_output_tokens response),
                cr_cache_hit = False, cr_schema_valid = True, cr_error = mr_error response\<rparr>]\<rparr>))"

definition PREFILTER_SCHEMA :: "(string \<Rightarrow> string) \<Rightarrow> json" where
  "PREFILTER_SCHEMA description = JObj
     [(''type'', JStr ''object''),
      (''properties'', JObj [(''classifiable'', JObj [(''type'', JStr ''boolean''),
         (''description'', JStr (description ''classifiable''))])]),
      (''required'', JArr [JStr ''classifiable'']),
      (''additionalProperties'', JBool False)]"

definition read_prefilter_verdict :: "(string \<Rightarrow> json option) \<Rightarrow> string \<Rightarrow> bool" where
  "read_prefilter_verdict loads t =
     (case loads (strip t) of
        Some (JObj kvs) \<Rightarrow>
          (case map_of kvs ''classifiable'' of Some (JBool b) \<Rightarrow> b | _ \<Rightarrow> True)
      | _ \<Rightarrow> True)"

definition prefilter ::
  "classifier_env \<Rightarrow> (nat \<Rightarrow> model_request \<Rightarrow> model_response) \<Rightarrow> detection \<Rightarrow> classifier_state \<Rightarrow>
   bool \<times> classifier_state" where
  "prefilter env client d s =
     (let (response, s') = call_model env client PREFILTER (prefilter_model (ce_config env))
            (pt_prefilter_system (ce_texts env)) (build_prefilter_context d 600)
            (Some (prefilter_max_output_tokens (ce_config env)))
            (Some (PREFILTER_SCHEMA (pt_description (ce_texts env)))) s
      in (case (mr_error response, mr_text response) of
            (None, Some t) \<Rightarrow> if t = [] then True else read_prefilter_verdict (ce_loads env) t
          | _ \<Rightarrow> True, s'))"

definition validate ::
  "classifier_env \<Rightarrow> string \<Rightarrow> string option \<Rightarrow> classification \<times> string option" where
  "validate env model answer =
     parse_and_validate (ce_loads env) (ce_coerce env) (confidence_floor (ce_config env)) model
       (pt_version (ce_texts env)) answer"

definition MALFORMED_SAMPLE_CHARS :: nat where
  "MALFORMED_SAMPLE_CHARS = 800"

definition api_failure :: "classifier_env \<Rightarrow> string \<Rightarrow> string \<Rightarrow> string \<Rightarrow> classification" where
  "api_failure env model what error =
     abstain API_ERROR model (pt_version (ce_texts env)) (what @ '' call failed: '' @ error)"

text \<open>The second half of \<open>_classify_with_repair\<close>: the repair call and its validation.\<close>

definition repair_once ::
  "classifier_env \<Rightarrow> (nat \<Rightarrow> model_request \<Rightarrow> model_response) \<Rightarrow> string \<Rightarrow> string \<Rightarrow> downgrade_reason \<Rightarrow>
   string option \<Rightarrow> classifier_state \<Rightarrow> classification \<times> classifier_state" where
  "repair_once env client context_text model reason previous s =
     (let repair_prompt = context_text @ [LF, LF] @ pt_repair (ce_texts env) (downgrade_value reason) @
            [LF, LF] @ ''Your previous response was:'' @ [LF] @
            take MALFORMED_SAMPLE_CHARS (case previous of None \<Rightarrow> [] | Some t \<Rightarrow> t);
          (response, s1) = call_model env client REPAIR model (pt_system (ce_texts env)) repair_prompt
            None None s
      in case mr_error response of
           Some e \<Rightarrow> (api_failure env model ''repair'' e, s1)
         | None \<Rightarrow>
             (let (repaired, still_malformed) = validate env model (mr_text response) in
              if still_malformed = None
              then (repaired, s1\<lparr>cs_repairs_succeeded := cs_repairs_succeeded s1 + 1\<rparr>)
              else (abstain SCHEMA_INVALID model (pt_version (ce_texts env))
                      ''model output failed schema validation twice'', s1)))"

definition classify_with_repair ::
  "classifier_env \<Rightarrow> (nat \<Rightarrow> model_request \<Rightarrow> model_response) \<Rightarrow> string \<Rightarrow> string \<Rightarrow> classifier_state \<Rightarrow>
   classification \<times> classifier_state" where
  "classify_with_repair env client context_text model s =
     (let (response, s1) = call_model env client CLASSIFY model (pt_system (ce_texts env)) context_text
            None None s
      in case mr_error response of
           Some e \<Rightarrow> (api_failure env model ''model'' e, s1)
         | None \<Rightarrow>
             (let (c, malformed) = validate env model (mr_text response) in
              if malformed = None then (c, s1)
              else
                let s2 = s1\<lparr>cs_schema_failures := cs_schema_failures s1 + 1,
                            cs_repairs_attempted := cs_repairs_attempted s1 + 1\<rparr>
                in if would_exceed_budget env s2
                   then (abstain BUDGET_EXHAUSTED model (pt_version (ce_texts env))
                           ''schema repair skipped: budget exhausted'', s2)
                   else repair_once env client context_text model (cl_downgrade_reason c)
                          (mr_text response) s2))"

definition store_result :: "string \<Rightarrow> classification \<Rightarrow> classifier_state \<Rightarrow> classifier_state" where
  "store_result key c s = s\<lparr>cs_cache := map_option (cache_put key c) (cs_cache s)\<rparr>"

definition fmt_usd :: "pyfloat \<Rightarrow> string" where
  "fmt_usd x = (if x < 0 then ''-'' @ fmt_fixed 2 (- x) else fmt_fixed 2 x)"

text \<open>Everything after the cache lookup: budget, gate, call, store.\<close>

definition classify_fresh ::
  "classifier_env \<Rightarrow> (nat \<Rightarrow> model_request \<Rightarrow> model_response) \<Rightarrow> string \<Rightarrow> string \<Rightarrow> detection \<Rightarrow>
   classifier_state \<Rightarrow> classification \<times> classifier_state" where
  "classify_fresh env client context_text key d s =
     (let config = ce_config env; version = pt_version (ce_texts env) in
      if would_exceed_budget env s
      then (abstain BUDGET_EXHAUSTED (classifier_model config) version
              (''per-invocation budget of $'' @ fmt_usd (ce_budget_usd env) @ '' is exhausted''),
            s\<lparr>cs_budget_exhausted_count := cs_budget_exhausted_count s + 1\<rparr>)
      else
        let (go, s1) = (if prefilter_enabled config then prefilter env client d s else (True, s)) in
        if \<not> go
        then (let r = abstain PREFILTERED (prefilter_model config) version
                    ''the cheap triage gate found no specific evidence to classify''
              in (r, store_result key r (s1\<lparr>cs_prefiltered := cs_prefiltered s1 + 1\<rparr>)))
        else (let (r, s2) = classify_with_repair env client context_text (classifier_model config) s1
              in (r, store_result key r s2)))"

definition cache_lookup :: "string \<Rightarrow> nat \<Rightarrow> classifier_state \<Rightarrow> classification option \<times> classifier_state" where
  "cache_lookup key identity_id s =
     (case cs_cache s of
        None \<Rightarrow> (None, s)
      | Some cache \<Rightarrow>
          (let (found, cache') = cache_get key cache; s' = s\<lparr>cs_cache := Some cache'\<rparr> in
           case found of
             Some c \<Rightarrow> (Some c, s'\<lparr>cs_cache_hits := cs_cache_hits s' + 1,
                                   cs_cache_hit_ids := insert identity_id (cs_cache_hit_ids s')\<rparr>)
           | None \<Rightarrow> (None, s'\<lparr>cs_cache_misses := cs_cache_misses s' + 1\<rparr>)))"

definition classify_key :: "classifier_env \<Rightarrow> detection \<Rightarrow> diff_summary option \<Rightarrow> string" where
  "classify_key env d diff =
     context_key (ce_sha256 env) (build_context d diff (trace_budget_chars (ce_config env)) None)
       (cache_model_id env) (pt_version (ce_texts env))"

definition classify ::
  "classifier_env \<Rightarrow> diff_summary option \<Rightarrow> detection \<Rightarrow> classifier_state \<Rightarrow>
   classification \<times> classifier_state" where
  "classify env diff d s =
     (case ce_client env of
        None \<Rightarrow> (abstain LLM_DISABLED [] (pt_version (ce_texts env)) ''classification was not requested'', s)
      | Some client \<Rightarrow>
          let context_text = build_context d diff (trace_budget_chars (ce_config env)) None;
              key = classify_key env d diff
          in case cache_lookup key (d_identity_id d) s of
               (Some cached, s') \<Rightarrow> (cached, s')
             | (None, s') \<Rightarrow> classify_fresh env client context_text key d s')"

text \<open>The loop of \<open>classify_many\<close>: \<open>index\<close> counts the detections done; the results are a dict.\<close>

fun classify_loop ::
  "classifier_env \<Rightarrow> diff_summary option \<Rightarrow> nat \<Rightarrow> nat \<Rightarrow> detection list \<Rightarrow>
   (nat \<times> classification) list \<times> classifier_state \<Rightarrow> (nat \<times> classification) list \<times> classifier_state" where
  "classify_loop env diff limit index [] (results, s) = (results, s)"
| "classify_loop env diff limit index (d # ds) (results, s) =
     (if limit \<le> index
      then classify_loop env diff limit (index + 1) ds
             (AList.update (d_identity_id d)
                (abstain BUDGET_EXHAUSTED [] (pt_version (ce_texts env))
                   (''beyond the per-invocation cap of '' @ show_nat limit @ '' tests'')) results, s)
      else (let (c, s') = classify env diff d s in
            classify_loop env diff limit (index + 1) ds (AList.update (d_identity_id d) c results, s')))"

definition classify_many ::
  "classifier_env \<Rightarrow> diff_summary option \<Rightarrow> nat option \<Rightarrow> detection list \<Rightarrow> classifier_state \<Rightarrow>
   (nat \<times> classification) list \<times> classifier_state" where
  "classify_many env diff max_tests_given ds s =
     classify_loop env diff (case max_tests_given of None \<Rightarrow> max_tests (ce_config env) | Some n \<Rightarrow> n) 0
       (sort_desc priority ds) ([], s)"

section \<open>Calls and the budget\<close>

text \<open>What one step may do to the call log: append calls, at most \<open>n\<close>, and spend at most \<open>c\<close> on each.\<close>

definition call_cost_bound :: "classifier_env \<Rightarrow> pyfloat \<Rightarrow> bool" where
  "call_cost_bound env c \<longleftrightarrow> 0 \<le> c \<and>
     (\<forall>client n rq m. ce_client env = Some client \<longrightarrow>
        cost_usd (ce_costs env) m (mr_input_tokens (client n rq)) (mr_output_tokens (client n rq)) \<le> c)"

lemma call_model_spends:
  assumes "call_model env client kind model system user mt schema s = (r, s')"
  shows "api_calls s' = api_calls s + 1 \<and> cs_cache s' = cs_cache s \<and>
    (ce_client env = Some client \<and> call_cost_bound env c \<longrightarrow> total_cost_usd s' \<le> total_cost_usd s + c)"
  using assms
  by (auto simp: call_model_def Let_def api_calls_def total_cost_usd_def call_cost_bound_def)

lemma counters_only [simp]:
  "api_calls (s\<lparr>cs_repairs_succeeded := n\<rparr>) = api_calls s"
  "total_cost_usd (s\<lparr>cs_repairs_succeeded := n\<rparr>) = total_cost_usd s"
  "api_calls (s\<lparr>cs_schema_failures := m, cs_repairs_attempted := n\<rparr>) = api_calls s"
  "total_cost_usd (s\<lparr>cs_schema_failures := m, cs_repairs_attempted := n\<rparr>) = total_cost_usd s"
  "api_calls (s\<lparr>cs_prefiltered := n\<rparr>) = api_calls s"
  "total_cost_usd (s\<lparr>cs_prefiltered := n\<rparr>) = total_cost_usd s"
  "api_calls (s\<lparr>cs_budget_exhausted_count := n\<rparr>) = api_calls s"
  "total_cost_usd (s\<lparr>cs_budget_exhausted_count := n\<rparr>) = total_cost_usd s"
  "api_calls (store_result k r s) = api_calls s"
  "total_cost_usd (store_result k r s) = total_cost_usd s"
  by (simp_all add: api_calls_def total_cost_usd_def store_result_def)

lemma cache_lookup_calls [simp]:
  "api_calls (snd (cache_lookup k i s)) = api_calls s"
  "total_cost_usd (snd (cache_lookup k i s)) = total_cost_usd s"
  by (simp_all add: cache_lookup_def Let_def api_calls_def total_cost_usd_def split: option.split prod.split)

lemma within_budget: "\<not> would_exceed_budget env s \<Longrightarrow> total_cost_usd s < ce_budget_usd env"
  by (auto simp: would_exceed_budget_def Let_def split: if_splits)

lemma repair_once_spends:
  assumes "repair_once env client ctx model reason previous s = (r, s')"
  shows "api_calls s' = api_calls s + 1 \<and> cs_cache s' = cs_cache s \<and>
    (ce_client env = Some client \<and> call_cost_bound env c \<longrightarrow> total_cost_usd s' \<le> total_cost_usd s + c)"
  using assms
  by (auto simp: repair_once_def Let_def split: prod.splits option.splits if_splits
      dest!: call_model_spends [where c = c])

lemma classify_with_repair_spends:
  assumes "classify_with_repair env client ctx model s = (r, s')"
  shows "api_calls s' \<le> api_calls s + 2 \<and> cs_cache s' = cs_cache s \<and>
    (ce_client env = Some client \<and> call_cost_bound env c \<longrightarrow>
       total_cost_usd s' \<le> max (total_cost_usd s) (ce_budget_usd env) + c)"
proof -
  obtain resp s1 where one:
    "call_model env client CLASSIFY model (pt_system (ce_texts env)) ctx None None s = (resp, s1)"
    by fastforce
  note spent = call_model_spends [OF one, of c]
  define s2 where "s2 = s1\<lparr>cs_schema_failures := cs_schema_failures s1 + 1,
      cs_repairs_attempted := cs_repairs_attempted s1 + 1\<rparr>"
  have s2: "api_calls s2 = api_calls s1" "total_cost_usd s2 = total_cost_usd s1" "cs_cache s2 = cs_cache s1"
    by (simp_all add: s2_def)
  have "s' = s1 \<or> s' = s2 \<or> (\<not> would_exceed_budget env s2 \<and>
      (\<exists>reason. repair_once env client ctx model reason (mr_text resp) s2 = (r, s')))"
    using assms unfolding classify_with_repair_def one s2_def
    by (auto simp: Let_def split: option.splits prod.splits if_splits)
  then consider "api_calls s' = api_calls s1 \<and> total_cost_usd s' = total_cost_usd s1 \<and> cs_cache s' = cs_cache s1"
    | reason where "\<not> would_exceed_budget env s2"
      "repair_once env client ctx model reason (mr_text resp) s2 = (r, s')"
    using s2 by auto
  then show ?thesis
  proof cases
    case 1
    then show ?thesis using spent by auto
  next
    case 2
    then show ?thesis
      using spent s2 within_budget [OF 2(1)] repair_once_spends [OF 2(2), of c] by auto
  qed
qed

lemma prefilter_spends:
  assumes "prefilter env client d s = (go, s')"
  shows "api_calls s' = api_calls s + 1 \<and> cs_cache s' = cs_cache s \<and>
    (ce_client env = Some client \<and> call_cost_bound env c \<longrightarrow> total_cost_usd s' \<le> total_cost_usd s + c)"
  using assms
  by (auto simp: prefilter_def Let_def split: prod.splits dest!: call_model_spends [where c = c])

lemma classify_fresh_spends:
  assumes "classify_fresh env client ctx key d s = (r, s')"
  shows "api_calls s' \<le> api_calls s + 3 \<and>
    (ce_client env = Some client \<and> call_cost_bound env c \<longrightarrow>
       total_cost_usd s' \<le> max (total_cost_usd s) (ce_budget_usd env + 2 * c))"
proof (cases "would_exceed_budget env s")
  case True
  then show ?thesis using assms by (auto simp: classify_fresh_def Let_def)
next
  case False
  define config where "config = ce_config env"
  obtain go s1 where gate:
    "(if prefilter_enabled config then prefilter env client d s else (True, s)) = (go, s1)" by fastforce
  then have g: "api_calls s1 \<le> api_calls s + 1 \<and>
      (ce_client env = Some client \<and> call_cost_bound env c \<longrightarrow> total_cost_usd s1 \<le> total_cost_usd s + c)"
    using prefilter_spends [of env client d s go s1 c]
    by (auto simp: call_cost_bound_def split: if_splits)
  note less = within_budget [OF False]
  show ?thesis
  proof (cases go)
    case False
    then have "api_calls s' = api_calls s1" "total_cost_usd s' = total_cost_usd s1"
      using assms \<open>\<not> would_exceed_budget env s\<close> gate
      by (auto simp: classify_fresh_def Let_def config_def)
    then show ?thesis using g less by (auto simp: call_cost_bound_def)
  next
    case True
    obtain r2 s2 where two:
      "classify_with_repair env client ctx (classifier_model config) s1 = (r2, s2)" by fastforce
    then have "api_calls s' = api_calls s2" "total_cost_usd s' = total_cost_usd s2"
      using True assms \<open>\<not> would_exceed_budget env s\<close> gate
      by (auto simp: classify_fresh_def Let_def config_def)
    then show ?thesis
      using g less classify_with_repair_spends [OF two, of c] by (auto simp: call_cost_bound_def)
  qed
qed

lemma classify_spends:
  assumes "classify env diff d s = (r, s')"
  shows "api_calls s' \<le> api_calls s + 3 \<and>
    (call_cost_bound env c \<longrightarrow> total_cost_usd s' \<le> max (total_cost_usd s) (ce_budget_usd env + 2 * c))"
proof (cases "ce_client env")
  case None
  then show ?thesis using assms by (auto simp: classify_def)
next
  case (Some client)
  obtain found s1 where look: "cache_lookup (classify_key env d diff) (d_identity_id d) s = (found, s1)"
    by fastforce
  then have same: "api_calls s1 = api_calls s" "total_cost_usd s1 = total_cost_usd s"
    using cache_lookup_calls [of "classify_key env d diff" "d_identity_id d" s] by simp_all
  show ?thesis
  proof (cases found)
    case None
    then have "classify_fresh env client (build_context d diff (trace_budget_chars (ce_config env)) None)
        (classify_key env d diff) d s1 = (r, s')"
      using assms look Some by (simp add: classify_def Let_def)
    from classify_fresh_spends [OF this, of c] Some same show ?thesis by simp
  next
    case (Some cached)
    then show ?thesis using assms look same \<open>ce_client env = Some client\<close>
      by (auto simp: classify_def Let_def)
  qed
qed

lemma classify_loop_spends:
  assumes "classify_loop env diff limit index ds (results, s) = (results', s')"
  shows "api_calls s' \<le> api_calls s + 3 * min (length ds) (limit - index) \<and>
    (call_cost_bound env c \<longrightarrow> total_cost_usd s' \<le> max (total_cost_usd s) (ce_budget_usd env + 2 * c))"
  using assms
proof (induction ds arbitrary: index results s)
  case (Cons d ds)
  show ?case
  proof (cases "limit \<le> index")
    case True
    with Cons.prems have "classify_loop env diff limit (index + 1) ds
        (AList.update (d_identity_id d)
                (abstain BUDGET_EXHAUSTED [] (pt_version (ce_texts env))
                   (''beyond the per-invocation cap of '' @ show_nat limit @ '' tests'')) results, s) =
        (results', s')" by simp
    from Cons.IH [OF this] True show ?thesis by simp
  next
    case False
    obtain r s1 where one: "classify env diff d s = (r, s1)" by fastforce
    with Cons.prems False have "classify_loop env diff limit (index + 1) ds
        (AList.update (d_identity_id d) r results, s1) = (results', s')" by simp
    note IH = Cons.IH [OF this] and step = classify_spends [OF one, of c]
    have "min (length (d # ds)) (limit - index) = Suc (min (length ds) (limit - (index + 1)))"
      using False by simp
    with IH step show ?thesis by auto
  qed
qed simp

text \<open>
  C11. The model bill is bounded: a batch makes at most three calls for each test within the cap,
  and if no single call costs more than \<open>c\<close>, the total never exceeds the ceiling by
  more than two calls (or what had been spent before). The documented bound of one call does not
  hold: the gate and the classification are two calls behind one check.
\<close>

theorem spending_is_bounded:
  assumes "call_cost_bound env c"
    and "classify_many env diff max_tests_given ds s = (results, s')"
  shows "total_cost_usd s' \<le> max (total_cost_usd s) (ce_budget_usd env + 2 * c) \<and>
    api_calls s' \<le> api_calls s + 3 * min (length ds)
      (case max_tests_given of None \<Rightarrow> max_tests (ce_config env) | Some n \<Rightarrow> n)"
  using classify_loop_spends [OF assms(2) [unfolded classify_many_def], of c] assms(1) by simp

text \<open>A client whose every call costs one dollar, in front of a decoder that reads nothing.\<close>

definition dollar_env :: "pyfloat \<Rightarrow> classifier_env" where
  "dollar_env budget =
     \<lparr>ce_client = Some (\<lambda>n rq. \<lparr>mr_text = Some ''text'', mr_input_tokens = 0, mr_output_tokens = 1,
        mr_latency_ms = 0, mr_error = None\<rparr>),
      ce_config = default_classify_config, ce_costs = [(''claude'', (0, 1000000))],
      ce_budget_usd = budget,
      ce_texts = \<lparr>pt_version = ''v'', pt_system = [], pt_prefilter_system = [], pt_repair = (\<lambda>r. r),
        pt_description = (\<lambda>d. [])\<rparr>,
      ce_loads = (\<lambda>t. None), ce_coerce = (\<lambda>t. None), ce_sha256 = (\<lambda>t. t)\<rparr>"

lemma dollar_call:
  "cost_usd (ce_costs (dollar_env b)) m 0 (Suc 0) \<le> 1"
  "m \<in> {''claude-haiku-4-5-20251001'', ''claude-sonnet-5''} \<Longrightarrow>
   cost_usd (ce_costs (dollar_env b)) m 0 (Suc 0) = 1"
proof -
  have l: "str_lower ''claude-haiku-4-5-20251001'' = ''claude-haiku-4-5-20251001''"
    "str_lower ''claude-sonnet-5'' = ''claude-sonnet-5''" by code_simp+
  show "cost_usd (ce_costs (dollar_env b)) m 0 (Suc 0) \<le> 1"
    by (auto simp: cost_usd_def dollar_env_def price_for_def Let_def split: if_splits)
  show "m \<in> {''claude-haiku-4-5-20251001'', ''claude-sonnet-5''} \<Longrightarrow>
     cost_usd (ce_costs (dollar_env b)) m 0 (Suc 0) = 1"
    by (auto simp: cost_usd_def dollar_env_def price_for_def Let_def l startswith_def)
qed

lemma dollar_run:
  "total_cost_usd (snd (classify_many (dollar_env (1 / 2)) None None [flaky_detection] (new_classifier None))) = 2"
proof -
  have models: "prefilter_model default_classify_config = ''claude-haiku-4-5-20251001''"
    "classifier_model default_classify_config = ''claude-sonnet-5''"
    "prefilter_enabled default_classify_config" "max_tests default_classify_config = 25"
    by (simp_all add: default_classify_config_def)
  have env: "ce_client (dollar_env b) = Some (\<lambda>n rq. \<lparr>mr_text = Some ''text'', mr_input_tokens = 0,
        mr_output_tokens = 1, mr_latency_ms = 0, mr_error = None\<rparr>)"
    "ce_config (dollar_env b) = default_classify_config" "ce_budget_usd (dollar_env b) = b"
    "ce_loads (dollar_env b) = (\<lambda>t. None)" for b
    by (simp_all add: dollar_env_def)
  have "strip ''text'' = ''text''" by code_simp
  then show ?thesis
    by (simp add: classify_many_def sort_desc_def env models classify_def cache_lookup_def new_classifier_def
        classify_fresh_def would_exceed_budget_def total_cost_usd_def mean_classify_cost_def prefilter_def
        call_model_def read_prefilter_verdict_def classify_with_repair_def validate_def parse_and_validate_def
        store_result_def Let_def dollar_call(2))
qed

theorem spending_is_bounded_witness:
  "total_cost_usd (snd (classify_many (dollar_env (1 / 2)) None None [flaky_detection] (new_classifier None)))
     \<le> max 0 (1 / 2 + 2 * 1) \<and>
   1 / 2 + 1 < total_cost_usd
     (snd (classify_many (dollar_env (1 / 2)) None None [flaky_detection] (new_classifier None)))"
proof -
  have bound: "call_cost_bound (dollar_env (1 / 2)) 1"
    using dollar_call(1) by (auto simp: call_cost_bound_def dollar_env_def)
  have zero: "total_cost_usd (new_classifier None) = 0" "ce_budget_usd (dollar_env (1 / 2)) = 1 / 2"
    by (simp_all add: new_classifier_def total_cost_usd_def dollar_env_def)
  show ?thesis
    using conjunct1 [OF spending_is_bounded [OF bound surjective_pairing, of None None "[flaky_detection]" "new_classifier None"]]
    unfolding zero dollar_run by simp
qed

section \<open>Every answer given is trustworthy\<close>

definition cache_trusted :: "pyfloat \<Rightarrow> classifier_state \<Rightarrow> bool" where
  "cache_trusted f s \<longleftrightarrow>
     (\<forall>ch k c. cs_cache s = Some ch \<longrightarrow> fst (cache_get k ch) = Some c \<longrightarrow> trusted f c)"

lemma cache_trusted_same: "cs_cache s' = cs_cache s \<Longrightarrow> cache_trusted f s' = cache_trusted f s"
  by (simp add: cache_trusted_def)

lemma cache_trusted_store:
  "cache_trusted f s \<Longrightarrow> trusted f c \<Longrightarrow> cache_trusted f (store_result key c s)"
  unfolding cache_trusted_def store_result_def
  by (auto intro: file_cache.served_satisfies)

lemma trusted_validate:
  "validate env model answer = (c, malformed) \<Longrightarrow> trusted (confidence_floor (ce_config env)) c"
  unfolding validate_def by (metis fst_conv trusted_parse)

lemma repair_once_trusted:
  "repair_once env client ctx model reason previous s = (r, s') \<Longrightarrow>
   trusted (confidence_floor (ce_config env)) r"
  by (auto simp: repair_once_def Let_def api_failure_def trusted_abstain dest: trusted_validate
      split: prod.splits option.splits if_splits)

lemma classify_with_repair_trusted:
  "classify_with_repair env client ctx model s = (r, s') \<Longrightarrow>
   trusted (confidence_floor (ce_config env)) r"
  by (auto simp: classify_with_repair_def Let_def api_failure_def trusted_abstain
      dest: trusted_validate repair_once_trusted split: prod.splits option.splits if_splits)

lemma classify_fresh_trusted:
  assumes "classify_fresh env client ctx key d s = (r, s')"
    and "cache_trusted (confidence_floor (ce_config env)) s"
  shows "trusted (confidence_floor (ce_config env)) r \<and> cache_trusted (confidence_floor (ce_config env)) s'"
proof (cases "would_exceed_budget env s")
  case True
  then show ?thesis using assms
    by (auto simp: classify_fresh_def Let_def trusted_abstain cache_trusted_def)
next
  case False
  obtain go s1 where gate:
    "(if prefilter_enabled (ce_config env) then prefilter env client d s else (True, s)) = (go, s1)" by fastforce
  then have "cs_cache s1 = cs_cache s"
    using prefilter_spends [of env client d s go s1] by (auto split: if_splits)
  then have s1: "cache_trusted (confidence_floor (ce_config env)) s1"
    using assms(2) cache_trusted_same by blast
  show ?thesis
  proof (cases go)
    case False
    have "cache_trusted (confidence_floor (ce_config env)) (s1\<lparr>cs_prefiltered := cs_prefiltered s1 + 1\<rparr>)"
      using s1 by (simp add: cache_trusted_def)
    then show ?thesis
      using False assms(1) \<open>\<not> would_exceed_budget env s\<close> gate
      by (auto simp: classify_fresh_def Let_def trusted_abstain cache_trusted_store)
  next
    case True
    obtain r2 s2 where two:
      "classify_with_repair env client ctx (classifier_model (ce_config env)) s1 = (r2, s2)" by fastforce
    have "trusted (confidence_floor (ce_config env)) r2"
      by (rule classify_with_repair_trusted [OF two])
    moreover have "cache_trusted (confidence_floor (ce_config env)) s2"
      using classify_with_repair_spends [OF two] s1 cache_trusted_same by blast
    ultimately show ?thesis
      using True two assms(1) \<open>\<not> would_exceed_budget env s\<close> gate
      by (auto simp: classify_fresh_def Let_def cache_trusted_store)
  qed
qed

lemma cache_lookup_trusted:
  assumes "cache_lookup key i s = (found, s')" and "cache_trusted f s"
  shows "pred_option (trusted f) found \<and> cache_trusted f s'"
proof (cases "cs_cache s")
  case None
  then show ?thesis using assms by (auto simp: cache_lookup_def)
next
  case (Some ch)
  obtain hit ch' where get: "cache_get key ch = (hit, ch')" by fastforce
  then have "found = hit" "cs_cache s' = Some ch'"
    using assms(1) Some by (auto simp: cache_lookup_def Let_def split: option.splits)
  moreover have "fst (cache_get k ch') = fst (cache_get k ch)" for k
    using file_cache.get_get [of k key ch] get by simp
  moreover have "pred_option (trusted f) hit"
    using assms(2) Some get by (cases hit) (auto simp: cache_trusted_def dest: spec [of _ key])
  ultimately show ?thesis
    using assms(2) Some by (simp add: cache_trusted_def)
qed

lemma classify_trusted:
  assumes "classify env diff d s = (r, s')" and "cache_trusted (confidence_floor (ce_config env)) s"
  shows "trusted (confidence_floor (ce_config env)) r \<and> cache_trusted (confidence_floor (ce_config env)) s'"
proof (cases "ce_client env")
  case None
  then show ?thesis using assms by (auto simp: classify_def trusted_abstain)
next
  case (Some client)
  obtain found s1 where look: "cache_lookup (classify_key env d diff) (d_identity_id d) s = (found, s1)"
    by fastforce
  note t = cache_lookup_trusted [OF look assms(2)]
  show ?thesis
  proof (cases found)
    case None
    then have "classify_fresh env client (build_context d diff (trace_budget_chars (ce_config env)) None)
        (classify_key env d diff) d s1 = (r, s')"
      using assms look Some by (simp add: classify_def Let_def)
    from classify_fresh_trusted [OF this] t show ?thesis by simp
  next
    case (Some cached)
    then show ?thesis using assms look t \<open>ce_client env = Some client\<close>
      by (auto simp: classify_def Let_def)
  qed
qed

lemma classify_loop_results:
  assumes "classify_loop env diff limit index ds (results, s) = (results', s')"
    and "cache_trusted (confidence_floor (ce_config env)) s"
    and "list_all (\<lambda>(i, c). trusted (confidence_floor (ce_config env)) c) results"
    and "distinct (map fst results)"
  shows "fst ` set results' = fst ` set results \<union> d_identity_id ` set ds \<and>
    list_all (\<lambda>(i, c). trusted (confidence_floor (ce_config env)) c) results' \<and>
    distinct (map fst results') \<and> cache_trusted (confidence_floor (ce_config env)) s'"
  using assms
proof (induction ds arbitrary: index results s)
  case (Cons d ds)
  have upd: "list_all (\<lambda>(i, c). trusted f c) (AList.update k c al)"
    if "list_all (\<lambda>(i, c). trusted f c) al" "trusted f c" for f k c and al :: "(nat \<times> classification) list"
    using that by (induction al) auto
  have keys: "fst ` set (AList.update k c al) = insert k (fst ` set al)" for k c and al :: "(nat \<times> classification) list"
    using dom_update [of k c al] by (simp add: dom_map_of_conv_image_fst)
  show ?case
  proof (cases "limit \<le> index")
    case True
    let ?c = "abstain BUDGET_EXHAUSTED [] (pt_version (ce_texts env))
                   (''beyond the per-invocation cap of '' @ show_nat limit @ '' tests'')"
    have "classify_loop env diff limit (index + 1) ds (AList.update (d_identity_id d) ?c results, s) =
        (results', s')"
      using Cons.prems(1) True by simp
    from Cons.IH [OF this Cons.prems(2)] show ?thesis
      using Cons.prems(3,4) by (simp add: upd keys trusted_abstain distinct_update)
  next
    case False
    obtain c s1 where one: "classify env diff d s = (c, s1)" by fastforce
    with Cons.prems(1) False have "classify_loop env diff limit (index + 1) ds
        (AList.update (d_identity_id d) c results, s1) = (results', s')" by simp
    from Cons.IH [OF this] show ?thesis
      using classify_trusted [OF one Cons.prems(2)] Cons.prems(3,4) by (simp add: upd keys distinct_update)
  qed
qed auto

text \<open>A classifier that has a cache keeps it.\<close>

lemma calls_keep_cache:
  "prefilter env client d s = (go, s') \<Longrightarrow> cs_cache s' = cs_cache s"
  "classify_with_repair env client ctx model s = (r, s') \<Longrightarrow> cs_cache s' = cs_cache s"
  using prefilter_spends classify_with_repair_spends by blast+

lemma classify_keeps_cache:
  assumes "classify env diff d s = (r, s')"
  shows "cs_cache s' = None \<longleftrightarrow> cs_cache s = None"
proof -
  have fresh: "cs_cache s' = None \<longleftrightarrow> cs_cache s = None"
    if "classify_fresh env client ctx key d s = (r, s')" for client ctx key s
    using that
    by (auto simp: classify_fresh_def store_result_def Let_def dest!: calls_keep_cache
        split: prod.splits if_splits)
  have "cs_cache (snd (cache_lookup key i s)) = None \<longleftrightarrow> cs_cache s = None" for key i
    by (simp add: cache_lookup_def Let_def split: option.split prod.split)
  then show ?thesis
    using assms fresh by (auto simp: classify_def Let_def split: option.splits prod.splits) (metis snd_conv)+
qed

lemma classify_loop_keeps_cache:
  "classify_loop env diff limit index ds (results, s) = (results', s') \<Longrightarrow>
   cs_cache s' = None \<longleftrightarrow> cs_cache s = None"
proof (induction ds arbitrary: index results s)
  case (Cons d ds)
  show ?case
  proof (cases "limit \<le> index")
    case False
    obtain c s1 where one: "classify env diff d s = (c, s1)" by fastforce
    with Cons.prems False show ?thesis
      using Cons.IH [of _ _ s1] classify_keeps_cache [OF one] by simp
  qed (use Cons in simp)
qed simp

text \<open>
  C10. A batch answers for every test and every answer can be trusted: the results have exactly
  one entry for each detection's identity, those beyond the cap included, and whatever the model
  returns, however often it fails, each entry is an explicit abstention or names a cause with
  evidence and a confidence above the floor, provided this holds of what the cache had stored; and
  it then still holds of the cache.
\<close>

theorem batch_answers_everything:
  assumes "classify_many env diff max_tests_given ds s = (results, s')"
    and "cache_trusted (confidence_floor (ce_config env)) s"
  shows "fst ` set results = d_identity_id ` set ds \<and> distinct (map fst results) \<and>
    list_all (\<lambda>(i, c). trusted (confidence_floor (ce_config env)) c) results \<and>
    cache_trusted (confidence_floor (ce_config env)) s'"
  using classify_loop_results [OF assms(1) [unfolded classify_many_def] assms(2)] by simp

lemma new_classifier_trusted: "cache_trusted f (new_classifier None)"
  by (simp add: cache_trusted_def new_classifier_def)

theorem batch_answers_everything_witness:
  "fst ` set (fst (classify_many (dollar_env (1 / 2)) None (Some 0) [flaky_detection] (new_classifier None))) = {1}"
  using batch_answers_everything [OF surjective_pairing new_classifier_trusted,
      where env = "dollar_env (1 / 2)" and diff = None and max_tests_given = "Some 0" and ds = "[flaky_detection]"]
  by (simp add: flaky_detection_def)

section \<open>Repeats are free, whatever the floor\<close>

definition with_floor :: "pyfloat \<Rightarrow> classifier_env \<Rightarrow> classifier_env" where
  "with_floor f env = env\<lparr>ce_config := (ce_config env)\<lparr>confidence_floor := f\<rparr>\<rparr>"

lemma with_floor_simps [simp]:
  "ce_client (with_floor f env) = ce_client env" "classify_key (with_floor f env) d diff = classify_key env d diff"
  by (simp_all add: with_floor_def classify_key_def cache_model_id_def Let_def)

lemma classify_hit:
  assumes "ce_client env = Some client" and "cs_cache s = Some ch"
    and "fst (cache_get (classify_key env d diff) ch) = Some c"
  shows "\<exists>s2. classify env diff d s = (c, s2) \<and> cs_calls s2 = cs_calls s \<and>
    cs_cache s2 = Some (snd (cache_get (classify_key env d diff) ch))"
  using assms by (auto simp: classify_def cache_lookup_def Let_def split: prod.split)

lemma classify_fresh_stored:
  assumes "classify_fresh env client ctx key d s = (c, s')" and "is_cacheable c" and "cs_cache s = Some ch"
  shows "cs_cache s' = Some (cache_put key c ch)"
proof -
  have go: "\<not> would_exceed_budget env s"
    using assms by (auto simp: classify_fresh_def Let_def is_cacheable_def abstain_def)
  obtain g s1 where gate:
    "(if prefilter_enabled (ce_config env) then prefilter env client d s else (True, s)) = (g, s1)" by fastforce
  then have "cs_cache s1 = Some ch"
    using prefilter_spends [of env client d s g s1] assms(3) by (auto split: if_splits)
  moreover obtain r2 s2 where two:
    "classify_with_repair env client ctx (classifier_model (ce_config env)) s1 = (r2, s2)" by fastforce
  moreover have "cs_cache s2 = cs_cache s1"
    using classify_with_repair_spends [OF two] by blast
  ultimately show ?thesis
    using assms(1) go gate by (cases g) (auto simp: classify_fresh_def Let_def store_result_def)
qed

lemma classify_fresh_cache:
  assumes "classify_fresh env client ctx key d s = (c, s')" and "cs_cache s = Some ch"
  shows "cs_cache s' = Some (cache_put key c ch)"
proof (cases "is_cacheable c")
  case True
  then show ?thesis using classify_fresh_stored [OF assms(1) True assms(2)] by simp
next
  case False
  then have put: "cache_put key c ch = ch" by (simp add: cache_put_def)
  show ?thesis
  proof (cases "would_exceed_budget env s")
    case True
    then show ?thesis using assms put by (auto simp: classify_fresh_def Let_def)
  next
    case go: False
    obtain g s1 where gate:
      "(if prefilter_enabled (ce_config env) then prefilter env client d s else (True, s)) = (g, s1)" by fastforce
    then have "cs_cache s1 = Some ch"
      using prefilter_spends [of env client d s g s1] assms(2) by (auto split: if_splits)
    moreover obtain r2 s2 where two:
      "classify_with_repair env client ctx (classifier_model (ce_config env)) s1 = (r2, s2)" by fastforce
    moreover have "cs_cache s2 = cs_cache s1"
      using classify_with_repair_spends [OF two] by blast
    ultimately show ?thesis
      using assms(1) go gate put by (cases g) (auto simp: classify_fresh_def Let_def store_result_def)
  qed
qed

text \<open>What one classification does to the answers in the cache.\<close>

lemma classify_cache:
  assumes "ce_client env = Some client" and "cs_cache s = Some ch" and "classify env diff d s = (c, s1)"
  defines "k \<equiv> classify_key env d diff"
  shows "cs_cache s1 = Some (case fst (cache_get k ch) of
      None \<Rightarrow> cache_put k c (snd (cache_get k ch)) | Some _ \<Rightarrow> snd (cache_get k ch))"
proof (cases "fst (cache_get k ch)")
  case None
  obtain s0 where s0: "cache_lookup k (d_identity_id d) s = (None, s0)" "cs_cache s0 = Some (snd (cache_get k ch))"
    using None assms(2) by (cases "cache_get k ch") (auto simp: cache_lookup_def Let_def)
  then have "classify_fresh env client (build_context d diff (trace_budget_chars (ce_config env)) None) k d s0 = (c, s1)"
    using assms(1,3) by (simp add: classify_def Let_def k_def)
  from classify_fresh_cache [OF this s0(2)] None show ?thesis by auto
next
  case (Some c')
  then show ?thesis using classify_hit [OF assms(1,2), of d diff c'] assms(3) by (auto simp: k_def)
qed

lemma classify_leaves_answer:
  assumes "ce_client env = Some client" and "cs_cache s = Some ch" and "cache_enabled ch"
    and "cache_writable ch (classify_key env d diff)" and "classify env diff d s = (c, s1)" and "is_cacheable c"
  shows "\<exists>ch1. cs_cache s1 = Some ch1 \<and> fst (cache_get (classify_key env d diff) ch1) = Some c"
proof (cases "fst (cache_get (classify_key env d diff) ch)")
  case None
  let ?k = "classify_key env d diff"
  have "cs_cache s1 = Some (cache_put ?k c (snd (cache_get ?k ch)))"
    using classify_cache [OF assms(1,2,5)] None by simp
  moreover have "fst (cache_get ?k (cache_put ?k c (snd (cache_get ?k ch)))) = Some c"
    using file_cache.accepts_get [where k = ?k and k' = ?k and s = ch] assms(3,4) by (intro file_cache.get_put assms(6)) simp
  ultimately show ?thesis by blast
next
  case (Some c')
  then show ?thesis
    using classify_hit [OF assms(1,2), of d diff c'] assms(5) by (auto simp: file_cache.get_get)
qed

text \<open>A result that is not transient is in the cache afterwards, and stays there.\<close>

lemma classify_keeps_answer:
  assumes "ce_client env = Some client" and "cs_cache s = Some ch" and "classify env diff d s = (c, s1)"
    and "fst (cache_get k ch) = Some c'"
  shows "\<exists>ch1. cs_cache s1 = Some ch1 \<and> fst (cache_get k ch1) = Some c'"
proof -
  let ?k = "classify_key env d diff"
  have same: "fst (cache_get k (snd (cache_get ?k ch))) = Some c'"
    using file_cache.get_get [of k ?k ch] assms(4) by simp
  show ?thesis
  proof (cases "fst (cache_get ?k ch)")
    case None
    with assms(4) have "k \<noteq> ?k" by auto
    with None same show ?thesis
      using classify_cache [OF assms(1-3)] file_cache.get_put_other [of k ?k c] by simp
  next
    case (Some a)
    with same show ?thesis using classify_cache [OF assms(1-3)] by simp
  qed
qed

text \<open>
  C12. The same evidence is never paid for twice: once a test got an answer that is not transient
  and the cache accepts it, classifying the same context again gives the same answer without a
  call. The confidence floor is not part of the key, so this holds for any floor \<open>f\<close>
  in force the second time: raising it does not withdraw the answers already stored.
\<close>

theorem repeat_is_free:
  assumes "cs_cache s = Some ch" and "cache_enabled ch" and "cache_writable ch (classify_key env d diff)"
    and "classify env diff d s = (c, s1)" and "is_cacheable c"
  shows "fst (classify (with_floor f env) diff d s1) = c \<and>
    cs_calls (snd (classify (with_floor f env) diff d s1)) = cs_calls s1"
proof -
  let ?k = "classify_key env d diff"
  obtain client where client: "ce_client env = Some client"
    using assms(4,5) by (cases "ce_client env") (auto simp: classify_def is_cacheable_def abstain_def)
  from classify_leaves_answer [OF client assms] obtain ch2
    where "cs_cache s1 = Some ch2" "fst (cache_get ?k ch2) = Some c" by blast
  then show ?thesis
    using classify_hit [of "with_floor f env" client s1 ch2 d diff c] client by auto
qed

definition stored_answer :: classification where
  "stored_answer =
     \<lparr>cl_cause = RACE_CONDITION, cl_confidence = 6 / 10, cl_reasoning = ''r'', cl_evidence = [''e''],
      cl_suggested_action = [], cl_abstained = False, cl_downgrade_reason = NO_DOWNGRADE,
      cl_model = ''m'', cl_prompt_version = ''v''\<rparr>"

definition warm_cache :: cache_state where
  "warm_cache = \<lparr>cache_enabled = True, cache_entries = (\<lambda>k. Some (Readable stored_answer)),
     cache_writable = (\<lambda>k. True), cache_hits = 0, cache_misses = 0, cache_writes = 0\<rparr>"

theorem repeat_is_free_witness:
  "fst (classify (with_floor (9 / 10) (dollar_env 1)) None flaky_detection
     (snd (classify (dollar_env 1) None flaky_detection (new_classifier (Some warm_cache))))) =
     stored_answer \<and> cl_confidence stored_answer < 9 / 10"
proof -
  have start: "cs_cache (new_classifier (Some warm_cache)) = Some warm_cache"
    by (simp add: new_classifier_def)
  have cache: "cache_enabled warm_cache" "cache_writable warm_cache k"
    "fst (cache_get k warm_cache) = Some stored_answer" for k
    by (simp_all add: warm_cache_def cache_get_def)
  obtain client where "ce_client (dollar_env 1) = Some client"
    by (simp add: dollar_env_def)
  from classify_hit [OF this start cache(3)] obtain s1 where
    one: "classify (dollar_env 1) None flaky_detection (new_classifier (Some warm_cache)) = (stored_answer, s1)"
    by blast
  have "is_cacheable stored_answer"
    by (simp add: is_cacheable_def stored_answer_def)
  from repeat_is_free [OF start cache(1,2) one this, of "9 / 10"] one show ?thesis
    by (simp add: stored_answer_def)
qed

section \<open>A repair without an answer\<close>

text \<open>
  A repair call that returns no text at all counts as a success of the repair, and its empty answer,
  which describes the run and not the evidence, is an answer the cache keeps.
\<close>

lemma empty_repair_counts_as_success:
  assumes "repair_once env client ctx model reason previous s = (r, s')"
    and "\<And>n rq. mr_text (client n rq) = None" and "\<And>n rq. mr_error (client n rq) = None"
  shows "cl_downgrade_reason r = EMPTY_RESPONSE \<and> is_cacheable r \<and>
    cs_repairs_succeeded s' = cs_repairs_succeeded s + 1"
  using assms
  by (auto simp: repair_once_def call_model_def validate_def parse_and_validate_def abstain_def is_cacheable_def
      Let_def)

end
