(* ===== verification/Metrics.thy ===== *)
theory Metrics
  imports Classifier Store_Facts
begin

text \<open>
  Persisted metrics (\<open>obs/metrics.py\<close>, the tables of the second migration in \<open>store/schema.py\<close>,
  \<open>record_metrics\<close>, \<open>latest_classification\<close> and \<open>metrics_summary\<close> of \<open>store/repositories.py\<close>). The
  two tables are lists of rows beside the run store \<open>d\<close>, to whose runs and identities they refer. The
  evidence column holds the list as JSON text; it is kept as the list.
\<close>

section \<open>The program\<close>

record call_metric = call_record +
  cm_prompt_version :: string

definition as_call_metrics :: "string \<Rightarrow> classifier_state \<Rightarrow> call_metric list" where
  "as_call_metrics version s =
     map (\<lambda>r. call_record.extend r (call_metric.fields version)) (cs_calls s)"

record llm_call_row =
  lc_id :: nat
  lc_run_pk :: "nat option"
  lc_call :: call_metric
  lc_created_at :: string

record classification_row =
  cw_id :: nat
  cw_identity_id :: nat
  cw_run_pk :: "nat option"
  cw_commit_sha :: string
  cw_cause :: cause_code
  cw_confidence :: pyfloat
  cw_abstained :: bool
  cw_downgrade_reason :: downgrade_reason
  cw_reasoning :: "string option"
  cw_evidence :: "string list option"
  cw_suggested_action :: "string option"
  cw_model :: string
  cw_prompt_version :: string
  cw_cache_hit :: bool
  cw_created_at :: string

record metrics_db =
  mdb_calls :: "llm_call_row list"
  mdb_classifications :: "classification_row list"

definition nonempty :: "'a list \<Rightarrow> 'a list option" where
  "nonempty xs = (if xs \<noteq> [] then Some xs else None)"

fun call_rows :: "nat \<Rightarrow> nat option \<Rightarrow> string \<Rightarrow> call_metric list \<Rightarrow> llm_call_row list" where
  "call_rows k run_pk now [] = []"
| "call_rows k run_pk now (c # cs) =
     \<lparr>lc_id = k, lc_run_pk = run_pk, lc_call = c, lc_created_at = now\<rparr> # call_rows (Suc k) run_pk now cs"

definition run_known :: "db \<Rightarrow> nat option \<Rightarrow> bool" where
  "run_known d run_pk \<longleftrightarrow> (case run_pk of None \<Rightarrow> True | Some pk \<Rightarrow> run_exists d pk)"

definition record_calls ::
  "db \<Rightarrow> string \<Rightarrow> nat option \<Rightarrow> call_metric list \<Rightarrow> metrics_db \<Rightarrow> db_error + nat \<times> metrics_db" where
  "record_calls d now run_pk calls m =
     (if calls \<noteq> [] \<and> \<not> run_known d run_pk then Inl IntegrityError
      else Inr (length calls, m\<lparr>mdb_calls := mdb_calls m @
             call_rows (next_id lc_id (mdb_calls m)) run_pk now calls\<rparr>))"

definition classification_row_of ::
  "string \<Rightarrow> nat option \<Rightarrow> string \<Rightarrow> nat set \<Rightarrow> nat \<Rightarrow> nat \<times> classification \<Rightarrow> classification_row" where
  "classification_row_of now run_pk commit_sha hits k = (\<lambda>(identity_id, r).
     \<lparr>cw_id = k, cw_identity_id = identity_id, cw_run_pk = run_pk, cw_commit_sha = commit_sha,
      cw_cause = cl_cause r, cw_confidence = cl_confidence r, cw_abstained = cl_abstained r,
      cw_downgrade_reason = cl_downgrade_reason r, cw_reasoning = nonempty (cl_reasoning r),
      cw_evidence = nonempty (cl_evidence r), cw_suggested_action = nonempty (cl_suggested_action r),
      cw_model = cl_model r, cw_prompt_version = cl_prompt_version r,
      cw_cache_hit = (identity_id \<in> hits), cw_created_at = now\<rparr>)"

fun classification_rows ::
  "(nat \<Rightarrow> nat \<times> classification \<Rightarrow> classification_row) \<Rightarrow> nat \<Rightarrow> (nat \<times> classification) list \<Rightarrow>
   classification_row list" where
  "classification_rows f k [] = []"
| "classification_rows f k (r # rs) = f k r # classification_rows f (Suc k) rs"

definition record_classifications ::
  "db \<Rightarrow> string \<Rightarrow> nat option \<Rightarrow> string \<Rightarrow> nat set \<Rightarrow> (nat \<times> classification) list \<Rightarrow> metrics_db \<Rightarrow>
   db_error + nat \<times> metrics_db" where
  "record_classifications d now run_pk commit_sha hits results m =
     (if results \<noteq> [] \<and> \<not> (run_known d run_pk \<and> list_all (\<lambda>(i, r). identity_exists d i) results)
      then Inl IntegrityError
      else Inr (length results, m\<lparr>mdb_classifications := mdb_classifications m @
             classification_rows (classification_row_of now run_pk commit_sha hits)
               (next_id cw_id (mdb_classifications m)) results\<rparr>))"

text \<open>One transaction: when the second write fails nothing of the first is kept.\<close>

definition record_metrics ::
  "db \<Rightarrow> string \<Rightarrow> nat option \<Rightarrow> string \<Rightarrow> nat set \<Rightarrow> call_metric list \<Rightarrow> (nat \<times> classification) list \<Rightarrow>
   metrics_db \<Rightarrow> db_error + (nat \<times> nat) \<times> metrics_db" where
  "record_metrics d now run_pk commit_sha hits calls results m =
     (case record_calls d now run_pk calls m of
        Inl e \<Rightarrow> Inl e
      | Inr (recorded_calls, m1) \<Rightarrow>
          (case record_classifications d now run_pk commit_sha hits results m1 of
             Inl e \<Rightarrow> Inl e
           | Inr (recorded_results, m2) \<Rightarrow> Inr ((recorded_calls, recorded_results), m2)))"

definition classification_of_row :: "classification_row \<Rightarrow> classification" where
  "classification_of_row w =
     \<lparr>cl_cause = cw_cause w, cl_confidence = cw_confidence w,
      cl_reasoning = (case cw_reasoning w of None \<Rightarrow> [] | Some t \<Rightarrow> t),
      cl_evidence = (case cw_evidence w of None \<Rightarrow> [] | Some es \<Rightarrow> es),
      cl_suggested_action = (case cw_suggested_action w of None \<Rightarrow> [] | Some t \<Rightarrow> t),
      cl_abstained = cw_abstained w, cl_downgrade_reason = cw_downgrade_reason w,
      cl_model = cw_model w, cl_prompt_version = cw_prompt_version w\<rparr>"

text \<open>\<open>ORDER BY id DESC LIMIT 1\<close>.\<close>

definition latest_classification :: "metrics_db \<Rightarrow> nat \<Rightarrow> classification option" where
  "latest_classification m identity_id =
     (case sort_desc cw_id (filter (\<lambda>w. cw_identity_id w = identity_id) (mdb_classifications m)) of
        [] \<Rightarrow> None | w # _ \<Rightarrow> Some (classification_of_row w))"

record metrics_summary =
  ms_since :: "string option"
  ms_runs :: nat
  ms_api_calls :: nat
  ms_cache_hits :: nat
  ms_errors :: nat
  ms_total_cost_usd :: pyfloat
  ms_total_input_tokens :: nat
  ms_total_output_tokens :: nat
  ms_latency_p50_ms :: pyfloat
  ms_latency_p95_ms :: pyfloat
  ms_classifications :: nat
  ms_abstentions :: nat
  ms_by_cause :: "(string \<times> nat) list"
  ms_by_downgrade_reason :: "(string \<times> nat) list"

definition ratio :: "nat \<Rightarrow> nat \<Rightarrow> pyfloat" where
  "ratio a b = (if b \<noteq> 0 then of_nat a / of_nat b else 0)"

definition abstention_rate :: "metrics_summary \<Rightarrow> pyfloat" where
  "abstention_rate s = ratio (ms_abstentions s) (ms_classifications s)"

definition summary_cache_hit_rate :: "metrics_summary \<Rightarrow> pyfloat" where
  "summary_cache_hit_rate s = ratio (ms_cache_hits s) (ms_classifications s)"

definition cost_per_classification_usd :: "metrics_summary \<Rightarrow> pyfloat" where
  "cost_per_classification_usd s =
     (if ms_classifications s \<noteq> 0 then ms_total_cost_usd s / of_nat (ms_classifications s) else 0)"

definition percentile :: "pyfloat list \<Rightarrow> pyfloat \<Rightarrow> pyfloat" where
  "percentile ordered fraction =
     (if ordered = [] then 0
      else ordered ! min (nat (round_half_even (fraction * of_nat (length ordered - 1)))) (length ordered - 1))"

text \<open>\<open>SELECT k, COUNT(*) ... GROUP BY k\<close>.\<close>

definition count_by :: "('r \<Rightarrow> string) \<Rightarrow> 'r list \<Rightarrow> (string \<times> nat) list" where
  "count_by f rs = map (\<lambda>k. (k, length (filter (\<lambda>r. f r = k) rs))) (sorted_set (map f rs))"

definition summarize :: "db \<Rightarrow> metrics_db \<Rightarrow> string option \<Rightarrow> metrics_summary" where
  "summarize d m since =
     (let cutoff = (case since of None \<Rightarrow> [] | Some t \<Rightarrow> t);
          calls = filter (\<lambda>r. cutoff \<le> lc_created_at r) (mdb_calls m);
          latencies = sort (map (\<lambda>r. cr_latency_ms (lc_call r))
            (filter (\<lambda>r. cr_kind (lc_call r) = CLASSIFY \<and> cr_error (lc_call r) = None) calls));
          ws = filter (\<lambda>w. cutoff \<le> cw_created_at w) (mdb_classifications m)
      in \<lparr>ms_since = since, ms_runs = length (filter (\<lambda>r. cutoff \<le> rr_started_at r) (runs d)),
          ms_api_calls = length calls, ms_cache_hits = length (filter cw_cache_hit ws),
          ms_errors = length (filter (\<lambda>r. cr_error (lc_call r) \<noteq> None) calls),
          ms_total_cost_usd = sum_list (map (\<lambda>r. cr_cost_usd (lc_call r)) calls),
          ms_total_input_tokens = sum_list (map (\<lambda>r. cr_input_tokens (lc_call r)) calls),
          ms_total_output_tokens = sum_list (map (\<lambda>r. cr_output_tokens (lc_call r)) calls),
          ms_latency_p50_ms = percentile latencies (1 / 2),
          ms_latency_p95_ms = percentile latencies (95 / 100),
          ms_classifications = length ws, ms_abstentions = length (filter cw_abstained ws),
          ms_by_cause = count_by (cause_value \<circ> cw_cause) ws,
          ms_by_downgrade_reason = count_by (downgrade_value \<circ> cw_downgrade_reason)
            (filter (\<lambda>w. cw_downgrade_reason w \<noteq> NO_DOWNGRADE) ws)\<rparr>)"

section \<open>Stored answers read back\<close>

lemma classification_row_roundtrip:
  "classification_of_row (classification_row_of now run_pk sha hits k (i, r)) = r"
  by (cases r) (simp add: classification_of_row_def classification_row_of_def nonempty_def)

lemma classification_rows_set:
  "w \<in> set (classification_rows f k rs) \<Longrightarrow> \<exists>j r. j < length rs \<and> rs ! j = r \<and> w = f (k + j) r"
proof (induction rs arbitrary: k)
  case (Cons r rs)
  show ?case
  proof (cases "w = f k r")
    case True
    then show ?thesis by (intro exI [of _ 0]) simp
  next
    case False
    with Cons obtain j where "j < length rs" "w = f (Suc k + j) (rs ! j)" by fastforce
    then show ?thesis by (intro exI [of _ "Suc j"]) simp
  qed
qed simp

lemma classification_rows_mem:
  "j < length rs \<Longrightarrow> f (k + j) (rs ! j) \<in> set (classification_rows f k rs)"
proof (induction rs arbitrary: j k)
  case (Cons r rs)
  then show ?case
  proof (cases j)
    case (Suc i)
    then show ?thesis using Cons.IH [of i "Suc k"] Cons.prems by simp
  qed simp
qed simp

lemma next_id_above: "x \<in> set xs \<Longrightarrow> f x < next_id f xs"
proof -
  have "fold max (map f xs) 0 = Max (set (0 # map f xs))" by (simp only: Max.set_eq_fold)
  then show "x \<in> set xs \<Longrightarrow> f x < next_id f xs" by (simp add: next_id_def less_Suc_eq_le)
qed

lemma sort_desc_max:
  assumes "w \<in> set ws" and "\<And>v. v \<in> set ws \<Longrightarrow> v \<noteq> w \<Longrightarrow> f v < f w"
  shows "\<exists>vs. sort_desc f ws = w # vs"
proof -
  obtain v vs where vs: "sort_desc f ws = v # vs"
    using assms(1) by (cases "sort_desc f ws") (metis empty_iff list.set(1) set_sort_desc, simp)
  have "v = w"
  proof (rule ccontr)
    assume "v \<noteq> w"
    then have "w \<in> set vs" using assms(1) vs set_sort_desc [of f ws] by auto
    moreover have "sorted (rev (map f (v # vs)))" using sort_desc_ordered [of f ws] vs by simp
    ultimately have "f w \<le> f v" by (auto simp: sorted_append)
    moreover have "v \<in> set ws" using vs set_sort_desc [of f ws] by auto
    ultimately show False using assms(2) [of v] \<open>v \<noteq> w\<close> by simp
  qed
  with vs show ?thesis by blast
qed

lemma latest_recorded:
  assumes "record_metrics d now run_pk commit_sha hits calls results m = Inr (counts, m')"
    and "distinct (map fst results)"
  shows "latest_classification m' i =
    (case map_of results i of Some r \<Rightarrow> Some r | None \<Rightarrow> latest_classification m i)"
proof -
  define k where "k = next_id cw_id (mdb_classifications m)"
  define f where "f = classification_row_of now run_pk commit_sha hits"
  have m': "mdb_classifications m' = mdb_classifications m @ classification_rows f k results"
    using assms(1)
    by (auto simp: record_metrics_def record_calls_def record_classifications_def k_def f_def
        split: sum.splits if_splits)
  have f: "cw_id (f n r) = n" "cw_identity_id (f n r) = fst r" for n r
    by (simp_all add: f_def classification_row_of_def split: prod.split)
  show ?thesis
  proof (cases "map_of results i")
    case None
    then have "i \<notin> fst ` set results" by (simp add: map_of_eq_None_iff)
    then have "filter (\<lambda>w. cw_identity_id w = i) (classification_rows f k results) = []"
      by (auto simp: filter_empty_conv f dest!: classification_rows_set)
        (metis fst_conv image_eqI nth_mem)
    with None show ?thesis by (simp add: latest_classification_def m')
  next
    case (Some r)
    then obtain j where j: "j < length results" "results ! j = (i, r)"
      by (metis in_set_conv_nth map_of_SomeD)
    let ?ws = "filter (\<lambda>w. cw_identity_id w = i) (mdb_classifications m')"
    have "f (k + j) (i, r) \<in> set ?ws"
      using classification_rows_mem [OF j(1), of f k] j(2) by (simp add: m' f)
    moreover have "cw_id v < cw_id (f (k + j) (i, r))" if v: "v \<in> set ?ws" "v \<noteq> f (k + j) (i, r)" for v
    proof (cases "v \<in> set (mdb_classifications m)")
      case True
      then have "cw_id v < k" unfolding k_def by (rule next_id_above)
      then show ?thesis by (simp add: f)
    next
      case False
      then obtain n where n: "n < length results" "v = f (k + n) (results ! n)"
        using v(1) by (auto simp: m' dest!: classification_rows_set)
      then have "fst (results ! n) = i" using v(1) by (simp add: f)
      then have "n = j"
        using assms(2) n(1) j by (simp add: distinct_conv_nth) (metis fst_conv)
      with n(2) v(2) j(2) show ?thesis by simp
    qed
    ultimately obtain vs where "sort_desc cw_id ?ws = f (k + j) (i, r) # vs"
      using sort_desc_max [of "f (k + j) (i, r)" ?ws cw_id] by blast
    then show ?thesis
      using Some by (simp add: latest_classification_def f_def classification_row_roundtrip)
  qed
qed


definition sample_results :: "(nat \<times> classification) list" where
  "sample_results = [(1, stored_answer), (2, abstain NO_EVIDENCE ''m'' ''v'' ''none'')]"


section \<open>Aggregates\<close>

lemma ratio_bounds: "a \<le> b \<Longrightarrow> 0 \<le> ratio a b \<and> ratio a b \<le> 1"
  by (simp add: ratio_def)

lemma percentile_mono:
  assumes "sorted xs" and "p \<le> q" and "0 \<le> p" and "q \<le> 1"
  shows "percentile xs p \<le> percentile xs q"
proof (cases "xs = []")
  case False
  let ?n = "of_nat (length xs - 1) :: rat"
  have "round_half_even (p * ?n) \<le> round_half_even (q * ?n)"
    by (intro round_half_even_mono mult_right_mono assms) simp
  then have "min (nat (round_half_even (p * ?n))) (length xs - 1) \<le> min (nat (round_half_even (q * ?n))) (length xs - 1)"
    by (intro min.mono nat_mono order_refl)
  moreover have "min i (length xs - 1) < length xs" for i
    using False by (cases xs) auto
  ultimately show ?thesis
    using False assms(1) unfolding percentile_def by (auto simp del: min_less_iff_conj intro: sorted_nth_mono)
qed (simp add: percentile_def)

lemma percentile_mem: "xs \<noteq> [] \<Longrightarrow> percentile xs p \<in> set xs"
  by (auto simp: percentile_def intro!: nth_mem min.strict_coboundedI2)

lemma count_by_total: "sum_list (map snd (count_by f rs)) = length rs"
proof -
  have "sum_list (map snd (count_by f rs)) = (\<Sum>k\<in>f ` set rs. length (filter (\<lambda>r. f r = k) rs))"
    by (simp add: count_by_def comp_def sum_list_distinct_conv_sum_set)
  also have "\<dots> = length rs"
  proof (induction rs)
    case (Cons r rs)
    have "(\<Sum>k\<in>f ` set (r # rs). length (filter (\<lambda>x. f x = k) (r # rs))) =
        (\<Sum>k\<in>f ` set (r # rs). (if f r = k then 1 else 0) + length (filter (\<lambda>x. f x = k) rs))"
      by (intro sum.cong) auto
    also have "\<dots> = 1 + (\<Sum>k\<in>f ` set (r # rs). length (filter (\<lambda>x. f x = k) rs))"
      by (simp add: sum.distrib)
    also have "(\<Sum>k\<in>f ` set (r # rs). length (filter (\<lambda>x. f x = k) rs)) =
        (\<Sum>k\<in>f ` set rs. length (filter (\<lambda>x. f x = k) rs))"
      by (rule sum.mono_neutral_right) (auto simp: filter_empty_conv)
    finally show ?case using Cons.IH by simp
  qed simp
  finally show ?thesis .
qed

text \<open>
  The headline metrics are consistent for every store and every cut-off: the abstention and
  the cache-hit rate are fractions, every classification is counted under exactly one cause and
  every downgrade under exactly one reason, the errors are among the calls, and the median latency
  is at most the 95th percentile, each of them a latency that was measured.
\<close>

theorem metrics_are_consistent:
  "0 \<le> abstention_rate (summarize d m since) \<and> abstention_rate (summarize d m since) \<le> 1 \<and>
   0 \<le> summary_cache_hit_rate (summarize d m since) \<and> summary_cache_hit_rate (summarize d m since) \<le> 1 \<and>
   sum_list (map snd (ms_by_cause (summarize d m since))) = ms_classifications (summarize d m since) \<and>
   sum_list (map snd (ms_by_downgrade_reason (summarize d m since))) \<le> ms_classifications (summarize d m since) \<and>
   ms_errors (summarize d m since) \<le> ms_api_calls (summarize d m since) \<and>
   ms_latency_p50_ms (summarize d m since) \<le> ms_latency_p95_ms (summarize d m since) \<and>
   (ms_latency_p95_ms (summarize d m since) = 0 \<or>
    ms_latency_p95_ms (summarize d m since) \<in> (\<lambda>r. cr_latency_ms (lc_call r)) ` set (mdb_calls m))"
proof -
  define cutoff where "cutoff = (case since of None \<Rightarrow> [] | Some t \<Rightarrow> t)"
  define ws where "ws = filter (\<lambda>w. cutoff \<le> cw_created_at w) (mdb_classifications m)"
  define ls where "ls = sort (map (\<lambda>r. cr_latency_ms (lc_call r))
      (filter (\<lambda>r. cr_kind (lc_call r) = CLASSIFY \<and> cr_error (lc_call r) = None)
        (filter (\<lambda>r. cutoff \<le> lc_created_at r) (mdb_calls m))))"
  have p: "percentile ls (1 / 2) \<le> percentile ls (95 / 100)"
    by (rule percentile_mono) (simp_all add: ls_def)
  have "percentile ls (95 / 100) = 0 \<or> percentile ls (95 / 100) \<in> set ls"
    using percentile_mem [of ls "95 / 100"] by (cases "ls = []") (simp_all add: percentile_def)
  then have mem: "percentile ls (95 / 100) = 0 \<or>
      percentile ls (95 / 100) \<in> (\<lambda>r. cr_latency_ms (lc_call r)) ` set (mdb_calls m)"
    by (auto simp: ls_def)
  have sum: "ms_latency_p50_ms (summarize d m since) = percentile ls (1 / 2)"
    "ms_latency_p95_ms (summarize d m since) = percentile ls (95 / 100)"
    "ms_classifications (summarize d m since) = length ws"
    "ms_abstentions (summarize d m since) = length (filter cw_abstained ws)"
    "ms_cache_hits (summarize d m since) = length (filter cw_cache_hit ws)"
    "ms_by_cause (summarize d m since) = count_by (cause_value \<circ> cw_cause) ws"
    "ms_by_downgrade_reason (summarize d m since) = count_by (downgrade_value \<circ> cw_downgrade_reason)
       (filter (\<lambda>w. cw_downgrade_reason w \<noteq> NO_DOWNGRADE) ws)"
    by (simp_all only: summarize_def Let_def ls_def ws_def cutoff_def metrics_summary.simps)
  have "ms_errors (summarize d m since) \<le> ms_api_calls (summarize d m since)"
    by (simp add: summarize_def Let_def) (rule length_filter_mono, simp)
  then show ?thesis
    unfolding abstention_rate_def summary_cache_hit_rate_def sum count_by_total
    using p mem by (simp add: ratio_bounds)
qed

end
