(* ===== verification/Ownership.thy ===== *)
theory Ownership
  imports Regex Fingerprint
begin

text \<open>
  Test ownership (\<open>policy/ownership.py\<close>): \<open>CODEOWNERS\<close> rules, their matching, and the resolution
  order. Whether the git fallback runs and what it prints is a parameter: \<open>git_log path\<close> is the
  standard output of \<open>git log\<close>, \<open>None\<close> when git fails or returns a non-zero code.
\<close>

section \<open>The program\<close>

datatype owner_source = CODEOWNERS | LAST_COMMITTER | UNRESOLVED_SOURCE

fun owner_source_value :: "owner_source \<Rightarrow> string" where
  "owner_source_value CODEOWNERS = ''codeowners''"
| "owner_source_value LAST_COMMITTER = ''last_committer''"
| "owner_source_value UNRESOLVED_SOURCE = ''unresolved''"

record owner =
  ow_name :: string
  ow_source :: owner_source

definition resolved :: "owner \<Rightarrow> bool" where
  "resolved ow \<longleftrightarrow> ow_source ow \<noteq> UNRESOLVED_SOURCE"

definition is_authoritative :: "owner \<Rightarrow> bool" where
  "is_authoritative ow \<longleftrightarrow> ow_source ow = CODEOWNERS"

definition UNRESOLVED :: owner where
  "UNRESOLVED = \<lparr>ow_name = [], ow_source = UNRESOLVED_SOURCE\<rparr>"

type_synonym code_owners = "(string \<times> string list) list"

text \<open>
  \<open>_COMMENT.sub\<close> removes everything from the first hash sign to the end of the line; the pattern
  \<open>.*$\<close> stops before a line feed, which a line of \<open>splitlines\<close> does not contain.
\<close>

definition parse_rule :: "string \<Rightarrow> (string \<times> string list) option" where
  "parse_rule raw =
     (let line = strip (takeWhile (\<lambda>c. c \<noteq> CHR ''#'') raw) in
      if line = [] then None
      else
        let parts = split_ws line in
        if length parts < 2 then None else Some (hd parts, tl parts))"

definition parse_codeowners :: "string \<Rightarrow> code_owners" where
  "parse_codeowners t = List.map_filter parse_rule (splitlines t)"

text \<open>The pieces of a glob: \<open>re.split\<close> on the double and single stars, as a tokeniser.\<close>

datatype glob_part = DoubleStarSlash | DoubleStar | Star | Lit char

fun glob_parts :: "string \<Rightarrow> glob_part list" where
  "glob_parts [] = []"
| "glob_parts (a # b # c # rest) =
     (if a = CHR ''*'' \<and> b = CHR ''*''
      then (if c = CHR ''/'' then DoubleStarSlash # glob_parts rest else DoubleStar # glob_parts (c # rest))
      else if a = CHR ''*'' then Star # glob_parts (b # c # rest)
      else Lit a # glob_parts (b # c # rest))"
| "glob_parts [a, b] =
     (if a = CHR ''*'' \<and> b = CHR ''*'' then [DoubleStar]
      else (if a = CHR ''*'' then Star else Lit a) # glob_parts [b])"
| "glob_parts [a] = [if a = CHR ''*'' then Star else Lit a]"

definition not_slash :: "char \<Rightarrow> bool" where
  "not_slash c \<longleftrightarrow> c \<noteq> CHR ''/''"

definition not_newline :: "char \<Rightarrow> bool" where
  "not_newline c \<longleftrightarrow> c \<noteq> LF"

fun part_regex :: "glob_part \<Rightarrow> regex" where
  "part_regex DoubleStarSlash = Greedy (Seq (plus (Cls not_slash)) (lit ''/''))"
| "part_regex DoubleStar = Greedy (Cls not_newline)"
| "part_regex Star = Greedy (Cls not_slash)"
| "part_regex (Lit c) = Cls (\<lambda>x. x = c)"

definition glob_regex :: "string \<Rightarrow> regex" where
  "glob_regex pattern = foldr Seq (map part_regex (glob_parts pattern)) Eps"

definition fullmatch :: "regex \<Rightarrow> string \<Rightarrow> bool" where
  "fullmatch r s \<longleftrightarrow> list_ex (\<lambda>(u, v). v = []) (matches r s)"

text \<open>
  \<open>re.search("(^|/)" + expression + "$", path)\<close>: a match that starts at the beginning or after a
  slash and ends at the end, or before a line feed at the end.
\<close>

fun after_slashes :: "string \<Rightarrow> string list" where
  "after_slashes [] = []"
| "after_slashes (c # cs) = (if c = CHR ''/'' then [cs] else []) @ after_slashes cs"

definition search_at_boundary :: "regex \<Rightarrow> string \<Rightarrow> bool" where
  "search_at_boundary r path =
     list_ex (\<lambda>s. list_ex (\<lambda>(u, v). v = [] \<or> v = [LF]) (matches r s)) (path # after_slashes path)"

definition glob_matches :: "string \<Rightarrow> string \<Rightarrow> bool \<Rightarrow> bool" where
  "glob_matches pattern path anchored =
     (let expression = glob_regex pattern in
      if anchored then fullmatch expression path
      else fullmatch expression path \<or> search_at_boundary expression path)"

definition rule_matches :: "string \<Rightarrow> string \<Rightarrow> bool" where
  "rule_matches pattern path =
     (let cleaned0 = strip pattern in
      if cleaned0 = [] then False
      else if cleaned0 = ''*'' then True
      else
        let anchored = startswith cleaned0 ''/'';
            cleaned = lstrip_by (\<lambda>c. c = CHR ''/'') cleaned0
        in if endswith cleaned ''/''
           then (if anchored then startswith path cleaned
                 else contains (''/'' @ path) (''/'' @ cleaned))
           else if CHR ''*'' \<notin> set cleaned
           then (if path = cleaned then True
                 else if startswith path (cleaned @ ''/'') then True
                 else \<not> anchored \<and>
                   (endswith path (''/'' @ cleaned) \<or> contains (''/'' @ path) (''/'' @ cleaned @ ''/'')))
           else glob_matches cleaned path anchored)"

definition owners_for :: "code_owners \<Rightarrow> string \<Rightarrow> string list" where
  "owners_for rules path =
     (let target = lstrip_by (\<lambda>c. c \<in> set ''./'') (replace_char (CHR 0x5C) (CHR ''/'') path)
      in fold (\<lambda>(pattern, owners) matched. if rule_matches pattern target then owners else matched)
           rules [])"

definition last_committer :: "(string \<Rightarrow> string option) \<Rightarrow> string \<Rightarrow> string option" where
  "last_committer git_log path =
     (case git_log path of
        None \<Rightarrow> None
      | Some out \<Rightarrow> let name = strip out in if name = [] then None else Some name)"

definition resolve_owner ::
  "(string \<Rightarrow> string option) \<Rightarrow> code_owners option \<Rightarrow> bool \<Rightarrow> string option \<Rightarrow> owner" where
  "resolve_owner git_log codeowners allow_git file_path =
     (let by_git = (\<lambda>path.
            if allow_git
            then (case last_committer git_log path of
                    Some name \<Rightarrow> \<lparr>ow_name = name, ow_source = LAST_COMMITTER\<rparr>
                  | None \<Rightarrow> UNRESOLVED)
            else UNRESOLVED)
      in case file_path of
           None \<Rightarrow> UNRESOLVED
         | Some path \<Rightarrow>
             if path = [] then UNRESOLVED
             else
               (case codeowners of
                  None \<Rightarrow> by_git path
                | Some rules \<Rightarrow>
                    let owners = owners_for rules path in
                    if owners \<noteq> [] then \<lparr>ow_name = join '', '' owners, ow_source = CODEOWNERS\<rparr>
                    else by_git path))"

section \<open>Precedence\<close>

definition target_path :: "string \<Rightarrow> string" where
  "target_path path = lstrip_by (\<lambda>c. c \<in> set ''./'') (replace_char (CHR 0x5C) (CHR ''/'') path)"

lemma owners_for_last:
  "owners_for rules path =
     (case List.find (\<lambda>(pattern, owners). rule_matches pattern (target_path path)) (rev rules) of
        None \<Rightarrow> [] | Some (pattern, owners) \<Rightarrow> owners)"
proof (induction rules rule: rev_induct)
  case (snoc r rules)
  then show ?case by (cases r) (auto simp: owners_for_def target_path_def)
qed (simp add: owners_for_def)

lemma split_ws_acc_nonempty: "w \<in> set (split_ws_acc acc s) \<Longrightarrow> w \<noteq> []"
  by (induction acc s rule: split_ws_acc.induct) (auto split: if_splits)

lemma parsed_owners: "(p, owners) \<in> set (parse_codeowners t) \<Longrightarrow> owners \<noteq> [] \<and> [] \<notin> set owners"
proof -
  assume "(p, owners) \<in> set (parse_codeowners t)"
  then obtain raw where "parse_rule raw = Some (p, owners)"
    by (auto simp: parse_codeowners_def List.map_filter_def)
  then obtain line where parts: "owners = tl (split_ws line)" "2 \<le> length (split_ws line)"
    by (auto simp: parse_rule_def Let_def split: if_splits)
  have "[] \<notin> set (split_ws line)"
    using split_ws_acc_nonempty unfolding split_ws_def by blast
  with parts show ?thesis by (cases "split_ws line") auto
qed

lemma found_rule:
  "List.find P (rev (parse_codeowners t)) = Some (pattern, owners) \<Longrightarrow>
     (pattern, owners) \<in> set (parse_codeowners t)"
  by (auto simp: find_Some_iff) (metis nth_mem set_rev length_rev)

lemma found_named:
  assumes "List.find P (rev (parse_codeowners t)) = Some (pattern, owners)"
  shows "join sep owners \<noteq> []"
proof -
  have "owners \<noteq> []" "[] \<notin> set owners"
    using parsed_owners [OF found_rule [OF assms]] by simp_all
  then show ?thesis by (cases "(sep, owners)" rule: join.cases) auto
qed

text \<open>
  The last matching rule decides: a parsed file attributes a path to the owners of the last
  rule whose pattern matches it, so a later rule overrides every earlier one; the declared owners
  win over the last committer, and a name is attributed to a source only if that source gave it,
  so nothing is ever invented: an unresolved owner has no name, and a resolved one always has.
\<close>

theorem owner_resolution:
  "resolve_owner git_log (map_option parse_codeowners codeowners) allow_git (Some path) =
     (case (if path = [] then None
            else Option.bind codeowners (\<lambda>t. List.find
              (\<lambda>(pattern, owners). rule_matches pattern (target_path path)) (rev (parse_codeowners t)))) of
        Some (pattern, owners) \<Rightarrow> \<lparr>ow_name = join '', '' owners, ow_source = CODEOWNERS\<rparr>
      | None \<Rightarrow>
          (case (if path \<noteq> [] \<and> allow_git then last_committer git_log path else None) of
             Some name \<Rightarrow> \<lparr>ow_name = name, ow_source = LAST_COMMITTER\<rparr>
           | None \<Rightarrow> UNRESOLVED)) \<and>
   (resolved (resolve_owner git_log (map_option parse_codeowners codeowners) allow_git file_path) \<longleftrightarrow>
    ow_name (resolve_owner git_log (map_option parse_codeowners codeowners) allow_git file_path) \<noteq> [])"
proof -
  have found: "(case List.find P (rev (parse_codeowners t)) of None \<Rightarrow> [] | Some (pattern, owners) \<Rightarrow> owners) = []
      \<longleftrightarrow> List.find P (rev (parse_codeowners t)) = None" for P t
    by (auto split: option.split dest!: found_rule parsed_owners)
  have committer: "last_committer git_log p \<noteq> Some []" for p
    by (auto simp: last_committer_def Let_def split: option.splits)
  have "resolve_owner git_log (map_option parse_codeowners codeowners) allow_git (Some path) =
     (case (if path = [] then None
            else Option.bind codeowners (\<lambda>t. List.find
              (\<lambda>(pattern, owners). rule_matches pattern (target_path path)) (rev (parse_codeowners t)))) of
        Some (pattern, owners) \<Rightarrow> \<lparr>ow_name = join '', '' owners, ow_source = CODEOWNERS\<rparr>
      | None \<Rightarrow>
          (case (if path \<noteq> [] \<and> allow_git then last_committer git_log path else None) of
             Some name \<Rightarrow> \<lparr>ow_name = name, ow_source = LAST_COMMITTER\<rparr>
           | None \<Rightarrow> UNRESOLVED))" for path
    unfolding resolve_owner_def Let_def owners_for_last found
    by (auto split: option.splits dest!: found_rule parsed_owners)
  note eq = this
  have "resolved (resolve_owner git_log (map_option parse_codeowners codeowners) allow_git file_path) \<longleftrightarrow>
    ow_name (resolve_owner git_log (map_option parse_codeowners codeowners) allow_git file_path) \<noteq> []"
  proof (cases file_path)
    case None
    then show ?thesis by (simp add: resolve_owner_def resolved_def UNRESOLVED_def)
  next
    case (Some p)
    show ?thesis
      using committer found_named unfolding Some eq
      by (auto simp: resolved_def UNRESOLVED_def split: option.splits if_splits bind_splits)
  qed
  with eq show ?thesis by blast
qed

section \<open>Hidden directories\<close>

lemma target_start: "target_path path = [] \<or> hd (target_path path) \<noteq> CHR ''.'' \<and> hd (target_path path) \<noteq> CHR ''/''"
proof -
  have "target_path path = [] \<or> hd (target_path path) \<notin> set ''./''"
    unfolding target_path_def lstrip_by_def by (metis hd_dropWhile)
  then show ?thesis by auto
qed

lemma glob_parts_lit: "a \<noteq> CHR ''*'' \<Longrightarrow> glob_parts (a # s) = Lit a # glob_parts s"
  by (cases "a # s" rule: glob_parts.cases) auto

text \<open>
  Rules for hidden directories never apply: the path looked up is stripped of leading dots along
  with the leading \<open>./\<close>, the pattern is not, so an anchored rule on a dot directory such as
  \<open>/.github/\<close> matches no path at all, and the files below it fall back to the last committer.
\<close>

theorem anchored_dot_rules_never_match:
  assumes "\<not> is_space (last (''/.'' @ rest))"
  shows "\<not> rule_matches (''/.'' @ rest) (target_path path)"
proof -
  let ?t = "target_path path"
  have strip: "strip (''/.'' @ rest) = ''/.'' @ rest"
    by (rule strip_id) (use assms in \<open>auto simp: is_space_def\<close>)
  have cleaned: "lstrip_by (\<lambda>c. c = CHR ''/'') (''/.'' @ rest) = CHR ''.'' # rest"
    by (simp add: lstrip_by_def)
  have no_dot: "\<not> prefix (CHR ''.'' # s) ?t" and not_dot: "?t \<noteq> CHR ''.'' # s" for s
    using target_start [of path] by (auto simp: prefix_def)
  have "(u, v) \<notin> set (matches (glob_regex (CHR ''.'' # rest)) ?t)" for u v
  proof
    assume "(u, v) \<in> set (matches (glob_regex (CHR ''.'' # rest)) ?t)"
    then have u: "?t = u @ v" "u \<in> lang (glob_regex (CHR ''.'' # rest))"
      by (simp_all add: matches_iff)
    then obtain w where "u = CHR ''.'' # w"
      by (auto simp: glob_regex_def glob_parts_lit)
    with u(1) no_dot [of w] show False by simp
  qed
  then have "\<not> fullmatch (glob_regex (CHR ''.'' # rest)) ?t"
    by (auto simp: fullmatch_def list_ex_iff)
  then show ?thesis
    using no_dot not_dot strip cleaned
    by (auto simp: rule_matches_def Let_def startswith_def glob_matches_def)
qed

theorem anchored_dot_rules_never_match_witness:
  "owners_for [(''/.github/'', [''@ops''])] ''.github/workflows/ci.yml'' = []"
proof -
  have "\<not> rule_matches (''/.'' @ ''github/'') (target_path ''.github/workflows/ci.yml'')"
    by (rule anchored_dot_rules_never_match) (simp add: is_space_def)
  then show ?thesis by (simp add: owners_for_last)
qed

section \<open>Which file is read\<close>

definition CODEOWNERS_LOCATIONS :: "string list" where
  "CODEOWNERS_LOCATIONS = [''.github/CODEOWNERS'', ''CODEOWNERS'', ''docs/CODEOWNERS'']"

text \<open>
  \<open>file\<close> tells of a location below the root whether it is a file and then its text, or \<open>None\<close> when it
  cannot be read, in which case the next location is tried.
\<close>

fun load_from :: "(string \<Rightarrow> string option option) \<Rightarrow> string list \<Rightarrow> code_owners option" where
  "load_from file [] = None"
| "load_from file (candidate # rest) =
     (case file candidate of
        Some (Some t) \<Rightarrow> Some (parse_codeowners t)
      | _ \<Rightarrow> load_from file rest)"

definition load_codeowners :: "(string \<Rightarrow> string option option) \<Rightarrow> code_owners option" where
  "load_codeowners file = load_from file CODEOWNERS_LOCATIONS"

lemma load_from_first:
  "load_from file ls =
   map_option (\<lambda>l. parse_codeowners (the (the (file l)))) (List.find (\<lambda>l. \<exists>t. file l = Some (Some t)) ls)"
  by (induction ls) (auto split: option.splits)

text \<open>The file below \<open>.github\<close> hides the others, and without any file there are no rules at all.\<close>

lemma load_codeowners_precedence:
  "file ''.github/CODEOWNERS'' = Some (Some t) \<Longrightarrow> load_codeowners file = Some (parse_codeowners t)"
  "(\<And>l. l \<in> set CODEOWNERS_LOCATIONS \<Longrightarrow> file l = None) \<Longrightarrow> load_codeowners file = None"
  by (simp_all add: load_codeowners_def CODEOWNERS_LOCATIONS_def)

end
