(* ===== verification/Timestamps.thy ===== *)
theory Timestamps
  imports Prelude "HOL-Library.Monad_Syntax"
begin

text \<open>
  UTC time as the program uses it: a moment is the number of microseconds since
  0001-01-01T00:00:00, \<open>timedelta\<close> arithmetic is addition, and \<open>isoformat\<close> prints the proleptic
  Gregorian date, with the fraction left out when it is zero. The store compares these texts; the
  order theorem below says that this compares the moments. \<open>parse_iso\<close> reads the texts the program
  writes back (\<open>datetime.fromisoformat\<close>), with or without the offset of UTC.
\<close>

section \<open>Fixed-width numbers as text\<close>

fun pad :: "nat \<Rightarrow> nat \<Rightarrow> string" where
  "pad 0 n = []"
| "pad (Suc w) n = pad w (n div 10) @ [digit (n mod 10)]"

lemma length_pad [simp]: "length (pad w n) = w"
  by (induction w arbitrary: n) simp_all

lemma numeral_eq_Suc_pad:
  "pad (numeral k) n = pad (pred_numeral k) (n div 10) @ [digit (n mod 10)]"
  using pad.simps(2) [of "pred_numeral k" n] by (simp only: numeral_eq_Suc [of k])

lemma digit_chars:
  "digit 0 = CHR ''0''" "digit 1 = CHR ''1''" "digit (Suc (Suc 0)) = CHR ''2''" "digit (Suc 0) = CHR ''1''" "digit 2 = CHR ''2''"
  "digit 3 = CHR ''3''" "digit 4 = CHR ''4''" "digit 5 = CHR ''5''" "digit 6 = CHR ''6''"
  "digit 7 = CHR ''7''" "digit 8 = CHR ''8''" "digit 9 = CHR ''9''"
  by code_simp+

lemma append_less_same:
  "length xs = length ys \<Longrightarrow>
   (xs @ us :: 'a::linorder list) < ys @ vs \<longleftrightarrow> xs < ys \<or> (xs = ys \<and> us < vs)"
  by (induction xs ys rule: list_induct2) auto

lemma less_char_code: "(c :: char) < d \<longleftrightarrow> code c < code d"
  by (simp add: less_char_def)

lemma digit_less: "m < 10 \<Longrightarrow> n < 10 \<Longrightarrow> digit m < digit n \<longleftrightarrow> m < n"
  by (simp add: less_char_code)

lemma digit_inj: "m < 10 \<Longrightarrow> n < 10 \<Longrightarrow> digit m = digit n \<longleftrightarrow> m = n"
  by (metis add_left_cancel code_digit)

lemma divmod_less:
  "(m::nat) < n \<longleftrightarrow> m div k < n div k \<or> (m div k = n div k \<and> m mod k < n mod k)"
proof (cases "m div k = n div k")
  case True
  then show ?thesis by (metis div_mult_mod_eq nat_add_left_cancel_less less_irrefl)
next
  case False
  then show ?thesis
    by (metis div_le_mono le_neq_implies_less nat_less_le not_less)
qed

lemma divmod_eq: "(m::nat) = n \<longleftrightarrow> m div k = n div k \<and> m mod k = n mod k"
  by (metis div_mult_mod_eq)

lemma div10_bound: "(m::nat) < 10 ^ Suc w \<Longrightarrow> m div 10 < 10 ^ w"
  using div_less_iff_less_mult [of 10 m "10 ^ w"] by simp

lemma pad_inj: "m < 10 ^ w \<Longrightarrow> n < 10 ^ w \<Longrightarrow> pad w m = pad w n \<longleftrightarrow> m = n"
proof (induction w arbitrary: m n)
  case (Suc w)
  have "m div 10 < 10 ^ w" "n div 10 < 10 ^ w" using Suc.prems by (simp_all only: div10_bound)
  with Suc.IH have "pad w (m div 10) = pad w (n div 10) \<longleftrightarrow> m div 10 = n div 10" by blast
  moreover have "digit (m mod 10) = digit (n mod 10) \<longleftrightarrow> m mod 10 = n mod 10"
    by (rule digit_inj) simp_all
  ultimately show ?case using divmod_eq [of m n 10] by simp
qed simp

lemma pad_less: "m < 10 ^ w \<Longrightarrow> n < 10 ^ w \<Longrightarrow> pad w m < pad w n \<longleftrightarrow> m < n"
proof (induction w arbitrary: m n)
  case (Suc w)
  have b: "m div 10 < 10 ^ w" "n div 10 < 10 ^ w"
    using Suc.prems by (simp_all only: div10_bound)
  have "pad (Suc w) m < pad (Suc w) n \<longleftrightarrow>
      m div 10 < n div 10 \<or> m div 10 = n div 10 \<and> m mod 10 < n mod 10"
    using Suc.IH [OF b] pad_inj [OF b] by (simp add: append_less_same digit_less)
  also have "\<dots> \<longleftrightarrow> m < n" by (rule divmod_less [symmetric])
  finally show ?case .
qed simp

text \<open>A field followed by more text: smaller number first, then the rest.\<close>

lemma pad_field_less:
  "m < 10 ^ w \<Longrightarrow> n < 10 ^ w \<Longrightarrow>
   pad w m @ us < pad w n @ vs \<longleftrightarrow> m < n \<or> (m = n \<and> us < vs)"
  by (simp add: append_less_same pad_less pad_inj)

section \<open>The calendar\<close>

definition is_leap :: "nat \<Rightarrow> bool" where
  "is_leap y \<longleftrightarrow> y mod 4 = 0 \<and> (y mod 100 \<noteq> 0 \<or> y mod 400 = 0)"

definition year_length :: "nat \<Rightarrow> nat" where
  "year_length y = (if is_leap y then 366 else 365)"

definition month_lengths :: "nat \<Rightarrow> nat list" where
  "month_lengths y = [31, if is_leap y then 29 else 28, 31, 30, 31, 30, 31, 31, 30, 31, 30, 31]"

text \<open>
  The year and the day in it of a day counted from the first of January of year \<open>y\<close>; whole cycles
  of 400 years are 146097 days.
\<close>

function year_from :: "nat \<Rightarrow> nat \<Rightarrow> nat \<times> nat" where
  "year_from y n = (if n < year_length y then (y, n) else year_from (y + 1) (n - year_length y))"
  by pat_completeness auto
termination by (relation "measure snd") (auto simp: year_length_def)

declare year_from.simps [simp del]

fun month_from :: "nat list \<Rightarrow> nat \<Rightarrow> nat \<times> nat" where
  "month_from [] n = (1, n + 1)"
| "month_from (l # ls) n =
     (if n < l then (1, n + 1) else (let (m, k) = month_from ls (n - l) in (m + 1, k)))"

definition year_of_day :: "nat \<Rightarrow> nat \<times> nat" where
  "year_of_day n = (let (y, r) = year_from 1 (n mod 146097) in (400 * (n div 146097) + y, r))"

definition date_of :: "nat \<Rightarrow> nat \<times> nat \<times> nat" where
  "date_of n = (let (y, r) = year_of_day n; (m, k) = month_from (month_lengths y) r in (y, m, k))"

type_synonym moment = nat

definition DAY :: nat where
  "DAY = 86400000000"

definition MAX_MOMENT :: nat where
  "MAX_MOMENT = 3652059 * DAY"

text \<open>The fields: year, month, day, hour, minute, second, microsecond.\<close>

definition fields :: "moment \<Rightarrow> nat \<times> nat \<times> nat \<times> nat \<times> nat \<times> nat \<times> nat" where
  "fields t =
     (let (y, m, d) = date_of (t div DAY); u = t mod DAY; s = u div 1000000; mi = s div 60
      in (y, m, d, mi div 60, mi mod 60, s mod 60, u mod 1000000))"

definition isoformat :: "moment \<Rightarrow> string" where
  "isoformat t =
     (case fields t of (y, mo, d, h, mi, s, us) \<Rightarrow>
        pad 4 y @ ''-'' @ pad 2 mo @ ''-'' @ pad 2 d @ ''T'' @ pad 2 h @ '':'' @ pad 2 mi @ '':'' @
        pad 2 s @ (if us = 0 then [] else ''.'' @ pad 6 us) @ ''+00:00'')"

text \<open>Reading a moment back: fixed-width fields, each followed by a literal.\<close>

definition field :: "nat \<Rightarrow> string \<Rightarrow> string \<Rightarrow> (nat \<times> string) option" where
  "field w sep s =
     (if w \<le> length s \<and> list_all is_digit (take w s) \<and> prefix sep (drop w s)
      then Some (read_nat (take w s), drop (w + length sep) s) else None)"

definition day_of :: "nat \<Rightarrow> nat \<Rightarrow> nat \<Rightarrow> nat" where
  "day_of y m d =
     146097 * ((y - 1) div 400) + sum_list (map year_length [1..<(y - 1) mod 400 + 1]) +
     sum_list (take (m - 1) (month_lengths y)) + (d - 1)"

definition parse_iso :: "string \<Rightarrow> moment option" where
  "parse_iso s0 = do {
     (y, s1) \<leftarrow> field 4 ''-'' s0;
     (mo, s2) \<leftarrow> field 2 ''-'' s1;
     (d, s3) \<leftarrow> field 2 ''T'' s2;
     (h, s4) \<leftarrow> field 2 '':'' s3;
     (mi, s5) \<leftarrow> field 2 '':'' s4;
     (s, s6) \<leftarrow> field 2 [] s5;
     (us, s7) \<leftarrow> (case s6 of c # r \<Rightarrow> if c = CHR ''.'' then field 6 [] r else Some (0, s6)
                  | [] \<Rightarrow> Some (0, s6));
     if (s7 = [] \<or> s7 = ''+00:00'') \<and> 1 \<le> y \<and> 1 \<le> mo \<and> mo \<le> 12 \<and> 1 \<le> d \<and>
        d \<le> month_lengths y ! (mo - 1) \<and> h < 24 \<and> mi < 60 \<and> s < 60
     then Some (day_of y mo d * DAY + ((h * 60 + mi) * 60 + s) * 1000000 + us) else None }"

section \<open>The order of days is the order of dates\<close>

lemma year_from_if:
  "n < year_length y \<Longrightarrow> year_from y n = (y, n)"
  "\<not> n < year_length y \<Longrightarrow> year_from y n = year_from (y + 1) (n - year_length y)"
  by (simp_all add: year_from.simps [of y n])

lemma year_from_start:
  "y \<le> fst (year_from y n) \<and> snd (year_from y n) < year_length (fst (year_from y n))"
proof (induction y n rule: year_from.induct)
  case (1 y n)
  then show ?case by (cases "n < year_length y") (simp_all add: year_from_if)
qed

lemma year_from_mono:
  "m < n \<Longrightarrow> year_from y m < year_from y n"
proof (induction y m arbitrary: n rule: year_from.induct)
  case (1 y m)
  show ?case
  proof (cases "m < year_length y")
    case True
    then have m: "year_from y m = (y, m)" by (rule year_from_if)
    show ?thesis
    proof (cases "n < year_length y")
      case True
      then have "year_from y n = (y, n)" by (rule year_from_if)
      with m 1 show ?thesis by simp
    next
      case False
      then have "year_from y n = year_from (y + 1) (n - year_length y)" by (rule year_from_if)
      with m year_from_start [of "y + 1" "n - year_length y"] show ?thesis
        by (simp add: less_prod_def)
    qed
  next
    case False
    then have "year_from y m = year_from (y + 1) (m - year_length y)"
      "year_from y n = year_from (y + 1) (n - year_length y)"
      using 1 by (auto simp: year_from_if)
    with False 1 show ?thesis by simp
  qed
qed

lemma month_from_mono: "m < n \<Longrightarrow> month_from ls m < month_from ls n"
proof (induction ls arbitrary: m n)
  case (Cons l ls)
  have start: "1 \<le> fst (month_from ls k)" for k
    by (induction ls arbitrary: k) (auto simp: split_beta)
  show ?case
    using Cons.prems Cons.IH [of "m - l" "n - l"] start [of "n - l"]
    by (auto simp: split_beta Let_def less_prod_def)
qed simp

lemma less_prod_iff: "(a, b) < (c, d) \<longleftrightarrow> a < c \<or> (a = c \<and> b < d)" for a c :: "'a::linorder" and b d :: "'b::linorder"
  by (auto simp: less_prod_def)

lemma year_from_bound:
  "n < sum_list (map year_length [y..<y + k]) \<Longrightarrow> fst (year_from y n) < y + k"
proof (induction k arbitrary: y n)
  case (Suc k)
  show ?case
  proof (cases "n < year_length y")
    case False
    have "[y..<y + Suc k] = y # [y + 1..<y + 1 + k]"
      by (simp add: upt_conv_Cons del: upt_Suc)
    then have "sum_list (map year_length [y..<y + Suc k]) =
        year_length y + sum_list (map year_length [y + 1..<y + 1 + k])"
      by (simp only: list.map sum_list.Cons)
    with Suc.prems False have "n - year_length y < sum_list (map year_length [y + 1..<y + 1 + k])"
      by linarith
    then have "fst (year_from (y + 1) (n - year_length y)) < y + 1 + k" by (rule Suc.IH)
    with False show ?thesis by (simp add: year_from_if)
  qed (simp add: year_from_if)
qed simp

lemma year_from_sum:
  "sum_list (map year_length [y..<fst (year_from y n)]) + snd (year_from y n) = n"
proof (induction y n rule: year_from.induct)
  case (1 y n)
  show ?case
  proof (cases "n < year_length y")
    case False
    let ?z = "fst (year_from (y + 1) (n - year_length y))"
    have "y < ?z" using year_from_start [of "y + 1" "n - year_length y"] by simp
    then have "[y..<?z] = y # [y + 1..<?z]" by (simp add: upt_conv_Cons)
    with False 1 show ?thesis by (simp add: year_from_if)
  qed (simp add: year_from_if)
qed

lemma sum_year_lengths:
  "sum_list (map year_length [1..<1 + n]) + n div 100 = 365 * n + n div 4 + n div 400"
proof (induction n)
  case (Suc n)
  have "Suc n mod 100 = 0 \<Longrightarrow> Suc n mod 4 = 0" "Suc n mod 400 = 0 \<Longrightarrow> Suc n mod 100 = 0"
    by (auto elim!: dvdE simp flip: dvd_eq_mod_eq_0)
  then show ?case
    using Suc by (auto simp: div_Suc year_length_def is_leap_def)
qed simp

lemma cycle_sums:
  "sum_list (map year_length [1..<1 + 400]) = 146097" "sum_list (map year_length [1..<1 + 399]) = 145731"
  using sum_year_lengths [of 400] sum_year_lengths [of 399] by simp_all

lemma year_in_cycle: "n < 146097 \<Longrightarrow> 1 \<le> fst (year_from 1 n) \<and> fst (year_from 1 n) \<le> 400"
  using year_from_bound [of n 1 400] cycle_sums(1) year_from_start [of 1 n] by simp

lemma is_leap_cycle: "is_leap (400 * k + y) = is_leap y"
proof -
  have "(400 * k + y) mod 4 = y mod 4" "(400 * k + y) mod 100 = y mod 100" "(400 * k + y) mod 400 = y mod 400"
    using mod_mult_self1 [of y "100 * k" 4] mod_mult_self1 [of y "4 * k" 100] by (simp_all add: ac_simps)
  then show ?thesis by (simp add: is_leap_def)
qed

lemma year_length_months: "year_length y = sum_list (month_lengths y)"
  by (simp add: year_length_def month_lengths_def)

lemma year_of_day_eq:
  "year_of_day n = (400 * (n div 146097) + fst (year_from 1 (n mod 146097)), snd (year_from 1 (n mod 146097)))"
  by (simp add: year_of_day_def split_beta)

lemma year_of_day_rest: "snd (year_of_day n) < year_length (fst (year_of_day n))"
  using year_from_start [of 1 "n mod 146097"]
  by (simp add: year_of_day_eq year_length_def is_leap_cycle)

lemma year_of_day_mono:
  assumes "m < n"
  shows "year_of_day m < year_of_day n"
proof (cases "m div 146097 = n div 146097")
  case True
  with assms have "m mod 146097 < n mod 146097"
    by (metis div_mult_mod_eq nat_add_left_cancel_less)
  then show ?thesis
    using year_from_mono [of "m mod 146097" "n mod 146097" 1] True
    by (simp add: year_of_day_eq less_prod_def)
next
  case False
  with assms have "m div 146097 < n div 146097"
    by (simp add: div_le_mono le_neq_implies_less)
  then have "400 * (m div 146097) + 400 \<le> 400 * (n div 146097)" by simp
  with year_in_cycle [of "m mod 146097"] year_in_cycle [of "n mod 146097"] show ?thesis
    by (simp add: year_of_day_eq less_prod_def)
qed

lemma month_from_bound:
  "n < sum_list ls \<Longrightarrow>
   1 \<le> fst (month_from ls n) \<and> fst (month_from ls n) \<le> length ls \<and> 1 \<le> snd (month_from ls n) \<and>
   snd (month_from ls n) \<le> ls ! (fst (month_from ls n) - 1) \<and>
   sum_list (take (fst (month_from ls n) - 1) ls) + (snd (month_from ls n) - 1) = n"
proof (induction ls arbitrary: n)
  case (Cons l ls)
  show ?case
  proof (cases "n < l")
    case False
    then have "n - l < sum_list ls" using Cons.prems by simp
    then show ?thesis
      using Cons.IH [of "n - l"] False
      by (cases "fst (month_from ls (n - l))") (auto simp: split_beta)
  qed simp
qed simp

lemma date_of_eq:
  "date_of n = (fst (year_of_day n), month_from (month_lengths (fst (year_of_day n))) (snd (year_of_day n)))"
  by (simp add: date_of_def split_beta)

lemma date_of_mono: "m < n \<Longrightarrow> date_of m < date_of n"
  using year_of_day_mono [of m n]
    month_from_mono [of "snd (year_of_day m)" "snd (year_of_day n)" "month_lengths (fst (year_of_day n))"]
  by (cases "year_of_day m"; cases "year_of_day n") (auto simp: date_of_eq less_prod_def)

lemma day_of_date: "date_of n = (y, m, d) \<Longrightarrow> day_of y m d = n"
proof -
  assume date: "date_of n = (y, m, d)"
  let ?q = "n div 146097" and ?c = "year_from 1 (n mod 146097)"
  have y: "y = 400 * ?q + fst ?c" and md: "(m, d) = month_from (month_lengths y) (snd ?c)"
    using date by (auto simp: date_of_eq year_of_day_eq)
  have b: "1 \<le> fst ?c \<and> fst ?c \<le> 400" by (rule year_in_cycle) simp
  then have "(y - 1) div 400 = ?q" "(y - 1) mod 400 + 1 = fst ?c"
    unfolding y by (cases "fst ?c"; simp)+
  moreover have "sum_list (take (m - 1) (month_lengths y)) + (d - 1) = snd ?c"
  proof -
    have "snd ?c < sum_list (month_lengths y)"
      using year_from_start [of 1 "n mod 146097"] unfolding y
      by (simp add: year_length_def is_leap_cycle flip: year_length_months)
    from month_from_bound [OF this] show ?thesis unfolding md [symmetric] by simp
  qed
  moreover have "sum_list (map year_length [1..<fst ?c]) + snd ?c = n mod 146097"
    by (rule year_from_sum)
  ultimately show ?thesis by (simp add: day_of_def add.assoc)
qed

lemma date_of_range:
  assumes "n < 3652059" and "date_of n = (y, m, d)"
  shows "1 \<le> y \<and> y \<le> 9999 \<and> 1 \<le> m \<and> m \<le> 12 \<and> 1 \<le> d \<and> d \<le> month_lengths y ! (m - 1)"
proof -
  let ?q = "n div 146097" and ?c = "year_from 1 (n mod 146097)"
  have y: "y = 400 * ?q + fst ?c" and md: "month_from (month_lengths y) (snd (year_of_day n)) = (m, d)"
    using assms(2) by (auto simp: date_of_eq year_of_day_eq)
  have b: "1 \<le> fst ?c \<and> fst ?c \<le> 400" by (rule year_in_cycle) simp
  have q: "?q \<le> 24" using assms(1) by simp
  have "fst ?c \<le> 399" if "?q = 24"
  proof -
    have "n mod 146097 < 145731" using that assms(1) div_mult_mod_eq [of n 146097] by simp
    then show ?thesis using year_from_bound [of "n mod 146097" 1 399] cycle_sums(2) by simp
  qed
  with b q have "1 \<le> y \<and> y \<le> 9999" unfolding y by (cases "?q = 24") auto
  moreover have "snd (year_of_day n) < sum_list (month_lengths y)"
    using year_of_day_rest [of n] assms(2) by (simp add: date_of_eq flip: year_length_months)
  from month_from_bound [OF this] have "1 \<le> m \<and> m \<le> 12 \<and> 1 \<le> d \<and> d \<le> month_lengths y ! (m - 1)"
    unfolding md by (simp add: month_lengths_def)
  ultimately show ?thesis by blast
qed

lemma month_lengths_le: "1 \<le> m \<Longrightarrow> m \<le> 12 \<Longrightarrow> month_lengths y ! (m - 1) \<le> 31"
proof -
  assume "1 \<le> m" "m \<le> 12"
  then have "month_lengths y ! (m - 1) \<in> set (month_lengths y)"
    by (intro nth_mem) (simp add: month_lengths_def)
  then show ?thesis by (auto simp: month_lengths_def)
qed

section \<open>The order of texts is the order of moments\<close>

text \<open>The time of day within a day, from its four fields.\<close>

lemma time_of_day:
  "((((t div 1000000 div 60) div 60) * 60 + (t div 1000000 div 60) mod 60) * 60 +
     (t div 1000000) mod 60) * 1000000 + t mod 1000000 = (t :: nat)"
  by simp

lemma divmod_pair_less:
  fixes a b :: nat and x y :: "'b::linorder"
  shows "(a div k, a mod k, x) < (b div k, b mod k, y) \<longleftrightarrow> (a, x) < (b, y)"
  unfolding less_prod_iff using divmod_less [of a b k] divmod_eq [of a b k] by blast

lemma time_less:
  fixes v w :: nat
  assumes "v < w"
  shows "(v div 1000000 div 60 div 60, v div 1000000 div 60 mod 60, v div 1000000 mod 60, v mod 1000000) <
    (w div 1000000 div 60 div 60, w div 1000000 div 60 mod 60, w div 1000000 mod 60, w mod 1000000)"
  unfolding divmod_pair_less
  using assms divmod_less [of v w 1000000] by (simp only: less_prod_iff)

lemma less_prod_same: "(a, x) < (a, y) \<longleftrightarrow> x < y" for a :: "'a::linorder" and x y :: "'b::linorder"
  by simp

lemma fields_less: "fields t < fields u \<longleftrightarrow> t < u"
proof -
  have "fields t < fields u" if "t < u" for t u
  proof (cases "t div DAY = u div DAY")
    case True
    have "t mod DAY < u mod DAY" using that True divmod_less [of t u DAY] by simp
    from time_less [OF this] show ?thesis
      unfolding fields_def Let_def split_beta True less_prod_same .
  next
    case False
    with that have "t div DAY < u div DAY" using divmod_less [of t u DAY] by blast
    then have "date_of (t div DAY) < date_of (u div DAY)" by (rule date_of_mono)
    then show ?thesis
      by (cases "date_of (t div DAY)"; cases "date_of (u div DAY)")
        (auto simp: fields_def Let_def less_prod_iff)
  qed
  then show ?thesis by (metis less_asym linorder_cases less_irrefl)
qed

lemma fields_range:
  assumes "t < MAX_MOMENT" and "fields t = (y, mo, d, h, mi, s, us)"
  shows "1 \<le> y" "y < 10 ^ 4" "1 \<le> mo" "mo \<le> 12" "1 \<le> d" "d \<le> month_lengths y ! (mo - 1)" "d \<le> 31"
    "h < 24" "mi < 60" "s < 60" "us < 10 ^ 6"
proof -
  have day: "t div DAY < 3652059"
    using assms(1) by (simp add: MAX_MOMENT_def DAY_def div_less_iff_less_mult)
  obtain date: "date_of (t div DAY) = (y, mo, d)"
    using assms(2) by (auto simp: fields_def Let_def split: prod.splits)
  from date_of_range [OF day date]
  show "1 \<le> y" "y < 10 ^ 4" "1 \<le> mo" "mo \<le> 12" "1 \<le> d" "d \<le> month_lengths y ! (mo - 1)"
    by auto
  with month_lengths_le [of mo y] show "d \<le> 31" by simp
  have "t mod DAY < 86400000000" by (simp add: DAY_def)
  then have "t mod DAY div 1000000 div 60 div 60 < 24"
    by (simp add: div_less_iff_less_mult)
  with assms(2) show "h < 24" "mi < 60" "s < 60" "us < 10 ^ 6"
    by (auto simp: fields_def Let_def split: prod.splits)
qed

lemma fraction_less:
  assumes "m < 10 ^ 6" "n < 10 ^ 6"
  shows "(if m = 0 then [] else ''.'' @ pad 6 m) @ ''+00:00'' < (if n = 0 then [] else ''.'' @ pad 6 n) @ ''+00:00''
    \<longleftrightarrow> m < n"
  using pad_field_less [OF assms, of "''+00:00''" "''+00:00''"]
  by (simp add: less_char_code)

lemma isoformat_less:
  assumes "t < MAX_MOMENT" and "u < MAX_MOMENT"
  shows "isoformat t < isoformat u \<longleftrightarrow> t < u"
proof -
  obtain y mo d h mi s us where t: "fields t = (y, mo, d, h, mi, s, us)" by (metis prod_cases7)
  obtain y' mo' d' h' mi' s' us' where u: "fields u = (y', mo', d', h', mi', s', us')"
    by (metis prod_cases7)
  note rt = fields_range [OF assms(1) t] and ru = fields_range [OF assms(2) u]
  have b: "mo < 10 ^ 2" "d < 10 ^ 2" "h < 10 ^ 2" "mi < 10 ^ 2" "s < 10 ^ 2"
    "mo' < 10 ^ 2" "d' < 10 ^ 2" "h' < 10 ^ 2" "mi' < 10 ^ 2" "s' < 10 ^ 2"
    using rt ru by auto
  have "isoformat t < isoformat u \<longleftrightarrow> fields t < fields u"
    unfolding isoformat_def t u prod.case pad_field_less [OF rt(2) ru(2)]
    by (simp add: pad_field_less [OF b(1) b(6)] pad_field_less [OF b(2) b(7)]
        pad_field_less [OF b(3) b(8)] pad_field_less [OF b(4) b(9)] pad_field_less [OF b(5) b(10)]
        fraction_less [OF rt(11) ru(11), simplified] less_prod_iff
        del: pad.simps less_prod_simp)
  then show ?thesis by (simp add: fields_less)
qed

text \<open>
  Comparing timestamps as text compares the moments: for any two moments from year 1 to year
  9999, in UTC and in the format the store writes, the texts are in lexicographic order exactly
  when the moments are in time order, even though the fraction of a second is left out when it is
  zero. The \<open>ORDER BY started_at\<close> of the store and the \<open>--since\<close> filters
  rest on this.
\<close>

theorem isoformat_order:
  assumes "t < MAX_MOMENT" and "u < MAX_MOMENT"
  shows "(isoformat t < isoformat u \<longleftrightarrow> t < u) \<and> (isoformat t = isoformat u \<longleftrightarrow> t = u)"
  using isoformat_less [OF assms] isoformat_less [OF assms(2,1)] by (metis less_irrefl linorder_cases)

lemmas iso_defs = isoformat_def fields_def date_of_def year_of_day_def year_from.simps
  month_lengths_def year_length_def is_leap_def DAY_def
  numeral_eq_Suc_pad digit_chars

theorem isoformat_order_witness:
  "isoformat 63839664000000000 = ''2024-01-01T00:00:00+00:00'' \<and>
   isoformat 63839664000500000 = ''2024-01-01T00:00:00.500000+00:00'' \<and>
   isoformat 63839664000000000 < isoformat 63839664000500000"
proof -
  have "isoformat 63839664000000000 = ''2024-01-01T00:00:00+00:00''"
    "isoformat 63839664000500000 = ''2024-01-01T00:00:00.500000+00:00''"
    by (simp_all add: iso_defs)
  with isoformat_order [of 63839664000000000 63839664000500000] show ?thesis
    by (simp add: MAX_MOMENT_def DAY_def)
qed

section \<open>Reading back\<close>

lemma pad_digits: "list_all is_digit (pad w n)"
proof (induction w arbitrary: n)
  case (Suc w)
  have "is_digit (digit (n mod 10))"
    by (simp add: is_digit_def)
  with Suc show ?case by simp
qed simp

lemma read_pad: "n < 10 ^ w \<Longrightarrow> read_nat (pad w n) = n"
proof (induction w arbitrary: n)
  case (Suc w)
  have "read_nat (pad w (n div 10)) = n div 10"
    by (rule Suc.IH) (rule div10_bound [OF Suc.prems])
  then show ?case by (simp add: read_nat_snoc)
qed (simp add: read_nat_def)

lemma field_pad: "n < 10 ^ w \<Longrightarrow> field w sep (pad w n @ sep @ rest) = Some (n, rest)"
  by (simp add: field_def pad_digits read_pad)

lemma field_pad_colon: "n < 10 ^ w \<Longrightarrow> field w [c] (pad w n @ c # rest) = Some (n, rest)"
  using field_pad [of n w "[c]" rest] by simp

lemma field_pad_Nil: "n < 10 ^ w \<Longrightarrow> field w [] (pad w n @ rest) = Some (n, rest)"
  using field_pad [of n w "[]" rest] by simp

lemma parse_written:
  assumes "t < MAX_MOMENT"
  shows "parse_iso (isoformat t) = Some t"
proof -
  obtain y mo d h mi s us where t: "fields t = (y, mo, d, h, mi, s, us)" by (metis prod_cases7)
  note r = fields_range [OF assms t]
  have b: "mo < 10 ^ 2" "d < 10 ^ 2" "h < 10 ^ 2" "mi < 10 ^ 2" "s < 10 ^ 2" using r by auto
  have date: "date_of (t div DAY) = (y, mo, d)"
    and time: "h = t mod DAY div 1000000 div 60 div 60" "mi = t mod DAY div 1000000 div 60 mod 60"
      "s = t mod DAY div 1000000 mod 60" "us = t mod DAY mod 1000000"
    using t by (auto simp: fields_def Let_def split: prod.splits)
  have "((h * 60 + mi) * 60 + s) * 1000000 + us = t mod DAY"
    unfolding time by (rule time_of_day)
  with day_of_date [OF date]
  have whole: "day_of y mo d * DAY + ((h * 60 + mi) * 60 + s) * 1000000 + us = t"
    by (simp only: add.assoc div_mult_mod_eq)
  have frac: "(case (if us = 0 then [] else ''.'' @ pad 6 us) @ ''+00:00'' of
      [] \<Rightarrow> Some (0, (if us = 0 then [] else ''.'' @ pad 6 us) @ ''+00:00'')
    | c # r \<Rightarrow> if c = CHR ''.'' then field 6 [] r
        else Some (0, (if us = 0 then [] else ''.'' @ pad 6 us) @ ''+00:00'')) = Some (us, ''+00:00'')"
    using field_pad_Nil [OF r(11), of "''+00:00''"] by simp
  have iso: "isoformat t = pad 4 y @ CHR ''-'' # pad 2 mo @ CHR ''-'' # pad 2 d @ CHR ''T'' #
      pad 2 h @ CHR '':'' # pad 2 mi @ CHR '':'' # pad 2 s @
      ((if us = 0 then [] else ''.'' @ pad 6 us) @ ''+00:00'')"
    by (simp add: isoformat_def t del: pad.simps)
  show ?thesis
    unfolding iso parse_iso_def field_pad_colon [OF r(2)] field_pad_colon [OF b(1)]
      field_pad_colon [OF b(2)] field_pad_colon [OF b(3)] field_pad_colon [OF b(4)]
      field_pad_Nil [OF b(5)] bind.bind_lunit prod.case frac
    using r whole by simp
qed

text \<open>
  Reading a stored timestamp gives back the moment it was written from, for every moment from
  year 1 to year 9999.
\<close>

theorem parse_isoformat:
  assumes "t < MAX_MOMENT"
  shows "parse_iso (isoformat t) = Some t"
  using assms by (rule parse_written)

theorem parse_isoformat_witness:
  "parse_iso ''2024-02-29T12:30:00.000001+00:00'' =
     Some (63844806600000001) \<and> isoformat 63844806600000001 = ''2024-02-29T12:30:00.000001+00:00''"
proof -
  have "isoformat 63844806600000001 = ''2024-02-29T12:30:00.000001+00:00''"
    by (simp add: iso_defs)
  with parse_isoformat [of 63844806600000001] show ?thesis
    by (simp add: MAX_MOMENT_def DAY_def)
qed

end
