(* ===== verification/Quarantine.thy ===== *)
theory Quarantine
  imports Ownership Detector Timestamps
begin

text \<open>
  The quarantine decision (\<open>policy/quarantine.py\<close>): the conjunction of conditions with its refusal
  reasons, the expiry checks and the release rule. The clock is the parameter \<open>now\<close>; \<open>None\<close> is the
  \<open>OverflowError\<close> of date arithmetic past the year 9999.
\<close>

section \<open>The program\<close>

definition INELIGIBLE_CAUSES :: "cause_code set" where
  "INELIGIBLE_CAUSES = {REAL_REGRESSION, INFRA_FLAKE}"

definition INELIGIBLE_VERDICTS :: "verdict set" where
  "INELIGIBLE_VERDICTS = {REGRESSION, NEW_FAILURE}"

datatype quarantine_state = RECOMMENDED | ACTIVE | EXPIRED | RELEASED

fun quarantine_state_value :: "quarantine_state \<Rightarrow> string" where
  "quarantine_state_value RECOMMENDED = ''recommended''"
| "quarantine_state_value ACTIVE = ''active''"
| "quarantine_state_value EXPIRED = ''expired''"
| "quarantine_state_value RELEASED = ''released''"

definition is_open :: "quarantine_state \<Rightarrow> bool" where
  "is_open s \<longleftrightarrow> s \<in> {RECOMMENDED, ACTIVE}"

datatype refusal_reason =
  NO_REFUSAL | FLAKE_RATE_BELOW_THRESHOLD | INSUFFICIENT_OBSERVATIONS | CAUSE_IS_REGRESSION
| CAUSE_IS_INFRA | VERDICT_INELIGIBLE | ALREADY_QUARANTINED | NOT_FLAKY

fun refusal_value :: "refusal_reason \<Rightarrow> string" where
  "refusal_value NO_REFUSAL = ''none''"
| "refusal_value FLAKE_RATE_BELOW_THRESHOLD = ''flake_rate_below_threshold''"
| "refusal_value INSUFFICIENT_OBSERVATIONS = ''insufficient_observations''"
| "refusal_value CAUSE_IS_REGRESSION = ''cause_is_regression''"
| "refusal_value CAUSE_IS_INFRA = ''cause_is_infra''"
| "refusal_value VERDICT_INELIGIBLE = ''verdict_ineligible''"
| "refusal_value ALREADY_QUARANTINED = ''already_quarantined''"
| "refusal_value NOT_FLAKY = ''not_flaky''"

record recommendation =
  qr_identity_id :: nat
  qr_test :: string
  qr_recommended :: bool
  qr_refusal :: refusal_reason
  qr_flake_rate :: pyfloat
  qr_observations :: nat
  qr_cause :: cause_code
  qr_verdict :: verdict
  qr_owner :: string
  qr_owner_source :: owner_source
  qr_ttl_days :: nat
  qr_expires_at :: string
  qr_clean_runs_required :: nat
  qr_merged_uncertain :: bool

definition owner_is_a_guess :: "recommendation \<Rightarrow> bool" where
  "owner_is_a_guess r \<longleftrightarrow> qr_owner_source r = LAST_COMMITTER"

definition recommendation_summary :: "recommendation \<Rightarrow> string" where
  "recommendation_summary r =
     (if \<not> qr_recommended r then ''not recommended ('' @ refusal_value (qr_refusal r) @ '')''
      else
        let ow = (if qr_owner r \<noteq> [] then qr_owner r else ''unresolved'')
        in ''quarantine '' @ qr_test r @ '' until '' @ take 10 (qr_expires_at r) @ '' (owner '' @ ow @
           '', releases after '' @ show_nat (qr_clean_runs_required r) @ '' clean runs)'')"

definition build ::
  "policy_config \<Rightarrow> detection \<Rightarrow> cause_code \<Rightarrow> bool \<Rightarrow> refusal_reason \<Rightarrow> owner option \<Rightarrow> string \<Rightarrow>
   recommendation" where
  "build settings det cause recommended refusal ow expires_at =
     (let resolved_owner = (case ow of None \<Rightarrow> UNRESOLVED | Some r \<Rightarrow> r)
      in \<lparr>qr_identity_id = d_identity_id det, qr_test = display_name (d_identity det),
          qr_recommended = recommended, qr_refusal = refusal, qr_flake_rate = d_flake_rate det,
          qr_observations = d_observations det, qr_cause = cause, qr_verdict = d_verdict det,
          qr_owner = ow_name resolved_owner, qr_owner_source = ow_source resolved_owner,
          qr_ttl_days = (if recommended then quarantine_ttl_days settings else 0),
          qr_expires_at = expires_at,
          qr_clean_runs_required = (if recommended then dequarantine_clean_runs settings else 0),
          qr_merged_uncertain = d_merged_uncertain det\<rparr>)"

text \<open>The early returns of \<open>evaluate\<close> in their order; \<open>None\<close> when every guard lets the test pass.\<close>

definition refusal_of ::
  "policy_config \<Rightarrow> detection \<Rightarrow> cause_code \<Rightarrow> bool \<Rightarrow> refusal_reason option" where
  "refusal_of settings det cause already_quarantined =
     (if d_verdict det \<in> INELIGIBLE_VERDICTS
      then Some (if d_verdict det = REGRESSION then CAUSE_IS_REGRESSION else VERDICT_INELIGIBLE)
      else if cause = REAL_REGRESSION then Some CAUSE_IS_REGRESSION
      else if cause = INFRA_FLAKE then Some CAUSE_IS_INFRA
      else if d_verdict det \<noteq> FLAKY then Some NOT_FLAKY
      else if already_quarantined then Some ALREADY_QUARANTINED
      else if d_observations det < quarantine_min_observations settings
      then Some INSUFFICIENT_OBSERVATIONS
      else if d_flake_rate det \<le> quarantine_flake_rate settings
      then Some FLAKE_RATE_BELOW_THRESHOLD
      else None)"

definition cause_of :: "classification option \<Rightarrow> cause_code" where
  "cause_of c = (case c of None \<Rightarrow> UNKNOWN | Some r \<Rightarrow> cl_cause r)"

definition evaluate ::
  "(string \<Rightarrow> string option) \<Rightarrow> code_owners option \<Rightarrow> bool \<Rightarrow> policy_config \<Rightarrow> moment \<Rightarrow>
   detection \<Rightarrow> classification option \<Rightarrow> bool \<Rightarrow> recommendation option" where
  "evaluate git_log codeowners allow_git settings now det c already_quarantined =
     (let cause = cause_of c in
      case refusal_of settings det cause already_quarantined of
        Some reason \<Rightarrow> Some (build settings det cause False reason None [])
      | None \<Rightarrow>
          let ow = resolve_owner git_log codeowners allow_git (Some (test_file_of (d_identity det)));
              expires = now + quarantine_ttl_days settings * DAY
          in if expires < MAX_MOMENT
             then Some (build settings det cause True NO_REFUSAL (Some ow) (isoformat expires))
             else None)"

fun consecutive_clean_runs :: "bool list \<Rightarrow> nat" where
  "consecutive_clean_runs [] = 0"
| "consecutive_clean_runs (passed # rest) =
     (if \<not> passed then 0 else Suc (consecutive_clean_runs rest))"

definition should_release :: "policy_config \<Rightarrow> nat \<Rightarrow> bool" where
  "should_release settings clean_runs \<longleftrightarrow> dequarantine_clean_runs settings \<le> clean_runs"

definition is_expiring :: "nat \<Rightarrow> moment \<Rightarrow> string \<Rightarrow> bool option" where
  "is_expiring within_days now expires_at =
     (case parse_iso expires_at of
        None \<Rightarrow> Some False
      | Some expiry \<Rightarrow>
          if now + within_days * DAY < MAX_MOMENT then Some (expiry \<le> now + within_days * DAY)
          else None)"

definition is_expired :: "moment \<Rightarrow> string \<Rightarrow> bool" where
  "is_expired now expires_at =
     (case parse_iso expires_at of None \<Rightarrow> False | Some expiry \<Rightarrow> expiry \<le> now)"

section \<open>The decision\<close>

lemmas quarantine_defs =
  evaluate_def refusal_of_def build_def INELIGIBLE_VERDICTS_def INELIGIBLE_CAUSES_def Let_def

text \<open>The four documented conditions, as one conjunction.\<close>

definition eligible :: "policy_config \<Rightarrow> detection \<Rightarrow> cause_code \<Rightarrow> bool \<Rightarrow> bool" where
  "eligible settings det cause already_quarantined \<longleftrightarrow>
     d_verdict det = FLAKY \<and> cause \<notin> INELIGIBLE_CAUSES \<and> \<not> already_quarantined \<and>
     quarantine_min_observations settings \<le> d_observations det \<and>
     quarantine_flake_rate settings < d_flake_rate det"

lemma refusal_of_None: "refusal_of settings det cause q = None \<longleftrightarrow> eligible settings det cause q"
  by (cases "d_verdict det") (auto simp: quarantine_defs eligible_def)

lemma refusal_not_none: "refusal_of settings det cause q \<noteq> Some NO_REFUSAL"
  by (simp add: quarantine_defs)

text \<open>
  A quarantine is the conjunction of four conditions and nothing else: the decision recommends a
  test exactly when the detector calls it flaky, neither layer calls it a regression or an
  infrastructure failure, no quarantine is open, and the observations and the flake rate clear their
  thresholds; every recommendation carries its expiry, owner and release condition, and every
  refusal a reason and none of the three.
\<close>

theorem quarantine_is_a_conjunction:
  "evaluate git_log codeowners allow_git settings now det c q =
     (if eligible settings det (cause_of c) q
      then (if now + quarantine_ttl_days settings * DAY < MAX_MOMENT
            then Some (build settings det (cause_of c) True NO_REFUSAL
                   (Some (resolve_owner git_log codeowners allow_git
                            (Some (test_file_of (d_identity det)))))
                   (isoformat (now + quarantine_ttl_days settings * DAY)))
            else None)
      else Some (build settings det (cause_of c) False
             (the (refusal_of settings det (cause_of c) q)) None [])) \<and>
   (\<not> (refusal_of settings det (cause_of c) q = Some NO_REFUSAL))"
  using refusal_of_None [of settings det "cause_of c" q] refusal_not_none
  by (auto simp: evaluate_def Let_def split: option.split)

definition recommends :: "recommendation option \<Rightarrow> bool" where
  "recommends r \<longleftrightarrow> (case r of None \<Rightarrow> False | Some x \<Rightarrow> qr_recommended x)"

lemma recommends_evaluate:
  "recommends (evaluate git_log codeowners allow_git settings now det c q) \<longleftrightarrow>
     eligible settings det (cause_of c) q \<and> now + quarantine_ttl_days settings * DAY < MAX_MOMENT"
  using refusal_of_None [of settings det "cause_of c" q]
  by (auto simp: evaluate_def recommends_def build_def Let_def split: option.split)

text \<open>
  C15. The model can only veto: whatever classification it gives, a test is recommended exactly
  when it would be recommended with no classification at all and the cause given is not an
  ineligible one; so no answer of the model ever causes a quarantine.
\<close>

theorem model_can_only_veto:
  "recommends (evaluate git_log codeowners allow_git settings now det (Some c) q) \<longleftrightarrow>
   recommends (evaluate git_log codeowners allow_git settings now det None q) \<and>
   cl_cause c \<notin> INELIGIBLE_CAUSES"
  unfolding recommends_evaluate by (auto simp: eligible_def cause_of_def INELIGIBLE_CAUSES_def)

text \<open>
  A quarantine ends when its time to live has passed: the expiry written by a recommendation
  made at \<open>now\<close> reads back as that moment plus the configured days, so the test
  counts as expired at \<open>later\<close> exactly from then on, and as expiring within
  \<open>days\<close> exactly that much earlier.
\<close>

theorem expiry_is_ttl_later:
  assumes "evaluate git_log codeowners allow_git settings now det c q = Some r" and "qr_recommended r"
  shows "(is_expired later (qr_expires_at r) \<longleftrightarrow> now + quarantine_ttl_days settings * DAY \<le> later) \<and>
    is_expiring days later (qr_expires_at r) =
      (if later + days * DAY < MAX_MOMENT
       then Some (now + quarantine_ttl_days settings * DAY \<le> later + days * DAY) else None)"
proof -
  let ?e = "now + quarantine_ttl_days settings * DAY"
  have "?e < MAX_MOMENT" "qr_expires_at r = isoformat ?e"
    using assms by (auto simp: evaluate_def build_def Let_def split: option.splits if_splits)
  then show ?thesis
    by (simp add: is_expired_def is_expiring_def parse_written)
qed

definition sample_recommendation :: "moment \<Rightarrow> recommendation" where
  "sample_recommendation now =
     build default_policy_config flaky_detection UNKNOWN True NO_REFUSAL (Some UNRESOLVED)
       (isoformat (now + 14 * DAY))"

lemma evaluate_flaky_detection:
  "now + 14 * DAY < MAX_MOMENT \<Longrightarrow>
   evaluate (\<lambda>_. None) None True default_policy_config now flaky_detection None False =
     Some (sample_recommendation now)"
  by (simp add: quarantine_defs default_policy_config_def sample_recommendation_def cause_of_def
      flaky_detection_def resolve_owner_def last_committer_def test_file_of_def)

theorem expiry_is_ttl_later_witness:
  "is_expired (15 * DAY) (qr_expires_at (sample_recommendation 0)) \<and>
   is_expiring 3 (11 * DAY) (qr_expires_at (sample_recommendation 0)) = Some True"
proof -
  have "evaluate (\<lambda>_. None) None True default_policy_config 0 flaky_detection None False =
      Some (sample_recommendation 0)"
    by (rule evaluate_flaky_detection) (simp add: MAX_MOMENT_def DAY_def)
  moreover have "qr_recommended (sample_recommendation 0)"
    by (simp add: sample_recommendation_def build_def Let_def)
  ultimately show ?thesis
    using expiry_is_ttl_later [of "\<lambda>_. None" None True default_policy_config 0 flaky_detection None False
        "sample_recommendation 0" "15 * DAY" 0]
      expiry_is_ttl_later [of "\<lambda>_. None" None True default_policy_config 0 flaky_detection None False
        "sample_recommendation 0" "11 * DAY" 3]
    by (simp add: default_policy_config_def MAX_MOMENT_def DAY_def)
qed

section \<open>Release\<close>

lemma clean_runs_takeWhile: "consecutive_clean_runs xs = length (takeWhile id xs)"
  by (induction xs) auto

lemma clean_runs_ge: "n \<le> consecutive_clean_runs xs \<longleftrightarrow> n \<le> length xs \<and> list_all id (take n xs)"
proof (induction xs arbitrary: n)
  case (Cons x xs)
  then show ?case by (cases n) auto
qed simp

lemma length_recent_outcomes: "length (recent_outcomes d limit i) \<le> limit"
proof -
  have "length (executions_for_group d (Some limit) i) \<le> limit"
    by (simp add: executions_for_group_def limited_def)
  then show ?thesis
    unfolding recent_outcomes_def
    by (simp add: order_trans [OF length_filter_le])
qed

text \<open>
  A test returns to blocking exactly when its last executions are clean: with the bound on
  the outcomes read, the release test holds exactly when at least the configured number of recent
  outcomes exist and the newest ones are all passes; a configured number above the bound therefore
  never releases anything.
\<close>

theorem release_needs_clean_runs:
  "should_release settings (consecutive_clean_runs (recent_outcomes d limit i)) \<longleftrightarrow>
     dequarantine_clean_runs settings \<le> min limit (length (recent_outcomes d limit i)) \<and>
     list_all id (take (dequarantine_clean_runs settings) (recent_outcomes d limit i))"
  using length_recent_outcomes [of d limit i] by (auto simp: should_release_def clean_runs_ge)

end
