(* ===== verification/Quarantine_Records.thy ===== *)
theory Quarantine_Records
  imports Quarantine
begin

text \<open>
  Stored quarantines and their lifecycle (\<open>policy/records.py\<close>, the \<open>quarantines\<close> table of
  \<open>store/schema.py\<close>). The table is a list of rows in insertion order; its foreign key refers to the
  identities of the run store \<open>d\<close>, which these operations only read, and its partial unique index on
  the open rows makes a second open quarantine a conflict.
\<close>

section \<open>The program\<close>

record quarantine_row =
  q_id :: nat
  q_identity_id :: nat
  q_state :: quarantine_state
  q_cause :: cause_code
  q_reason :: string
  q_flake_rate :: pyfloat
  q_observations :: nat
  q_owner :: string
  q_owner_source :: owner_source
  q_ttl_days :: nat
  q_clean_runs_required :: nat
  q_created_at :: string
  q_expires_at :: string
  q_closed_at :: "string option"
  q_close_reason :: "string option"

text \<open>\<open>QuarantineRecord\<close>: a stored row with the display name of its identity.\<close>

record quarantine_record =
  qc_test :: string
  qc_row :: quarantine_row

definition row_open :: "quarantine_row \<Rightarrow> bool" where
  "row_open r \<longleftrightarrow> is_open (q_state r)"

definition record_expiring :: "nat \<Rightarrow> moment \<Rightarrow> quarantine_row \<Rightarrow> bool option" where
  "record_expiring within_days now r =
     (if row_open r then is_expiring within_days now (q_expires_at r) else Some False)"

definition record_expired :: "moment \<Rightarrow> quarantine_row \<Rightarrow> bool" where
  "record_expired now r \<longleftrightarrow> row_open r \<and> is_expired now (q_expires_at r)"

definition new_row :: "string \<Rightarrow> recommendation \<Rightarrow> quarantine_state \<Rightarrow> nat \<Rightarrow> quarantine_row" where
  "new_row now r s k =
     \<lparr>q_id = k, q_identity_id = qr_identity_id r, q_state = s, q_cause = qr_cause r,
      q_reason = recommendation_summary r, q_flake_rate = qr_flake_rate r,
      q_observations = qr_observations r, q_owner = qr_owner r,
      q_owner_source = qr_owner_source r, q_ttl_days = qr_ttl_days r,
      q_clean_runs_required = qr_clean_runs_required r, q_created_at = now,
      q_expires_at = qr_expires_at r, q_closed_at = None, q_close_reason = None\<rparr>"

definition record_recommendation ::
  "db \<Rightarrow> string \<Rightarrow> recommendation \<Rightarrow> quarantine_state \<Rightarrow> quarantine_row list \<Rightarrow>
   db_error + nat option \<times> quarantine_row list" where
  "record_recommendation d now r s qs =
     (if \<not> qr_recommended r then Inr (None, qs)
      else if is_open s \<and> list_ex (\<lambda>q. row_open q \<and> q_identity_id q = qr_identity_id r) qs
      then Inr (None, qs)
      else if identity_exists d (qr_identity_id r)
      then Inr (Some (next_id q_id qs), qs @ [new_row now r s (next_id q_id qs)])
      else Inl IntegrityError)"

definition open_quarantine_ids :: "quarantine_row list \<Rightarrow> nat set" where
  "open_quarantine_ids qs = q_identity_id ` set (filter row_open qs)"

definition list_quarantines :: "db \<Rightarrow> bool \<Rightarrow> quarantine_row list \<Rightarrow> quarantine_record list" where
  "list_quarantines d open_only qs =
     List.map_filter
       (\<lambda>q. map_option (\<lambda>i. \<lparr>qc_test = display_name i, qc_row = q\<rparr>) (identity_by_id d (q_identity_id q)))
       (sort_key (\<lambda>q. (q_expires_at q, q_id q)) (filter (\<lambda>q. \<not> open_only \<or> row_open q) qs))"

definition close_row :: "nat \<Rightarrow> quarantine_state \<Rightarrow> string \<Rightarrow> string \<Rightarrow> quarantine_row \<Rightarrow> quarantine_row" where
  "close_row record_id s now reason q =
     (if q_id q = record_id \<and> row_open q
      then q\<lparr>q_state := s, q_closed_at := Some now, q_close_reason := Some reason\<rparr> else q)"

definition close ::
  "nat \<Rightarrow> quarantine_state \<Rightarrow> string \<Rightarrow> string \<Rightarrow> quarantine_row list \<Rightarrow> bool \<times> quarantine_row list" where
  "close record_id s now reason qs =
     (list_ex (\<lambda>q. q_id q = record_id \<and> row_open q) qs, map (close_row record_id s now reason) qs)"

definition ttl_reason :: "quarantine_row \<Rightarrow> string" where
  "ttl_reason q = ''ttl of '' @ show_nat (q_ttl_days q) @ '' day(s) elapsed while still unstable''"

definition expire_overdue ::
  "db \<Rightarrow> moment \<Rightarrow> quarantine_row list \<Rightarrow> quarantine_record list \<times> quarantine_row list" where
  "expire_overdue d now qs =
     (let overdue = filter (\<lambda>r. record_expired now (qc_row r)) (list_quarantines d True qs)
      in (overdue,
          fold (\<lambda>r rows. snd (close (q_id (qc_row r)) EXPIRED (isoformat now) (ttl_reason (qc_row r)) rows))
            overdue qs))"

text \<open>\<open>QuarantineStore.record\<close> is one transaction: an error leaves no result, so nothing is kept.\<close>

fun record_recommendations ::
  "db \<Rightarrow> string \<Rightarrow> recommendation list \<Rightarrow> quarantine_row list \<Rightarrow> nat \<Rightarrow>
   db_error + nat \<times> quarantine_row list" where
  "record_recommendations d now [] qs recorded = Inr (recorded, qs)"
| "record_recommendations d now (r # rs) qs recorded =
     (case record_recommendation d now r RECOMMENDED qs of
        Inl e \<Rightarrow> Inl e
      | Inr (k, qs') \<Rightarrow>
          record_recommendations d now rs qs' (if k = None then recorded else recorded + 1))"

definition release :: "string \<Rightarrow> nat \<Rightarrow> nat \<Rightarrow> quarantine_row list \<Rightarrow> bool \<times> quarantine_row list" where
  "release now record_id clean_runs qs =
     close record_id RELEASED now (show_nat clean_runs @ '' consecutive clean execution(s)'') qs"

definition summarize_states :: "quarantine_record list \<Rightarrow> (string \<times> nat) list" where
  "summarize_states rs =
     map (\<lambda>(k, xs). (k, length xs))
       (group_by (\<lambda>r. quarantine_state_value (q_state (qc_row r))) rs)"

section \<open>The lifecycle\<close>

text \<open>Everything the program does to the table: a recommendation recorded, an expiry, a release.\<close>

inductive quarantine_step :: "db \<Rightarrow> quarantine_row list \<Rightarrow> quarantine_row list \<Rightarrow> bool" for d where
  recommend: "record_recommendation d now r RECOMMENDED qs = Inr (k, qs') \<Longrightarrow> quarantine_step d qs qs'"
| expire: "expire_overdue d now qs = (expired, qs') \<Longrightarrow> quarantine_step d qs qs'"
| release: "release now record_id clean_runs qs = (b, qs') \<Longrightarrow> quarantine_step d qs qs'"

inductive quarantines_reach :: "db \<Rightarrow> quarantine_row list \<Rightarrow> quarantine_row list \<Rightarrow> bool" for d where
  start: "quarantines_reach d qs qs"
| step: "quarantines_reach d qs qs' \<Longrightarrow> quarantine_step d qs' qs'' \<Longrightarrow> quarantines_reach d qs qs''"

definition row_ok :: "quarantine_row \<Rightarrow> bool" where
  "row_ok q \<longleftrightarrow> q_state q \<noteq> ACTIVE \<and> (q_closed_at q = None \<longleftrightarrow> row_open q) \<and>
     (q_close_reason q = None \<longleftrightarrow> row_open q)"

text \<open>
  The invariant of the table: keys are unique, at most one open row per identity, every row refers
  to an identity, and a row is closed exactly when it says when and why.
\<close>

definition quarantines_ok :: "db \<Rightarrow> quarantine_row list \<Rightarrow> bool" where
  "quarantines_ok d qs \<longleftrightarrow>
     distinct (map q_id qs) \<and> distinct (map q_identity_id (filter row_open qs)) \<and>
     list_all (\<lambda>q. row_ok q \<and> identity_exists d (q_identity_id q)) qs"

text \<open>How one row may evolve: it stays, or it goes from open to expired or released, once.\<close>

definition evolves :: "quarantine_row \<Rightarrow> quarantine_row \<Rightarrow> bool" where
  "evolves q q' \<longleftrightarrow> q' = q \<or>
     row_open q \<and> q_state q' \<in> {EXPIRED, RELEASED} \<and>
     q\<lparr>q_state := q_state q', q_closed_at := q_closed_at q', q_close_reason := q_close_reason q'\<rparr> = q'"

lemma closed_states [simp]: "is_open RECOMMENDED" "is_open ACTIVE" "\<not> is_open EXPIRED" "\<not> is_open RELEASED"
  by (simp_all add: is_open_def)

lemma evolves_refl [simp]: "evolves q q"
  by (simp add: evolves_def)

lemma evolves_trans:
  assumes "evolves q q'" and "evolves q' q''"
  shows "evolves q q''"
proof (cases "q'' = q' \<or> q' = q")
  case False
  then have "q_state q' \<in> {EXPIRED, RELEASED}" "row_open q'"
    using assms by (auto simp: evolves_def)
  then show ?thesis by (auto simp: row_open_def)
qed (use assms in auto)

lemma close_row_evolves: "s \<in> {EXPIRED, RELEASED} \<Longrightarrow> evolves q (close_row i s now reason q)"
  by (auto simp: evolves_def close_row_def)

lemma close_row_keys [simp]:
  "q_id (close_row i s now reason q) = q_id q"
  "q_identity_id (close_row i s now reason q) = q_identity_id q"
  by (simp_all add: close_row_def)

lemma close_row_open: "s \<in> {EXPIRED, RELEASED} \<Longrightarrow>
  row_open (close_row i s now reason q) \<longleftrightarrow> row_open q \<and> q_id q \<noteq> i"
  by (auto simp: close_row_def row_open_def)

lemma close_row_ok: "s \<in> {EXPIRED, RELEASED} \<Longrightarrow> row_ok q \<Longrightarrow> row_ok (close_row i s now reason q)"
  by (auto simp: close_row_def row_ok_def row_open_def)

lemma distinct_filter_mono:
  "distinct (map f (filter P xs)) \<Longrightarrow> (\<And>x. Q x \<Longrightarrow> P x) \<Longrightarrow> distinct (map f (filter Q xs))"
  by (induction xs) (auto split: if_splits)

lemma close_ok:
  assumes "quarantines_ok d qs" and s: "s \<in> {EXPIRED, RELEASED}"
  shows "quarantines_ok d (snd (close i s now reason qs))"
proof -
  have "map q_identity_id (filter row_open (map (close_row i s now reason) qs)) =
      map q_identity_id (filter (\<lambda>q. row_open q \<and> q_id q \<noteq> i) qs)"
    by (induction qs) (auto simp: close_row_open [OF s])
  moreover have "distinct (map q_identity_id (filter (\<lambda>q. row_open q \<and> q_id q \<noteq> i) qs))"
    by (rule distinct_filter_mono [of _ row_open]) (use assms in \<open>auto simp: quarantines_ok_def\<close>)
  ultimately show ?thesis
    using assms by (auto simp: quarantines_ok_def close_def comp_def list_all_iff close_row_ok)
qed

lemma next_id_gt: "q \<in> set qs \<Longrightarrow> q_id q < next_id q_id qs"
proof -
  have "x \<in> set xs \<Longrightarrow> x \<le> fold max xs (m::nat)" for x xs m
  proof -
    have "fold max xs m = Max (set (m # xs))" by (simp only: Max.set_eq_fold)
    then show "x \<in> set xs \<Longrightarrow> x \<le> fold max xs m" by simp
  qed
  from this [of "q_id q" "map q_id qs" 0] show "q \<in> set qs \<Longrightarrow> q_id q < next_id q_id qs"
    by (auto simp: next_id_def less_Suc_eq_le)
qed

lemma recommend_ok:
  assumes "quarantines_ok d qs" and "record_recommendation d now r RECOMMENDED qs = Inr (k, qs')"
  shows "quarantines_ok d qs' \<and> prefix qs qs'"
proof -
  define n where "n = new_row now r RECOMMENDED (next_id q_id qs)"
  have n: "row_open n" "row_ok n" "q_id n = next_id q_id qs" "q_identity_id n = qr_identity_id r"
    by (simp_all add: n_def new_row_def row_open_def row_ok_def)
  have "qs' = qs \<or> qs' = qs @ [n] \<and> identity_exists d (qr_identity_id r) \<and>
      qr_identity_id r \<notin> q_identity_id ` set (filter row_open qs)"
    using assms(2) by (auto simp: record_recommendation_def n_def list_ex_iff split: if_splits)
  moreover have "next_id q_id qs \<notin> q_id ` set qs"
    using next_id_gt [of _ qs] by fastforce
  ultimately show ?thesis
    using assms(1) n by (elim disjE) (simp_all add: quarantines_ok_def)
qed

lemma expire_fold:
  assumes "quarantines_ok d qs"
  shows "quarantines_ok d (snd (expire_overdue d now qs)) \<and>
    list_all2 evolves qs (snd (expire_overdue d now qs))"
proof -
  have "quarantines_ok d (fold (\<lambda>r rows. snd (close (f r) EXPIRED now' (g r) rows)) rs qs) \<and>
      list_all2 evolves qs (fold (\<lambda>r rows. snd (close (f r) EXPIRED now' (g r) rows)) rs qs)"
    for f g now' and rs :: "quarantine_record list"
    using assms
  proof (induction rs arbitrary: qs)
    case Nil
    then show ?case by (simp add: list_all2_refl)
  next
    case (Cons r rs)
    let ?qs = "snd (close (f r) EXPIRED now' (g r) qs)"
    have ev: "list_all2 evolves qs ?qs"
      by (simp add: close_def list_all2_conv_all_nth close_row_evolves)
    have "quarantines_ok d ?qs"
      using Cons.prems by (simp add: close_ok)
    note IH = Cons.IH [OF this]
    show ?case
      unfolding fold_simps
      by (rule conjI [OF conjunct1 [OF IH]
            list_all2_trans [OF evolves_trans ev conjunct2 [OF IH]]])
  qed
  then show ?thesis by (simp add: expire_overdue_def Let_def)
qed

lemma step_ok:
  assumes "quarantine_step d qs qs'" and "quarantines_ok d qs"
  shows "quarantines_ok d qs' \<and> list_all2 evolves qs (take (length qs) qs')"
  using assms(1)
proof cases
  case (recommend now r k)
  then show ?thesis
    using recommend_ok [OF assms(2)] by (force simp: prefix_def list_all2_refl)
next
  case (expire now expired)
  then show ?thesis
    using expire_fold [OF assms(2), of now] by (simp add: list_all2_conv_all_nth)
next
  case (release now record_id clean_runs b)
  then have "qs' = snd (close record_id RELEASED now
      (show_nat clean_runs @ '' consecutive clean execution(s)'') qs)"
    by (simp add: release_def)
  then show ?thesis
    using close_ok [OF assms(2)] by (simp add: close_def list_all2_conv_all_nth close_row_evolves)
qed

lemma reach_ok:
  assumes "quarantines_reach d qs qs'" and "quarantines_ok d qs"
  shows "quarantines_ok d qs' \<and> list_all2 evolves qs (take (length qs) qs')"
  using assms
proof induction
  case (start qs)
  then show ?case by (simp add: list_all2_refl)
next
  case (step qs qs' qs'')
  then have ok: "quarantines_ok d qs'" and one: "list_all2 evolves qs (take (length qs) qs')"
    by simp_all
  note two = step_ok [OF step.hyps(2) ok]
  have "length qs \<le> length qs'" using list_all2_lengthD [OF one] by simp
  then have "list_all2 evolves (take (length qs) qs') (take (length qs) qs'')"
    using list_all2_takeI [OF conjunct2 [OF two], of "length qs"] by (simp add: min_def)
  with one two show ?case
    by (auto intro: list_all2_trans [OF evolves_trans])
qed

lemma quarantines_ok_Nil: "quarantines_ok d []"
  by (simp add: quarantines_ok_def)

text \<open>
  C16. The lifecycle of a quarantine: in every table the program can produce from the empty one,
  each identity has at most one open quarantine, each row names a known identity, and a row
  carries a closing time and reason exactly when it is closed; and whatever the program does next
  keeps every row, changes an open one only by closing it as expired or released, and never
  touches a closed one again. No row is ever \<open>active\<close>.
\<close>

theorem quarantine_lifecycle:
  assumes "quarantines_reach d [] qs" and "quarantines_reach d qs qs'"
  shows "quarantines_ok d qs \<and> list_all2 evolves qs (take (length qs) qs')"
  using reach_ok [OF assms(1) quarantines_ok_Nil] reach_ok [OF assms(2)] by blast

definition sample_quarantines :: "quarantine_row list" where
  "sample_quarantines = [new_row ''t0'' (sample_recommendation 0) RECOMMENDED 1]"

lemma sample_quarantines_reach:
  assumes "identity_exists d 1"
  shows "quarantines_reach d [] sample_quarantines"
proof -
  have "record_recommendation d ''t0'' (sample_recommendation 0) RECOMMENDED [] =
      Inr (Some 1, sample_quarantines)"
    using assms by (simp add: record_recommendation_def sample_recommendation_def build_def Let_def
        flaky_detection_def sample_quarantines_def next_id_def)
  then show ?thesis
    by (blast intro: quarantines_reach.intros quarantine_step.intros)
qed

lemma sample_quarantines_reached: "quarantines_reach sample_db [] sample_quarantines"
  by (rule sample_quarantines_reach) code_simp

lemma sample_quarantine_overdue: "q \<in> set sample_quarantines \<Longrightarrow> record_expired (15 * DAY) q"
  by (simp add: sample_quarantines_def new_row_def record_expired_def row_open_def sample_recommendation_def
      build_def Let_def is_expired_def parse_written MAX_MOMENT_def DAY_def)

theorem quarantine_lifecycle_witness:
  "quarantines_ok sample_db sample_quarantines \<and>
   list_all2 evolves sample_quarantines
     (take (length sample_quarantines) (snd (expire_overdue sample_db (15 * DAY) sample_quarantines)))"
  by (rule quarantine_lifecycle [OF sample_quarantines_reached])
    (rule quarantines_reach.step [OF quarantines_reach.start], rule quarantine_step.expire, rule surjective_pairing)

section \<open>Expiry\<close>

definition expired_row :: "moment \<Rightarrow> quarantine_row \<Rightarrow> quarantine_row" where
  "expired_row now q =
     q\<lparr>q_state := EXPIRED, q_closed_at := Some (isoformat now), q_close_reason := Some (ttl_reason q)\<rparr>"

lemma fold_map_rows: "fold (\<lambda>r. map (f r)) rs xs = map (fold f rs) xs"
  by (induction rs arbitrary: xs) simp_all

lemma fold_close_closed:
  "\<not> row_open q \<Longrightarrow> fold (\<lambda>r. close_row (i r) s t (g r)) rs q = q"
  by (induction rs) (simp_all add: close_row_def)

lemma fold_close_row:
  "row_open q \<Longrightarrow> \<forall>r\<in>set rs. q_id (qc_row r) = q_id q \<longrightarrow> qc_row r = q \<Longrightarrow>
   fold (\<lambda>r. close_row (q_id (qc_row r)) EXPIRED (isoformat now) (ttl_reason (qc_row r))) rs q =
     (if q \<in> qc_row ` set rs then expired_row now q else q)"
proof (induction rs)
  case (Cons r rs)
  show ?case
  proof (cases "q_id (qc_row r) = q_id q")
    case True
    then have "qc_row r = q" using Cons.prems by simp
    moreover have "\<not> row_open (expired_row now q)"
      by (simp add: expired_row_def row_open_def)
    moreover have "close_row (q_id q) EXPIRED (isoformat now) (ttl_reason q) q = expired_row now q"
      using Cons.prems by (simp add: close_row_def expired_row_def)
    ultimately show ?thesis by (simp add: fold_close_closed)
  next
    case False
    then have "close_row (q_id (qc_row r)) EXPIRED (isoformat now) (ttl_reason (qc_row r)) q = q"
      by (simp add: close_row_def)
    then show ?thesis using Cons False by auto
  qed
qed simp

lemma identity_by_id_iff: "identity_exists d i \<longleftrightarrow> identity_by_id d i \<noteq> None"
  by (auto simp: identity_exists_def identity_by_id_def find_None_iff)

lemma set_list_quarantines:
  assumes "quarantines_ok d qs"
  shows "qc_row ` set (list_quarantines d open_only qs) = set (filter (\<lambda>q. \<not> open_only \<or> row_open q) qs)"
proof -
  have "identity_by_id d (q_identity_id q) \<noteq> None" if "q \<in> set qs" for q
    using assms that by (auto simp: quarantines_ok_def list_all_iff identity_by_id_iff)
  then show ?thesis
    by (force simp: list_quarantines_def List.map_filter_def image_iff)
qed

lemma expire_overdue_result:
  assumes ok: "quarantines_ok d qs"
  shows "snd (expire_overdue d now qs) =
      map (\<lambda>q. if record_expired now q then expired_row now q else q) qs \<and>
    qc_row ` set (fst (expire_overdue d now qs)) = set (filter (record_expired now) qs)"
proof -
  define overdue where "overdue = filter (\<lambda>r. record_expired now (qc_row r)) (list_quarantines d True qs)"
  have listed: "qc_row ` set overdue = set (filter (record_expired now) qs)"
    using set_list_quarantines [OF ok, of True]
    by (auto simp: overdue_def record_expired_def image_iff set_eq_iff) metis
  have "fold (\<lambda>r. close_row (q_id (qc_row r)) EXPIRED (isoformat now) (ttl_reason (qc_row r))) overdue q =
      (if record_expired now q then expired_row now q else q)" if q: "q \<in> set qs" for q
  proof (cases "row_open q")
    case True
    have "\<forall>r\<in>set overdue. q_id (qc_row r) = q_id q \<longrightarrow> qc_row r = q"
      using listed q ok by (fastforce simp: quarantines_ok_def distinct_map inj_on_def)
    from fold_close_row [OF True this] listed q show ?thesis by auto
  next
    case False
    then show ?thesis by (simp add: fold_close_closed record_expired_def)
  qed
  then show ?thesis
    using listed by (simp add: expire_overdue_def close_def fold_map_rows flip: overdue_def)
qed

text \<open>
  Applying the time to live closes exactly the overdue quarantines: every open row whose
  expiry has passed becomes expired with the time and the reason, every other row is untouched,
  and the list returned names exactly the rows closed.
\<close>

theorem expiry_closes_the_overdue:
  assumes "quarantines_reach d [] qs"
  shows "snd (expire_overdue d now qs) =
      map (\<lambda>q. if record_expired now q then expired_row now q else q) qs \<and>
    qc_row ` set (fst (expire_overdue d now qs)) = set (filter (record_expired now) qs)"
  by (rule expire_overdue_result [OF conjunct1 [OF reach_ok [OF assms quarantines_ok_Nil]]])

theorem expiry_closes_the_overdue_witness:
  "snd (expire_overdue sample_db (15 * DAY) sample_quarantines) =
     map (expired_row (15 * DAY)) sample_quarantines"
proof -
  have "is_expired (15 * DAY) (isoformat (14 * DAY))"
    by (simp add: is_expired_def parse_written MAX_MOMENT_def DAY_def)
  then show ?thesis
    using expiry_closes_the_overdue [OF sample_quarantines_reached, of "15 * DAY"]
    by (simp add: sample_quarantines_def new_row_def sample_recommendation_def build_def Let_def
        record_expired_def row_open_def)
qed

end
