(* ===== verification/Window.thy ===== *)
theory Window
  imports Timestamps History
begin

text \<open>
  The lookback window of \<open>--since\<close> (\<open>report/window.py\<close>): parsing a duration and turning it into the
  timestamp the store filters are compared with.
\<close>

datatype window_error = InvalidWindowError | OverflowError

text \<open>Durations in microseconds; \<open>timedelta\<close> holds less than a thousand million days.\<close>

definition unit_length :: "char \<Rightarrow> nat option" where
  "unit_length u =
     (let l = lower_char u in
      if l = CHR ''s'' then Some 1000000
      else if l = CHR ''m'' then Some (60 * 1000000)
      else if l = CHR ''h'' then Some (3600 * 1000000)
      else if l = CHR ''d'' then Some DAY
      else if l = CHR ''w'' then Some (7 * DAY)
      else None)"

definition parse_duration :: "string \<Rightarrow> window_error + nat" where
  "parse_duration v =
     (let s = strip v; amount = takeWhile is_digit s;
          rest = dropWhile is_space (dropWhile is_digit s)
      in if amount = [] then Inl InvalidWindowError
         else (case rest of
             [u] \<Rightarrow>
               (case unit_length u of
                  None \<Rightarrow> Inl InvalidWindowError
                | Some l \<Rightarrow>
                    if read_nat amount * l < 1000000000 * DAY then Inr (read_nat amount * l)
                    else Inl OverflowError)
           | _ \<Rightarrow> Inl InvalidWindowError))"

definition cutoff_iso :: "moment \<Rightarrow> string \<Rightarrow> window_error + string" where
  "cutoff_iso now v =
     (case parse_duration v of
        Inl e \<Rightarrow> Inl e
      | Inr l \<Rightarrow> if l \<le> now then Inr (isoformat (now - l)) else Inl OverflowError)"

section \<open>Lemmas\<close>

lemma takeWhile_digits: "list_all is_digit a \<Longrightarrow> \<not> is_digit c \<Longrightarrow> takeWhile is_digit (a @ c # r) = a"
  by (induction a) auto

lemma dropWhile_digits: "list_all is_digit a \<Longrightarrow> \<not> is_digit c \<Longrightarrow> dropWhile is_digit (a @ c # r) = c # r"
  by (induction a) auto

text \<open>
  Durations read as they are written: the decimal number of units followed by the unit
  letter, with any blanks before, between and after, is read as that number of units, as long as
  it fits a \<open>timedelta\<close>.
\<close>

theorem parse_duration_reads:
  assumes "unit_length u = Some l" and "\<not> is_digit u" and "\<not> is_space u"
    and "list_all is_space before" and "list_all is_space between" and "list_all is_space behind"
    and "n * l < 1000000000 * DAY"
  shows "parse_duration (before @ show_nat n @ between @ [u] @ behind) = Inr (n * l)"
proof -
  define core where "core = show_nat n @ between @ [u]"
  have digit_space: "is_digit c \<Longrightarrow> \<not> is_space c" for c
    by (auto simp: is_digit_def is_space_def)
  obtain c0 cs where c0: "show_nat n = c0 # cs" by (cases "show_nat n") auto
  then have "is_digit c0" using show_nat_digits [of n] by simp
  then have core: "core \<noteq> []" "\<not> is_space (hd core)" "\<not> is_space (last core)"
    using assms(3) digit_space by (simp_all add: core_def c0)
  have drop: "dropWhile is_space (bs @ xs) = xs"
    if "list_all is_space bs" "xs \<noteq> []" "\<not> is_space (hd xs)" for bs xs
    using that by (induction bs) (auto simp: neq_Nil_conv)
  have "dropWhile is_space (before @ core @ behind) = core @ behind"
    using assms(4) core by (intro drop) (auto simp: hd_append)
  moreover have "dropWhile is_space (rev behind @ rev core) = rev core"
    using assms(6) core by (intro drop) (auto simp: list_all_iff hd_rev)
  ultimately have "strip (before @ core @ behind) = core"
    by (simp add: strip_def strip_by_def lstrip_by_def rstrip_by_def)
  then have "strip (before @ show_nat n @ between @ [u] @ behind) = core"
    by (simp add: core_def)
  moreover obtain c r where cr: "between @ [u] = c # r" by (cases between) auto
  have "\<not> is_digit c"
    using cr assms(2,5) digit_space by (cases between) auto
  then have "takeWhile is_digit core = show_nat n" "dropWhile is_digit core = between @ [u]"
    using show_nat_digits [of n] unfolding core_def cr by (simp_all add: takeWhile_digits dropWhile_digits)
  moreover have "dropWhile is_space (between @ [u]) = [u]"
    using assms(3,5) by (induction between) auto
  ultimately show ?thesis
    using assms(1,7) by (simp add: parse_duration_def Let_def)
qed

lemma unit_length_d: "unit_length (CHR ''d'') = Some DAY"
proof -
  have "lower_char (CHR ''d'') = CHR ''d''" by code_simp
  then show ?thesis by (simp add: unit_length_def Let_def)
qed

theorem parse_duration_reads_witness:
  "parse_duration '' 30 D '' = Inr (30 * DAY)"
proof -
  have "lower_char (CHR ''D'') = CHR ''d''" by code_simp
  then have "show_nat 30 = ''30''" "unit_length (CHR ''D'') = Some DAY"
    by (simp_all add: show_nat.simps digit_chars unit_length_def Let_def)
  then show ?thesis
    using parse_duration_reads [of "CHR ''D''" DAY "'' ''" "'' ''" "'' ''" 30]
    by (simp add: is_digit_def is_space_def DAY_def)
qed

text \<open>
  C38. The \<open>--since\<close> filter keeps exactly the executions of the window: an execution
  whose start time was stored for the moment \<open>t\<close> passes the text comparison with the
  cut-off exactly when \<open>t\<close> is no longer ago than the duration.
\<close>

theorem cutoff_selects_window:
  assumes "parse_duration v = Inr l" and "l \<le> now" and "now < MAX_MOMENT" and "t < MAX_MOMENT"
  shows "\<exists>cutoff. cutoff_iso now v = Inr cutoff \<and> (cutoff \<le> isoformat t \<longleftrightarrow> now - l \<le> t)"
  using assms isoformat_less [of t "now - l"]
  by (auto simp: cutoff_iso_def not_less [symmetric])

theorem cutoff_selects_window_witness:
  "\<exists>cutoff. cutoff_iso 63842256000000000 ''30d'' = Inr cutoff \<and>
     \<not> cutoff \<le> isoformat 63839663999000000 \<and> cutoff \<le> isoformat 63839664000000000"
proof -
  have "parse_duration ''30d'' = Inr (30 * 86400000000)"
    by (simp add: parse_duration_def strip_def strip_by_def lstrip_by_def rstrip_by_def is_space_def
        is_digit_def read_nat_def unit_length_d DAY_def Let_def)
  from cutoff_selects_window [OF this, of 63842256000000000 63839664000000000]
    cutoff_selects_window [OF this, of 63842256000000000 63839663999000000]
  show ?thesis by (auto simp: MAX_MOMENT_def DAY_def)
qed

end
