(* ===== verification/Commands.thy ===== *)
theory Commands
  imports Metrics Quarantine_Records Window
begin

text \<open>
  The commands that tie the components together (\<open>cli.py\<close>): the detection path that \<open>detect\<close>,
  \<open>triage\<close>, \<open>report\<close> and \<open>policy\<close> share, and the quarantine run of \<open>policy\<close> with and without
  \<open>--apply\<close>. Printing is in \<open>Cli_Output\<close>; \<open>None\<close> for the store is a missing file.
\<close>

section \<open>The program\<close>

datatype command_failure =
    Exit nat
  | UncaughtOverflow
  | UncaughtDb db_error

definition run_detection ::
  "detect_config \<Rightarrow> moment \<Rightarrow> db option \<Rightarrow> string \<Rightarrow> string option \<Rightarrow> command_failure + detection list" where
  "run_detection settings now store since sha =
     (case cutoff_iso now since of
        Inl InvalidWindowError \<Rightarrow> Inl (Exit 1)
      | Inl Window.OverflowError \<Rightarrow> Inl UncaughtOverflow
      | Inr cutoff \<Rightarrow>
          (case store of
             None \<Rightarrow> Inl (Exit 1)
           | Some d \<Rightarrow> Inr (detect_all settings (map_option (failing_identities_at_sha d) sha) (Some cutoff) d)))"

text \<open>The default bound of \<open>recent_outcomes\<close>.\<close>

definition RECENT_LIMIT :: nat where
  "RECENT_LIMIT = 50"

fun release_loop ::
  "policy_config \<Rightarrow> db \<Rightarrow> string \<Rightarrow> quarantine_record list \<Rightarrow> quarantine_row list \<times> string list \<Rightarrow>
   quarantine_row list \<times> string list" where
  "release_loop settings d now [] (qs, released) = (qs, released)"
| "release_loop settings d now (r # rs) (qs, released) =
     (let clean = consecutive_clean_runs (recent_outcomes d RECENT_LIMIT (q_identity_id (qc_row r))) in
      if should_release settings clean
      then release_loop settings d now rs
             (snd (release now (q_id (qc_row r)) clean qs), released @ [qc_test r])
      else release_loop settings d now rs (qs, released))"

record policy_env =
  pe_git_log :: "string \<Rightarrow> string option"
  pe_codeowners :: "code_owners option"
  pe_settings :: policy_config
  pe_now :: moment

record policy_outcome =
  po_recommendations :: "recommendation list"
  po_expired :: "quarantine_record list"
  po_released :: "string list"
  po_records :: "quarantine_record list"
  po_rows :: "quarantine_row list"

definition decisions ::
  "policy_env \<Rightarrow> metrics_db \<Rightarrow> detection list \<Rightarrow> quarantine_row list \<Rightarrow> recommendation list option" where
  "decisions env m dets qs =
     those (map (\<lambda>det. evaluate (pe_git_log env) (pe_codeowners env) True (pe_settings env) (pe_now env) det
        (latest_classification m (d_identity_id det)) (d_identity_id det \<in> open_quarantine_ids qs)) dets)"

definition policy_run ::
  "policy_env \<Rightarrow> db \<Rightarrow> metrics_db \<Rightarrow> bool \<Rightarrow> detection list \<Rightarrow> quarantine_row list \<Rightarrow>
   command_failure + policy_outcome" where
  "policy_run env d m apply_changes dets qs =
     (let now = isoformat (pe_now env);
          (expired, qs1) = (if apply_changes then expire_overdue d (pe_now env) qs else ([], qs))
      in case decisions env m dets qs1 of
           None \<Rightarrow> Inl UncaughtOverflow
         | Some recommendations \<Rightarrow>
             if apply_changes
             then (case record_recommendations d now (filter qr_recommended recommendations) qs1 0 of
                     Inl e \<Rightarrow> Inl (UncaughtDb e)
                   | Inr (n, qs2) \<Rightarrow>
                       (let (qs3, released) = release_loop (pe_settings env) d now
                              (list_quarantines d True qs2) (qs2, [])
                        in Inr \<lparr>po_recommendations = recommendations, po_expired = expired,
                             po_released = released, po_records = list_quarantines d True qs3,
                             po_rows = qs3\<rparr>))
             else Inr \<lparr>po_recommendations = recommendations, po_expired = expired, po_released = [],
                    po_records = list_quarantines d True qs1, po_rows = qs1\<rparr>)"

section \<open>Every change is a step of the lifecycle\<close>

lemma reach_trans:
  "quarantines_reach d qs' qs'' \<Longrightarrow> quarantines_reach d qs qs' \<Longrightarrow> quarantines_reach d qs qs''"
  by (induction rule: quarantines_reach.induct) (auto intro: quarantines_reach.step)

lemma reach_one: "quarantine_step d qs qs' \<Longrightarrow> quarantines_reach d qs qs'"
  by (blast intro: quarantines_reach.intros)

lemma recommendation_result:
  assumes "identity_exists d (qr_identity_id r)"
  obtains k new where "record_recommendation d now r RECOMMENDED qs = Inr (k, qs @ new)"
    and "list_all (\<lambda>q. qr_recommended r \<and> qr_identity_id r = q_identity_id q) new"
proof (cases "qr_recommended r \<and> \<not> list_ex (\<lambda>q. row_open q \<and> q_identity_id q = qr_identity_id r) qs")
  case True
  then show ?thesis
    using assms that [of "Some (next_id q_id qs)" "[new_row now r RECOMMENDED (next_id q_id qs)]"]
    by (simp add: record_recommendation_def) (simp add: new_row_def)
next
  case False
  then show ?thesis
    using that [of None "[]"] by (auto simp: record_recommendation_def)
qed

lemma recommendations_reach:
  "list_all (\<lambda>r. identity_exists d (qr_identity_id r)) rs \<Longrightarrow>
   \<exists>n' qs'. record_recommendations d now rs qs n = Inr (n', qs') \<and> quarantines_reach d qs qs' \<and>
     (\<exists>new. qs' = qs @ new \<and>
        list_all (\<lambda>q. \<exists>r\<in>set rs. qr_recommended r \<and> qr_identity_id r = q_identity_id q) new)"
proof (induction rs arbitrary: qs n)
  case Nil
  then show ?case by (auto intro: quarantines_reach.start)
next
  case (Cons r rs)
  obtain k qs1 where one: "record_recommendation d now r RECOMMENDED qs = Inr (k, qs1)"
    and added: "\<exists>new. qs1 = qs @ new \<and> list_all (\<lambda>q. qr_recommended r \<and> qr_identity_id r = q_identity_id q) new"
    using Cons.prems by (auto intro: recommendation_result [of d r now qs])
  obtain n' qs' where rest: "record_recommendations d now rs qs1 (if k = None then n else n + 1) = Inr (n', qs')"
    "quarantines_reach d qs1 qs'" "\<exists>new. qs' = qs1 @ new \<and>
        list_all (\<lambda>q. \<exists>r\<in>set rs. qr_recommended r \<and> qr_identity_id r = q_identity_id q) new"
    using Cons.IH [of qs1 "if k = None then n else n + 1"] Cons.prems by auto
  have "quarantines_reach d qs qs'"
    using reach_trans [OF rest(2)] reach_one [OF quarantine_step.recommend [OF one]] by blast
  then show ?case
    using one rest(1,3) added by (fastforce simp: list_all_iff)
qed

lemma release_loop_reach: "quarantines_reach d qs (fst (release_loop settings d now rs (qs, released)))"
proof (induction rs arbitrary: qs released)
  case (Cons r rs)
  define clean where "clean = consecutive_clean_runs (recent_outcomes d RECENT_LIMIT (q_identity_id (qc_row r)))"
  have "quarantine_step d qs (snd (release now (q_id (qc_row r)) clean qs))"
    by (rule quarantine_step.release) (rule surjective_pairing)
  then show ?case
    using Cons.IH reach_trans reach_one by (simp add: Let_def flip: clean_def) blast
qed (simp add: quarantines_reach.start)

lemma release_loop_keeps_ids:
  "map q_identity_id (fst (release_loop settings d now rs (qs, released))) = map q_identity_id qs"
proof (induction rs arbitrary: qs released)
  case (Cons r rs)
  then show ?case by (simp add: Let_def release_def close_def comp_def)
qed simp

lemma those_Some: "those xs = Some ys \<longleftrightarrow> xs = map Some ys"
proof (induction xs arbitrary: ys)
  case (Cons x xs)
  then show ?case by (cases ys) (auto split: option.split)
qed auto

lemma those_exists: "list_all (\<lambda>x. x \<noteq> None) xs \<Longrightarrow> \<exists>ys. those xs = Some ys"
  by (induction xs) auto

lemma evaluate_defined:
  "now + quarantine_ttl_days settings * DAY < MAX_MOMENT \<Longrightarrow>
   \<exists>r. evaluate git_log codeowners allow_git settings now det c q = Some r \<and>
     qr_identity_id r = d_identity_id det"
  by (auto simp: evaluate_def build_def Let_def split: option.split)

lemma recommended_verdict:
  "evaluate git_log codeowners allow_git settings now det c q = Some r \<Longrightarrow> qr_recommended r \<Longrightarrow>
   d_verdict det = FLAKY \<and> cause_of c \<notin> INELIGIBLE_CAUSES \<and> \<not> q"
  using refusal_of_None [of settings det "cause_of c" q]
  by (auto simp: evaluate_def build_def eligible_def Let_def split: option.splits if_splits)

lemma recommended_expiry:
  "evaluate git_log codeowners allow_git settings now det c q = Some r \<Longrightarrow> qr_recommended r \<Longrightarrow>
   qr_expires_at r = isoformat (now + quarantine_ttl_days settings * DAY)"
  by (auto simp: evaluate_def build_def Let_def split: option.splits if_splits)

lemma detection_exists:
  assumes "x \<in> set (detect_all c ids since d)"
  shows "identity_exists d (d_identity_id x)"
proof -
  obtain i where one: "detect_one c since d i = Some x"
    using assms by (auto simp: detect_all_set)
  then have "identity_by_id d (primary (identity_group d i)) \<noteq> None"
    by (auto simp: detect_one_def Let_def split: option.splits)
  then show ?thesis
    using detect_one_id [OF one] by (simp add: identity_by_id_iff)
qed

text \<open>The decision on one detection, as \<open>decisions\<close> takes it.\<close>

abbreviation decision_on ::
  "policy_env \<Rightarrow> metrics_db \<Rightarrow> quarantine_row list \<Rightarrow> detection \<Rightarrow> recommendation option" where
  "decision_on env m qs det \<equiv>
     evaluate (pe_git_log env) (pe_codeowners env) True (pe_settings env) (pe_now env) det
       (latest_classification m (d_identity_id det)) (d_identity_id det \<in> open_quarantine_ids qs)"

definition clock_ok :: "policy_env \<Rightarrow> bool" where
  "clock_ok env \<longleftrightarrow> pe_now env + quarantine_ttl_days (pe_settings env) * DAY < MAX_MOMENT"

lemma decisions_total:
  assumes "clock_ok env"
  obtains recs where "decisions env m dets qs = Some recs"
    and "list_all2 (\<lambda>det r. decision_on env m qs det = Some r \<and> qr_identity_id r = d_identity_id det) dets recs"
proof -
  have each: "\<exists>r. decision_on env m qs det = Some r \<and> qr_identity_id r = d_identity_id det" for det
    by (rule evaluate_defined) (use assms in \<open>simp add: clock_ok_def\<close>)
  then obtain f where f: "\<And>det. decision_on env m qs det = Some (f det) \<and> qr_identity_id (f det) = d_identity_id det"
    by metis
  have "decisions env m dets qs = Some (map f dets)"
    using f by (simp add: decisions_def those_Some)
  then show ?thesis
    by (rule that) (simp add: list_all2_map2 list_all2_same f)
qed

definition justified :: "metrics_db \<Rightarrow> detection list \<Rightarrow> nat \<Rightarrow> bool" where
  "justified m dets i \<longleftrightarrow> list_ex (\<lambda>det. d_identity_id det = i \<and> d_verdict det = FLAKY \<and>
     cause_of (latest_classification m i) \<notin> INELIGIBLE_CAUSES) dets"

lemma recommended_is_justified:
  assumes "list_all2 (\<lambda>det r. decision_on env m qs det = Some r \<and> qr_identity_id r = d_identity_id det) dets recs"
    and "r \<in> set recs"
  shows "qr_identity_id r \<in> d_identity_id ` set dets \<and>
    (qr_recommended r \<longrightarrow> justified m dets (qr_identity_id r))"
proof -
  obtain k where k: "k < length recs" "r = recs ! k"
    using assms(2) by (auto simp: in_set_conv_nth)
  then have det: "dets ! k \<in> set dets" "decision_on env m qs (dets ! k) = Some r"
    "qr_identity_id r = d_identity_id (dets ! k)"
    using assms(1) by (auto simp: list_all2_conv_all_nth)
  from recommended_verdict [OF det(2)] det(1,3) show ?thesis
    by (auto simp: justified_def list_ex_iff)
qed

text \<open>What \<open>--apply\<close> writes after the expiry: the rows added, and only steps of the lifecycle.\<close>

lemma policy_writes:
  assumes "list_all2 (\<lambda>det r. decision_on env m qs det = Some r \<and> qr_identity_id r = d_identity_id det)
      (detect_all c ids since d) recs"
  shows "\<exists>n qs' (new :: quarantine_row list).
    record_recommendations d now (filter qr_recommended recs) qs 0 = Inr (n, qs') \<and> list_all (justified m (detect_all c ids since d)) (map q_identity_id new) \<and>
    (\<forall>rs. quarantines_reach d qs (fst (release_loop settings d now rs (qs', []))) \<and>
       map q_identity_id (fst (release_loop settings d now rs (qs', []))) =
         map q_identity_id qs @ map q_identity_id new)"
proof -
  note from_det = recommended_is_justified [OF assms]
  have "list_all (\<lambda>r. identity_exists d (qr_identity_id r)) (filter qr_recommended recs)"
    using from_det detection_exists by (fastforce simp: list_all_iff)
  from recommendations_reach [OF this, of now qs 0]
  obtain n qs' new where rec: "record_recommendations d now (filter qr_recommended recs) qs 0 = Inr (n, qs')"
    "quarantines_reach d qs qs'" "qs' = qs @ new"
    "list_all (\<lambda>q. \<exists>r\<in>set (filter qr_recommended recs). qr_recommended r \<and> qr_identity_id r = q_identity_id q) new"
    by blast
  have "list_all (justified m (detect_all c ids since d)) (map q_identity_id new)"
    using rec(4) from_det by (fastforce simp: list_all_iff)
  then show ?thesis
    using rec(1,3) reach_trans [OF release_loop_reach rec(2)]
    by (simp add: release_loop_keeps_ids) blast
qed


definition sample_policy_env :: policy_env where
  "sample_policy_env = \<lparr>pe_git_log = (\<lambda>_. None), pe_codeowners = None, pe_settings = default_policy_config,
     pe_now = 15 * DAY\<rparr>"


section \<open>What a quarantine rests on\<close>


definition flaky_history :: history where
  "flaky_history = \<lparr>h_windows = [mk_window ''a'' [sample_record 1 ''a'' PASS, sample_record 2 ''a'' FAIL]],
     h_infra_excluded = 0, h_skipped = 0\<rparr>"


section \<open>What the command forgets\<close>

lemma evaluate_cause:
  "cause_of c = cause_of c' \<Longrightarrow>
   evaluate git_log codeowners allow_git settings now det c q = evaluate git_log codeowners allow_git settings now det c' q"
  by (simp add: evaluate_def)

text \<open>
  C26. The veto lasts until the next triage and no longer: once a batch in which a test's answer
  is an abstention has been recorded, be it that the budget was spent or the service down, the
  policy decides on that test as if no classification had ever been made, whatever an earlier
  triage had said, a regression included.
\<close>

theorem abstention_lifts_the_veto:
  assumes "record_metrics d moment run_pk commit_sha hits calls results m = Inr (counts, m')"
    and "distinct (map fst results)" and "map_of results (d_identity_id det) = Some c"
    and "trusted f c" and "is_abstention c"
  shows "evaluate git_log codeowners allow_git settings now det (latest_classification m' (d_identity_id det)) q =
    evaluate git_log codeowners allow_git settings now det None q"
proof (rule evaluate_cause)
  have "cl_cause c = UNKNOWN"
    using assms(4,5) by (auto simp: trusted_def withheld_def grounded_def is_abstention_def)
  then show "cause_of (latest_classification m' (d_identity_id det)) = cause_of None"
    using latest_recorded [OF assms(1,2)] assms(3) by (simp add: cause_of_def)
qed

text \<open>A test whose only answer was a regression, and then a call that failed.\<close>

definition vetoed :: metrics_db where
  "vetoed = \<lparr>mdb_calls = [], mdb_classifications =
     [classification_row_of ''t0'' None ''sha'' {} 1 (1, stored_answer\<lparr>cl_cause := REAL_REGRESSION\<rparr>)]\<rparr>"

theorem abstention_lifts_the_veto_witness:
  "\<not> recommends (evaluate (\<lambda>_. None) None True default_policy_config 0 flaky_detection
       (latest_classification vetoed 1) False) \<and>
   (\<exists>counts m'. record_metrics sample_db ''t1'' None ''sha'' {} [] [(1, abstain API_ERROR ''m'' ''v'' ''down'')] vetoed =
       Inr (counts, m') \<and>
     recommends (evaluate (\<lambda>_. None) None True default_policy_config 0 flaky_detection
       (latest_classification m' 1) False))"
proof
  have "latest_classification vetoed 1 = Some (stored_answer\<lparr>cl_cause := REAL_REGRESSION\<rparr>)"
    by (simp add: latest_classification_def vetoed_def sort_desc_def classification_row_of_def
        classification_of_row_def nonempty_def stored_answer_def)
  then show "\<not> recommends (evaluate (\<lambda>_. None) None True default_policy_config 0 flaky_detection
       (latest_classification vetoed 1) False)"
    by (simp add: recommends_evaluate eligible_def cause_of_def INELIGIBLE_CAUSES_def)
  let ?results = "[(1, abstain API_ERROR ''m'' ''v'' ''down'')]"
  have "identity_exists sample_db 1" by code_simp
  then obtain counts m' where rec: "record_metrics sample_db ''t1'' None ''sha'' {} [] ?results vetoed = Inr (counts, m')"
    by (simp add: record_metrics_def record_calls_def record_classifications_def run_known_def)
  have id: "d_identity_id flaky_detection = 1" by (simp add: flaky_detection_def)
  have "evaluate (\<lambda>_. None) None True default_policy_config 0 flaky_detection (latest_classification m' 1) False =
      evaluate (\<lambda>_. None) None True default_policy_config 0 flaky_detection None False"
    using abstention_lifts_the_veto [OF rec _ _ trusted_abstain, where det = flaky_detection and q = False]
    by (simp add: id is_abstention_def abstain_def)
  moreover have "recommends (evaluate (\<lambda>_. None) None True default_policy_config 0 flaky_detection None False)"
    using evaluate_flaky_detection [of 0]
    by (simp add: recommends_def sample_recommendation_def build_def Let_def MAX_MOMENT_def DAY_def)
  ultimately show "\<exists>counts m'. record_metrics sample_db ''t1'' None ''sha'' {} [] ?results vetoed = Inr (counts, m') \<and>
     recommends (evaluate (\<lambda>_. None) None True default_policy_config 0 flaky_detection
       (latest_classification m' 1) False)"
    using rec by auto
qed

lemma record_recommendation_result:
  assumes "record_recommendation d now r RECOMMENDED qs = Inr (k, qs')"
  shows "(\<exists>new. qs' = qs @ new \<and> (\<forall>q\<in>set new. q_identity_id q = qr_identity_id r \<and> q_expires_at q = qr_expires_at r)) \<and>
    (qr_recommended r \<longrightarrow> qr_identity_id r \<in> open_quarantine_ids qs')"
  using assms
  by (force simp: record_recommendation_def open_quarantine_ids_def list_ex_iff new_row_def row_open_def image_iff
      split: if_splits)

lemma record_recommendations_result:
  "record_recommendations d now rs qs n = Inr (n', qs') \<Longrightarrow>
   (\<exists>new. qs' = qs @ new \<and>
      (\<forall>q\<in>set new. \<exists>r\<in>set rs. q_identity_id q = qr_identity_id r \<and> q_expires_at q = qr_expires_at r)) \<and>
   (\<forall>r\<in>set rs. qr_recommended r \<longrightarrow> qr_identity_id r \<in> open_quarantine_ids qs')"
proof (induction rs arbitrary: qs n)
  case (Cons x rs)
  obtain k qs1 where one: "record_recommendation d now x RECOMMENDED qs = Inr (k, qs1)"
    and rest: "record_recommendations d now rs qs1 (if k = None then n else n + 1) = Inr (n', qs')"
    using Cons.prems by (auto split: sum.splits)
  have "open_quarantine_ids qs1 \<subseteq> open_quarantine_ids qs'"
    using conjunct1 [OF Cons.IH [OF rest]] by (auto simp: open_quarantine_ids_def)
  with record_recommendation_result [OF one] Cons.IH [OF rest] show ?case
    by (fastforce simp: in_mono)
qed simp

lemma release_loop_keeps_expiry:
  "map (\<lambda>q. (q_identity_id q, q_expires_at q)) (fst (release_loop settings d now rs (qs, released))) =
   map (\<lambda>q. (q_identity_id q, q_expires_at q)) qs"
proof (induction rs arbitrary: qs released)
  case (Cons r rs)
  then show ?case by (simp add: Let_def release_def close_def comp_def close_row_def cong: if_cong)
qed simp

lemma overdue_is_closed:
  assumes "quarantines_ok d qs" and "old \<in> set qs" and "record_expired now old"
  shows "q_identity_id old \<notin> open_quarantine_ids (snd (expire_overdue d now qs))"
proof -
  have "q = old" if "q \<in> set qs" "row_open q" "q_identity_id q = q_identity_id old" for q
    using assms that by (auto simp: quarantines_ok_def distinct_map inj_on_def record_expired_def)
  then show ?thesis
    using assms(3) expire_overdue_result [OF assms(1), of now]
    by (auto simp: open_quarantine_ids_def expired_row_def row_open_def split: if_splits)
qed

lemma eligible_is_recorded:
  assumes "clock_ok env" and "det \<in> set dets" and "d_identity_id det \<notin> open_quarantine_ids qs"
    and "eligible (pe_settings env) det (cause_of (latest_classification m (d_identity_id det))) False"
    and each: "list_all2 (\<lambda>det r. decision_on env m qs det = Some r \<and> qr_identity_id r = d_identity_id det) dets recs"
    and "record_recommendations d now (filter qr_recommended recs) qs 0 = Inr (n, qs')"
  shows "(d_identity_id det, isoformat (pe_now env + quarantine_ttl_days (pe_settings env) * DAY))
    \<in> set (drop (length qs) (map (\<lambda>q. (q_identity_id q, q_expires_at q)) qs'))"
proof -
  let ?e = "isoformat (pe_now env + quarantine_ttl_days (pe_settings env) * DAY)"
  obtain k where k: "k < length dets" "det = dets ! k"
    using assms(2) by (auto simp: in_set_conv_nth)
  then have r: "recs ! k \<in> set recs" "decision_on env m qs det = Some (recs ! k)"
    "qr_identity_id (recs ! k) = d_identity_id det"
    using each by (auto simp: list_all2_conv_all_nth)
  have "qr_recommended (recs ! k)"
    using recommends_evaluate [of "pe_git_log env" "pe_codeowners env" True "pe_settings env" "pe_now env" det
        "latest_classification m (d_identity_id det)" "d_identity_id det \<in> open_quarantine_ids qs"]
      assms(1,3,4) r(2) by (simp add: recommends_def clock_ok_def)
  have same: "qr_expires_at x = ?e" if "x \<in> set recs" "qr_recommended x" for x
    using each that by (auto simp: list_all2_conv_all_nth in_set_conv_nth intro: recommended_expiry)
  obtain new where new: "qs' = qs @ new" "d_identity_id det \<in> open_quarantine_ids qs'"
    "\<forall>q\<in>set new. \<exists>r\<in>set (filter qr_recommended recs). q_identity_id q = qr_identity_id r \<and>
       q_expires_at q = qr_expires_at r"
    using record_recommendations_result [OF assms(6)] r(1,3) \<open>qr_recommended (recs ! k)\<close> by auto
  then have "d_identity_id det \<in> q_identity_id ` set new"
    using assms(3) by (auto simp: open_quarantine_ids_def)
  then show ?thesis
    using new(1,3) same by fastforce
qed

text \<open>
  C25. Running out of time changes nothing for a test that is still flaky: the run that closes its
  overdue quarantine opens the next one, with the full time to live again, because the open
  quarantines are read after the expiry. The message printed beside it asks for \<open>a decision
  rather than another TTL\<close>.
\<close>

theorem expired_quarantine_is_renewed:
  assumes "quarantines_reach d [] qs" and "clock_ok env"
    and "old \<in> set qs" and "record_expired (pe_now env) old"
    and "det \<in> set (detect_all c ids since d)" and "d_identity_id det = q_identity_id old"
    and "eligible (pe_settings env) det (cause_of (latest_classification m (d_identity_id det))) False"
  shows "\<exists>out new. policy_run env d m True (detect_all c ids since d) qs = Inr out \<and>
    new \<in> set (drop (length qs) (po_rows out)) \<and> q_identity_id new = q_identity_id old \<and>
    q_expires_at new = isoformat (pe_now env + quarantine_ttl_days (pe_settings env) * DAY)"
proof -
  define dets where "dets = detect_all c ids since d"
  let ?keys = "map (\<lambda>q. (q_identity_id q, q_expires_at q))"
  have ok: "quarantines_ok d qs" using reach_ok [OF assms(1) quarantines_ok_Nil] by simp
  obtain expired qs1 where ex: "expire_overdue d (pe_now env) qs = (expired, qs1)" by fastforce
  have qs1: "length qs1 = length qs" "d_identity_id det \<notin> open_quarantine_ids qs1"
    using expire_overdue_result [OF ok, of "pe_now env"] overdue_is_closed [OF ok assms(3,4)] ex assms(6)
    by simp_all
  obtain recs where dec: "decisions env m dets qs1 = Some recs" and
    each: "list_all2 (\<lambda>det r. decision_on env m qs1 det = Some r \<and> qr_identity_id r = d_identity_id det) dets recs"
    by (rule decisions_total [OF assms(2)])
  obtain n qs2 where two:
    "record_recommendations d (isoformat (pe_now env)) (filter qr_recommended recs) qs1 0 = Inr (n, qs2)"
    using policy_writes [OF each [unfolded dets_def], of "isoformat (pe_now env)"] by blast
  obtain qs3 released where rel: "release_loop (pe_settings env) d (isoformat (pe_now env))
      (list_quarantines d True qs2) (qs2, []) = (qs3, released)" by fastforce
  have run: "policy_run env d m True dets qs = Inr
      \<lparr>po_recommendations = recs, po_expired = expired, po_released = released,
       po_records = list_quarantines d True qs3, po_rows = qs3\<rparr>"
    using ex dec two rel by (simp add: policy_run_def)
  have "?keys qs2 = ?keys qs3"
    using release_loop_keeps_expiry [of "pe_settings env" d "isoformat (pe_now env)" _ qs2 "[]"] rel
    by (metis fst_conv)
  then have "(d_identity_id det, isoformat (pe_now env + quarantine_ttl_days (pe_settings env) * DAY))
      \<in> set (drop (length qs1) (?keys qs3))"
    using eligible_is_recorded [OF assms(2) _ qs1(2) assms(7) each two] assms(5) by (simp add: dets_def)
  then show ?thesis
    using run assms(6) qs1(1) by (auto simp: drop_map dets_def)
qed

text \<open>A store in which one commit failed and passed, and a policy content with two observations.\<close>

definition flaky_db :: db where
  "flaky_db =
     (case record_executions ''now'' 1 [(1, sample_case FAIL)] sample_base of
        Inl _ \<Rightarrow> empty_db
      | Inr (_, d1) \<Rightarrow>
          (case record_executions ''now'' 2 [(1, sample_case PASS)] d1 of
             Inl _ \<Rightarrow> empty_db
           | Inr (_, d2) \<Rightarrow> d2))"

definition lenient_env :: policy_env where
  "lenient_env = sample_policy_env\<lparr>pe_settings := default_policy_config\<lparr>quarantine_min_observations := 2\<rparr>\<rparr>"

theorem expired_quarantine_is_renewed_witness:
  "\<exists>out new. policy_run lenient_env flaky_db \<lparr>mdb_calls = [], mdb_classifications = []\<rparr> True
       (detect_all default_detect_config None None flaky_db) sample_quarantines = Inr out \<and>
     new \<in> set (drop 1 (po_rows out)) \<and> q_expires_at new = isoformat (29 * DAY)"
proof -
  let ?m = "\<lparr>mdb_calls = [], mdb_classifications = []\<rparr> :: metrics_db"
  let ?old = "new_row ''t0'' (sample_recommendation 0) RECOMMENDED 1"
  have "list_ex (\<lambda>d. d_identity_id d = 1 \<and> d_verdict d = FLAKY \<and> 2 \<le> d_observations d \<and> 1 \<le> d_flake_rate d)
      (detect_all default_detect_config None None flaky_db)" by code_simp
  then obtain det where det: "det \<in> set (detect_all default_detect_config None None flaky_db)"
    "d_identity_id det = 1" "d_verdict det = FLAKY" "2 \<le> d_observations det" "1 \<le> d_flake_rate det"
    by (auto simp: list_ex_iff)
  have "identity_exists flaky_db 1" by code_simp
  note reach = sample_quarantines_reach [OF this]
  have env: "clock_ok lenient_env" "pe_now lenient_env = 15 * DAY"
    "pe_now lenient_env + quarantine_ttl_days (pe_settings lenient_env) * DAY = 29 * DAY"
    by (simp_all add: clock_ok_def lenient_env_def sample_policy_env_def default_policy_config_def
        MAX_MOMENT_def DAY_def)
  have old: "?old \<in> set sample_quarantines" "q_identity_id ?old = 1"
    by (simp_all add: sample_quarantines_def new_row_def sample_recommendation_def build_def Let_def flaky_detection_def)
  have "latest_classification ?m (d_identity_id det) = None"
    by (simp add: latest_classification_def sort_desc_def)
  then have "eligible (pe_settings lenient_env) det (cause_of (latest_classification ?m (d_identity_id det))) False"
    using det(3-5) by (simp add: eligible_def cause_of_def INELIGIBLE_CAUSES_def lenient_env_def default_policy_config_def)
  from expired_quarantine_is_renewed [OF reach env(1) old(1) _ det(1) _ this] det(2) old(2)
  show ?thesis
    using sample_quarantine_overdue [OF old(1)] env(2,3) by (auto simp: sample_quarantines_def)
qed

end
