(* ===== verification/Report.thy ===== *)
theory Report
  imports Prompt Schema
begin

text \<open>
  The report (\<open>report/renderers.py\<close>): the order of the findings, the counts, the JSON record and the
  markdown comment. The terminal view is in \<open>Terminal\<close>.
\<close>

section \<open>The program\<close>

definition VERDICT_ORDER :: "verdict list" where
  "VERDICT_ORDER = [REGRESSION, FLAKY, PERSISTENT_FAILURE, NEW_FAILURE, HEALTHY]"

definition COMMENT_MARKER :: string where
  "COMMENT_MARKER = ''<!-- flaketriage:report -->''"

text \<open>The index of a verdict in the order, or its length.\<close>

definition verdict_rank :: "verdict \<Rightarrow> nat" where
  "verdict_rank v = length (takeWhile (\<lambda>w. w \<noteq> v) VERDICT_ORDER)"

definition report_key :: "detection \<Rightarrow> nat \<times> pyfloat \<times> string" where
  "report_key d = (verdict_rank (d_verdict d), - d_flake_rate d, display_name (d_identity d))"

definition sort_for_report :: "detection list \<Rightarrow> detection list" where
  "sort_for_report ds = sort_key report_key ds"

definition opt_str :: "string option \<Rightarrow> json" where
  "opt_str v = (case v of None \<Rightarrow> JNull | Some s \<Rightarrow> JStr s)"

definition num :: "pyfloat \<Rightarrow> json" where
  "num x = JNum (FFinite x)"

definition classification_dict :: "classification \<Rightarrow> json" where
  "classification_dict c = JObj
     [(''cause'', JStr (cause_value (cl_cause c))), (''confidence'', num (round_to 3 (cl_confidence c))),
      (''reasoning'', JStr (cl_reasoning c)), (''evidence'', JArr (map JStr (cl_evidence c))),
      (''suggested_action'', JStr (cl_suggested_action c)), (''abstained'', JBool (cl_abstained c)),
      (''downgrade_reason'', JStr (downgrade_value (cl_downgrade_reason c))),
      (''model'', JStr (cl_model c)), (''prompt_version'', JStr (cl_prompt_version c))]"

definition to_dict :: "detection \<Rightarrow> classification option \<Rightarrow> (string \<times> json) list" where
  "to_dict d c =
     [(''test'', JStr (display_name (d_identity d))), (''identity_id'', num (of_nat (d_identity_id d))),
      (''fingerprint'', JStr (ti_fingerprint (d_identity d))),
      (''suite_path'', JStr (ti_suite_path (d_identity d))),
      (''test_name'', JStr (ti_test_name (d_identity d))),
      (''parameters'', JStr (ti_parameters (d_identity d))),
      (''verdict'', JStr (verdict_value (d_verdict d))),
      (''confidence'', JStr (confidence_value (d_confidence d))),
      (''signals'', JArr (map (\<lambda>e. JObj [(''signal'', JStr (signal_value (se_signal e))),
         (''detail'', JStr (se_detail e)), (''observations'', num (of_nat (se_observations e)))]) (d_signals d))),
      (''flake_rate'', num (round_to 4 (d_flake_rate d))),
      (''divergence_rate'', num (round_to 4 (d_divergence_rate d))),
      (''intermittency_rate'', num (round_to 4 (d_intermittency_rate d))),
      (''retry_data_available'', JBool (d_retry_data_available d)),
      (''observations'', num (of_nat (d_observations d))), (''commits_observed'', num (of_nat (d_windows d))),
      (''infra_excluded'', num (of_nat (d_infra_excluded d))), (''latest_sha'', opt_str (d_latest_sha d)),
      (''latest_outcome'', opt_str (map_option outcome_value (d_latest_outcome d))),
      (''regression_sha'', opt_str (d_regression_sha d)), (''failure_type'', opt_str (d_failure_type d)),
      (''failure_message'', opt_str (d_failure_message d)),
      (''footprint'', JArr (map JStr (d_footprint d))),
      (''failing_shards'', JArr (map JStr (d_failing_shards d))),
      (''merged_uncertain'', JBool (d_merged_uncertain d))] @
     (case c of None \<Rightarrow> [] | Some r \<Rightarrow> [(''classification'', classification_dict r)])"

definition count_verdict :: "verdict \<Rightarrow> detection list \<Rightarrow> nat" where
  "count_verdict v ds = length (filter (\<lambda>d. d_verdict d = v) ds)"

definition summarize_report :: "detection list \<Rightarrow> (string \<times> nat) list" where
  "summarize_report ds =
     map (\<lambda>v. (verdict_value v, count_verdict v ds)) VERDICT_ORDER @
     [(''total'', length ds), (''merged_uncertain'', length (filter d_merged_uncertain ds))]"

text \<open>The value \<open>render_json\<close> serialises.\<close>

definition json_payload ::
  "detection list \<Rightarrow> bool \<Rightarrow> (nat \<times> classification) list \<Rightarrow> json" where
  "json_payload ds llm_enabled resolved_results = JObj
     [(''schema_version'', num 1), (''llm_enabled'', JBool llm_enabled),
      (''summary'', JObj (map (\<lambda>(k, n). (k, num (of_nat n))) (summarize_report ds))),
      (''detections'', JArr (map (\<lambda>d. JObj (to_dict d (map_of resolved_results (d_identity_id d))))
         (sort_for_report ds)))]"

definition quoted :: "string \<Rightarrow> string" where
  "quoted s = CHR 0x60 # s @ [CHR 0x60]"

definition markdown_cause :: "classification option \<Rightarrow> string" where
  "markdown_cause c =
     (case c of
        None \<Rightarrow> ''-''
      | Some r \<Rightarrow>
          if is_abstention r then ''UNKNOWN ('' @ quoted (downgrade_value (cl_downgrade_reason r)) @ '')''
          else quoted (cause_value (cl_cause r)) @ '' '' @ fmt_pct 0 (cl_confidence r))"

definition headline :: "nat \<Rightarrow> nat \<Rightarrow> string list" where
  "headline regressions flaky =
     (if regressions \<noteq> 0
      then [''**'' @ show_nat regressions @ '' failure(s) look like real regressions** introduced by a '' @
            ''change, not flakes. These are not eligible for quarantine.''] else []) @
     (if flaky \<noteq> 0 \<and> regressions = 0
      then [''**These '' @ show_nat flaky @ '' failure(s) appear unrelated to your change** -- they are '' @
            ''known-flaky tests.'']
      else if flaky \<noteq> 0
      then [show_nat flaky @ '' further failure(s) appear unrelated to your change.''] else []) @
     [[]]"

definition table_row :: "(nat \<times> classification) list \<Rightarrow> detection \<Rightarrow> string" where
  "table_row resolved_results d =
     (let name = display_name (d_identity d) @ (if d_merged_uncertain d then '' _(merged_uncertain)_'' else []);
          rate = (if d_observations d \<noteq> 0 then fmt_pct 0 (d_flake_rate d) else ''-'');
          cells = [verdict_value (d_verdict d), confidence_value (d_confidence d), rate] @
            (if resolved_results \<noteq> [] then [markdown_cause (map_of resolved_results (d_identity_id d))] else []) @
            [quoted name]
      in ''| '' @ join '' | '' cells @ '' |'')"

definition evidence_lines :: "(nat \<times> classification) list \<Rightarrow> detection \<Rightarrow> string list" where
  "evidence_lines resolved_results d =
     [''**'' @ quoted (display_name (d_identity d)) @ ''** -- '' @ verdict_value (d_verdict d)] @
     map (\<lambda>e. ''- '' @ quoted (signal_value (se_signal e)) @ '': '' @ se_detail e) (d_signals d) @
     (if given (d_regression_sha d)
      then [''- pivots on commit '' @ quoted (take 12 (the (d_regression_sha d)))] else []) @
     (if d_signals d = [] \<and> \<not> given (d_regression_sha d)
      then [''- no flake signal fired; insufficient history to classify''] else []) @
     (case map_of resolved_results (d_identity_id d) of
        None \<Rightarrow> []
      | Some c \<Rightarrow>
          if \<not> is_abstention c
          then [''- proposed cause '' @ quoted (cause_value (cl_cause c)) @ '' ('' @
                fmt_pct 0 (cl_confidence c) @ '' model confidence, advisory only): '' @ cl_reasoning c] @
               map (\<lambda>i. ''  - evidence: '' @ i) (cl_evidence c) @
               (if cl_suggested_action c \<noteq> [] then [''  - suggested: '' @ cl_suggested_action c] else [])
          else [''- cause '' @ quoted ''UNKNOWN'' @ '' ('' @ quoted (downgrade_value (cl_downgrade_reason c)) @
                ''); no cause is proposed'']) @
     [[]]"

definition markdown_lines ::
  "detection list \<Rightarrow> nat \<Rightarrow> bool \<Rightarrow> (nat \<times> classification) list \<Rightarrow> string list" where
  "markdown_lines ds max_rows llm_enabled resolved_results =
     (let rows = filter (\<lambda>d. d_verdict d \<noteq> HEALTHY) (sort_for_report ds);
          top = [COMMENT_MARKER, ''### Flaky test triage'', []]
      in if rows = [] then top @ [''No flakes, regressions or unexplained failures were detected.'', []]
         else
           top @ headline (count_verdict REGRESSION rows) (count_verdict FLAKY rows) @
           (if resolved_results \<noteq> []
            then [''| verdict | confidence | flake rate | proposed cause | test |'', ''|---|---|---|---|---|'']
            else [''| verdict | confidence | flake rate | test |'', ''|---|---|---|---|'']) @
           map (table_row resolved_results) (take max_rows rows) @
           (if max_rows < length rows
            then [[], ''_'' @ show_nat (length rows - max_rows) @ '' further finding(s) omitted._''] else []) @
           [[], ''<details>'', ''<summary>Evidence</summary>'', []] @
           concat (map (evidence_lines resolved_results) (take max_rows rows)) @
           [if \<not> llm_enabled then ''_Deterministic detection only; the cause classifier was not run._''
            else ''_Causes are proposed by a model and are advisory. Quarantine decisions '' @
              ''are made by deterministic policy._'', [], ''</details>'', []])"

definition render_markdown ::
  "detection list \<Rightarrow> nat \<Rightarrow> bool \<Rightarrow> (nat \<times> classification) list \<Rightarrow> string" where
  "render_markdown ds max_rows llm_enabled resolved_results =
     join [LF] (markdown_lines ds max_rows llm_enabled resolved_results)"

section \<open>Order, counts and separation\<close>

lemma verdict_ranks [simp]:
  "verdict_rank REGRESSION = 0" "verdict_rank FLAKY = 1" "verdict_rank PERSISTENT_FAILURE = 2"
  "verdict_rank NEW_FAILURE = 3" "verdict_rank HEALTHY = 4"
  by (simp_all add: verdict_rank_def VERDICT_ORDER_def)

lemma verdict_rank_inj: "verdict_rank v = verdict_rank w \<longleftrightarrow> v = w"
  by (cases v; cases w) simp_all

text \<open>The order of the report as the order of the type: the worse verdict is the smaller one.\<close>

instantiation verdict :: linorder
begin

definition less_eq_verdict :: "verdict \<Rightarrow> verdict \<Rightarrow> bool" where
  "less_eq_verdict v w \<longleftrightarrow> verdict_rank v \<le> verdict_rank w"

definition less_verdict :: "verdict \<Rightarrow> verdict \<Rightarrow> bool" where
  "less_verdict v w \<longleftrightarrow> verdict_rank v < verdict_rank w"

instance
  by standard (auto simp: less_eq_verdict_def less_verdict_def verdict_rank_inj)

end

lemma sort_for_report_mset [simp]: "mset (sort_for_report ds) = mset ds"
  by (simp add: sort_for_report_def)

lemma sort_for_report_keys: "sorted (map report_key (sort_for_report ds))"
  by (simp add: sort_for_report_def)

lemma sort_for_report_ordered:
  "sorted (map d_verdict (sort_for_report ds)) \<and>
   sorted_wrt (\<lambda>a b. d_verdict a = d_verdict b \<longrightarrow> d_flake_rate b \<le> d_flake_rate a) (sort_for_report ds)"
proof
  show "sorted (map d_verdict (sort_for_report ds))"
    using sort_for_report_keys [of ds] unfolding sorted_map
    by (rule sorted_wrt_mono_rel [rotated]) (auto simp: report_key_def less_eq_prod_def less_eq_verdict_def)
  show "sorted_wrt (\<lambda>a b. d_verdict a = d_verdict b \<longrightarrow> d_flake_rate b \<le> d_flake_rate a) (sort_for_report ds)"
    using sort_for_report_keys [of ds] unfolding sorted_map
    by (rule sorted_wrt_mono_rel [rotated]) (auto simp: report_key_def less_eq_prod_def)
qed

text \<open>The flake rates shown for one verdict, in the order of the report.\<close>

definition rates_of :: "verdict \<Rightarrow> detection list \<Rightarrow> pyfloat list" where
  "rates_of v ds = map d_flake_rate (filter (\<lambda>d. d_verdict d = v) ds)"

lemma sort_for_report_rates: "sorted (rev (rates_of v (sort_for_report ds)))"
proof -
  have "sorted_wrt (\<lambda>a b. d_flake_rate b \<le> d_flake_rate a) (filter (\<lambda>d. d_verdict d = v) xs)"
    if "sorted_wrt (\<lambda>a b. d_verdict a = d_verdict b \<longrightarrow> d_flake_rate b \<le> d_flake_rate a) xs" for xs
    using that by (induction xs) auto
  then have "sorted_wrt (\<lambda>a b. d_flake_rate b \<le> d_flake_rate a)
      (filter (\<lambda>d. d_verdict d = v) (sort_for_report ds))"
    using sort_for_report_ordered [of ds] by blast
  then show ?thesis by (simp add: rates_of_def sorted_wrt_rev sorted_wrt_map)
qed

lemma count_verdict_total: "(\<Sum>v\<leftarrow>VERDICT_ORDER. count_verdict v ds) = length ds"
proof (induction ds)
  case (Cons d ds)
  then show ?case
    by (cases "d_verdict d") (simp_all add: VERDICT_ORDER_def count_verdict_def)
qed (simp add: VERDICT_ORDER_def count_verdict_def)

text \<open>
  A report shows every finding, the worst first, and the model's opinion beside the verdict
  and never in it: the detections listed are exactly those given, ordered by verdict with
  regressions first and by falling flake rate within a verdict, the counts per verdict add up to
  the total, and the record of a test is the same with and without a classification but for its
  own key.
\<close>

theorem report_is_complete_and_ordered:
  "mset (sort_for_report ds) = mset ds \<and>
   sorted (map d_verdict (sort_for_report ds)) \<and> sorted (rev (rates_of v (sort_for_report ds))) \<and>
   (\<Sum>w\<leftarrow>VERDICT_ORDER. the (map_of (summarize_report ds) (verdict_value w))) = length ds \<and>
   map_of (summarize_report ds) ''total'' = Some (length ds) \<and>
   filter (\<lambda>(k, j). k \<noteq> ''classification'') (to_dict d (Some c)) = to_dict d None"
proof -
  have "map_of (summarize_report ds) (verdict_value v) = Some (count_verdict v ds)" for v
    by (cases v) (simp_all add: summarize_report_def VERDICT_ORDER_def)
  moreover have "map_of (summarize_report ds) ''total'' = Some (length ds)"
    by (simp add: summarize_report_def VERDICT_ORDER_def)
  moreover have "filter (\<lambda>(k, j). k \<noteq> ''classification'') (to_dict d (Some c)) = to_dict d None"
    by (simp add: to_dict_def)
  ultimately show ?thesis
    using count_verdict_total [of ds] sort_for_report_ordered [of ds] sort_for_report_rates [of v ds] by simp
qed

end
