(* ===== verification/Exposition.thy ===== *)
theory Exposition
  imports Metrics Report
begin

text \<open>
  The outlets of the persisted metrics (\<open>as_dict\<close> and \<open>render_prometheus\<close> of \<open>obs/metrics.py\<close>),
  with Python's general number format, which the exposition writes every value in.
\<close>

section \<open>The general number format\<close>

definition pow10 :: "int \<Rightarrow> pyfloat" where
  "pow10 k = (if 0 \<le> k then 10 ^ nat k else 1 / 10 ^ nat (- k))"

text \<open>The decimal exponent of a positive number.\<close>

definition dec_exp :: "pyfloat \<Rightarrow> int" where
  "dec_exp x =
     (if 1 \<le> x then int (length (show_nat (nat \<lfloor>x\<rfloor>))) - 1
      else
        let y = 1 / x; n = length (show_nat (nat \<lfloor>y\<rfloor>))
        in if y = 10 ^ (n - 1) then - int (n - 1) else - int n)"

definition strip_zeros :: "string \<Rightarrow> string" where
  "strip_zeros s = rstrip_by (\<lambda>c. c = CHR ''0'') s"

definition with_point :: "string \<Rightarrow> string \<Rightarrow> string" where
  "with_point whole decimals =
     (if strip_zeros decimals = [] then whole else whole @ ''.'' @ strip_zeros decimals)"

text \<open>\<open>format(x, "g")\<close> for a non-negative number: six significant digits.\<close>

definition fmt_g :: "pyfloat \<Rightarrow> string" where
  "fmt_g x =
     (if x = 0 then ''0''
      else
        let e0 = dec_exp x;
            m0 = nat (round_half_even (x * pow10 (5 - e0)));
            (m, e) = (if m0 = 1000000 then (100000, e0 + 1) else (m0, e0));
            digits = show_nat m
        in if 0 \<le> e \<and> e < 6 then with_point (take (nat e + 1) digits) (drop (nat e + 1) digits)
           else if - 4 \<le> e \<and> e < 0 then with_point ''0'' (replicate (nat (- e - 1)) (CHR ''0'') @ digits)
           else with_point (take 1 digits) (drop 1 digits) @ ''e'' @ (if e < 0 then ''-'' else ''+'') @
             zfill 2 (show_nat (nat \<bar>e\<bar>)))"

section \<open>The exposition\<close>

definition METRIC_PREFIX :: string where
  "METRIC_PREFIX = ''flaketriage''"

record sample =
  sm_name :: string
  sm_kind :: string
  sm_help :: string
  sm_value :: pyfloat
  sm_labels :: string

definition full_name :: "sample \<Rightarrow> string" where
  "full_name s = METRIC_PREFIX @ ''_'' @ sm_name s"

definition put_metric :: "string list \<Rightarrow> sample \<Rightarrow> string list" where
  "put_metric lines s =
     (let full = full_name s;
          declared = (if list_ex (\<lambda>line. startswith line (''# TYPE '' @ full @ '' '')) lines then []
            else [''# HELP '' @ full @ '' '' @ sm_help s, ''# TYPE '' @ full @ '' '' @ sm_kind s])
      in lines @ declared @ [full @ sm_labels s @ '' '' @ fmt_g (sm_value s)])"

definition label :: "string \<Rightarrow> string \<Rightarrow> string" where
  "label k v = ''{'' @ k @ ''='' @ [CHR 0x22] @ v @ [CHR 0x22] @ ''}''"

definition unlabelled :: "string \<Rightarrow> string \<Rightarrow> string \<Rightarrow> pyfloat \<Rightarrow> sample" where
  "unlabelled name kind help value =
     \<lparr>sm_name = name, sm_kind = kind, sm_help = help, sm_value = value, sm_labels = []\<rparr>"

definition latency_sample :: "string \<Rightarrow> pyfloat \<Rightarrow> sample" where
  "latency_sample quantile value =
     \<lparr>sm_name = ''llm_latency_ms'', sm_kind = ''gauge'', sm_help = ''Classification latency in milliseconds.'',
      sm_value = value, sm_labels = label ''quantile'' quantile\<rparr>"

definition counted :: "string \<Rightarrow> string \<Rightarrow> string \<Rightarrow> (string \<times> nat) list \<Rightarrow> sample list" where
  "counted name help k counts = map (\<lambda>(v, n).
     \<lparr>sm_name = name, sm_kind = ''counter'', sm_help = help, sm_value = of_nat n, sm_labels = label k v\<rparr>)
     (sort_key fst counts)"

definition samples :: "metrics_summary \<Rightarrow> sample list" where
  "samples s =
     [unlabelled ''runs_total'' ''counter'' ''CI runs ingested.'' (of_nat (ms_runs s)),
      unlabelled ''llm_calls_total'' ''counter'' ''Model calls made.'' (of_nat (ms_api_calls s)),
      unlabelled ''llm_call_errors_total'' ''counter'' ''Model calls that failed.'' (of_nat (ms_errors s)),
      unlabelled ''llm_cost_usd_total'' ''counter'' ''Cumulative model spend in USD.'' (ms_total_cost_usd s),
      unlabelled ''llm_input_tokens_total'' ''counter'' ''Input tokens consumed.''
        (of_nat (ms_total_input_tokens s)),
      unlabelled ''llm_output_tokens_total'' ''counter'' ''Output tokens produced.''
        (of_nat (ms_total_output_tokens s)),
      unlabelled ''classifications_total'' ''counter'' ''Classifications produced.'' (of_nat (ms_classifications s)),
      unlabelled ''abstentions_total'' ''counter'' ''Classifications that declined to assign a cause.''
        (of_nat (ms_abstentions s)),
      unlabelled ''abstention_ratio'' ''gauge'' ''Abstentions over classifications.'' (abstention_rate s),
      unlabelled ''cache_hit_ratio'' ''gauge'' ''Cache hits over classification attempts.''
        (summary_cache_hit_rate s),
      latency_sample ''0.5'' (ms_latency_p50_ms s), latency_sample ''0.95'' (ms_latency_p95_ms s)] @
     counted ''classifications_by_cause_total'' ''Classifications grouped by proposed cause.'' ''cause''
       (ms_by_cause s) @
     counted ''downgrades_total'' ''Abstentions grouped by reason.'' ''reason'' (ms_by_downgrade_reason s)"

definition prometheus_lines :: "metrics_summary \<Rightarrow> string list" where
  "prometheus_lines s = foldl put_metric [] (samples s)"

definition render_prometheus :: "metrics_summary \<Rightarrow> string" where
  "render_prometheus s = join [LF] (prometheus_lines s) @ [LF]"

definition counts_dict :: "(string \<times> nat) list \<Rightarrow> json" where
  "counts_dict counts = JObj (map (\<lambda>(k, n). (k, num (of_nat n))) (sort_key fst counts))"

definition metrics_as_dict :: "metrics_summary \<Rightarrow> json" where
  "metrics_as_dict s = JObj
     [(''since'', opt_str (ms_since s)), (''runs'', num (of_nat (ms_runs s))),
      (''api_calls'', num (of_nat (ms_api_calls s))), (''llm_call_errors'', num (of_nat (ms_errors s))),
      (''classifications'', num (of_nat (ms_classifications s))),
      (''abstentions'', num (of_nat (ms_abstentions s))),
      (''abstention_rate'', num (round_to 4 (abstention_rate s))),
      (''cache_hits'', num (of_nat (ms_cache_hits s))),
      (''cache_hit_rate'', num (round_to 4 (summary_cache_hit_rate s))),
      (''total_cost_usd'', num (round_to 6 (ms_total_cost_usd s))),
      (''cost_per_classification_usd'', num (round_to 6 (cost_per_classification_usd s))),
      (''total_input_tokens'', num (of_nat (ms_total_input_tokens s))),
      (''total_output_tokens'', num (of_nat (ms_total_output_tokens s))),
      (''latency_p50_ms'', num (round_to 1 (ms_latency_p50_ms s))),
      (''latency_p95_ms'', num (round_to 1 (ms_latency_p95_ms s))),
      (''by_cause'', counts_dict (ms_by_cause s)),
      (''by_downgrade_reason'', counts_dict (ms_by_downgrade_reason s))]"

section \<open>Whole numbers in the general format\<close>

lemma digits [simp]:
  "digit 0 = CHR ''0''" "digit 1 = CHR ''1''" "digit (Suc 0) = CHR ''1''" "digit 2 = CHR ''2''"
  "digit 3 = CHR ''3''" "digit 4 = CHR ''4''" "digit 5 = CHR ''5''" "digit 6 = CHR ''6''"
  "digit 7 = CHR ''7''" "digit 8 = CHR ''8''" "digit 9 = CHR ''9''"
  by code_simp+

lemmas show_numeral = show_nat.simps [of 0] show_nat.simps [of 1] show_nat.simps [of "Suc 0"]
  show_nat.simps [of "numeral k" for k]

lemma show_nat_times10: "0 < n \<Longrightarrow> show_nat (10 * n) = show_nat n @ ''0''"
  by (subst show_nat.simps) simp

lemma show_nat_pow10: "0 < n \<Longrightarrow> show_nat (n * 10 ^ k) = show_nat n @ replicate k (CHR ''0'')"
proof (induction k)
  case (Suc k)
  have "show_nat (n * 10 ^ Suc k) = show_nat (10 * (n * 10 ^ k))" by (simp add: algebra_simps)
  also have "\<dots> = show_nat (n * 10 ^ k) @ ''0''" using Suc.prems by (intro show_nat_times10) simp
  finally show ?case using Suc by (simp flip: replicate_append_same)
qed simp

lemma show_nat_length: "0 < n \<Longrightarrow> 10 ^ (length (show_nat n) - 1) \<le> n \<and> n < 10 ^ length (show_nat n)"
proof (induction n rule: show_nat.induct)
  case (1 n)
  show ?case
  proof (cases "n < 10")
    case False
    let ?k = "length (show_nat (n div 10))"
    have IH: "10 ^ (?k - 1) \<le> n div 10" "n div 10 < 10 ^ ?k" using 1 False by auto
    have "?k \<noteq> 0" using show_nat.simps [of "n div 10"] by auto
    then have "10 * 10 ^ (?k - 1) = (10::nat) ^ ?k" by (metis Suc_diff_1 neq0_conv power_Suc)
    moreover have "length (show_nat n) = Suc ?k" using False by (subst show_nat.simps) simp
    ultimately show ?thesis using IH by (auto simp: less_eq_div_iff_mult_less_eq div_less_iff_less_mult mult.commute)
  qed (use 1 in \<open>simp add: show_nat.simps [of n]\<close>)
qed

lemma strip_zeros_replicate [simp]: "strip_zeros (replicate k (CHR ''0'')) = []"
  by (simp add: strip_zeros_def rstrip_by_def)

lemma fmt_g_small:
  assumes "n < 1000000"
  shows "fmt_g (of_nat n) = show_nat n"
proof (cases "n = 0")
  case True
  then show ?thesis by (simp add: fmt_g_def show_numeral)
next
  case False
  define e where "e = length (show_nat n) - 1"
  have "length (show_nat n) = Suc e" using show_nat.simps [of n] by (auto simp: e_def)
  with show_nat_length [of n] False have e: "10 ^ e \<le> n" "n < 10 ^ Suc e" by auto
  have "(10::nat) ^ e < 10 ^ 6" using e(1) assms by simp
  then have "e < 6" using power_less_imp_less_exp [of "10::nat" e 6] by simp
  have exp: "dec_exp (of_nat n) = int e"
    using False by (simp add: dec_exp_def \<open>length (show_nat n) = Suc e\<close>)
  have "of_nat n * pow10 (5 - int e) = of_nat (n * 10 ^ (5 - e))"
    using \<open>e < 6\<close> by (simp add: pow10_def nat_diff_distrib)
  then have m: "nat (round_half_even (of_nat n * pow10 (5 - int e))) = n * 10 ^ (5 - e)"
    by (metis nat_int of_int_of_nat_eq round_half_even_of_int)
  have "n * 10 ^ (5 - e) < 10 ^ Suc e * 10 ^ (5 - e)" using e(2) by simp
  also have "\<dots> = 10 ^ 6" using \<open>e < 6\<close> by (simp flip: power_add power_Suc)
  finally have "n * 10 ^ (5 - e) \<noteq> 1000000" by simp
  then show ?thesis
    using False \<open>e < 6\<close> \<open>length (show_nat n) = Suc e\<close>
    by (simp add: fmt_g_def exp m Let_def show_nat_pow10 with_point_def nat_add_distrib)
qed

text \<open>
  A counter is exported exactly as long as it has at most six digits, and rounded to six significant
  ones beyond: the token counters pass a million soon, and then stand still for a thousand increments
  at a time.
\<close>

theorem counters_are_exact_below_a_million:
  "(n < 1000000 \<longrightarrow> fmt_g (of_nat n) = show_nat n) \<and>
   fmt_g 1234567 = ''1.23457e+06'' \<and> fmt_g 1234567 = fmt_g 1234571"
proof -
  have "dec_exp 1234567 = 6" "dec_exp 1234571 = 6"
    by (simp_all add: dec_exp_def show_numeral)
  moreover have "\<lfloor>1234567 / 10 :: rat\<rfloor> = 123456" "\<lfloor>1234571 / 10 :: rat\<rfloor> = 123457"
    by (simp_all add: floor_eq_iff)
  then have "nat (round_half_even (1234567 * pow10 (- 1))) = 123457"
    "nat (round_half_even (1234571 * pow10 (- 1))) = 123457"
    by (simp_all add: pow10_def round_half_even_def Let_def)
  moreover have "strip_zeros ''23457'' = ''23457''" by code_simp
  ultimately have "fmt_g 1234567 = ''1.23457e+06''" "fmt_g 1234571 = ''1.23457e+06''"
    by (simp_all add: fmt_g_def Let_def show_numeral with_point_def zfill_def)
  then show ?thesis using fmt_g_small by auto
qed

section \<open>One declaration for each metric\<close>

definition type_line :: "sample \<Rightarrow> string" where
  "type_line s = ''# TYPE '' @ full_name s @ '' '' @ sm_kind s"

definition is_type_line :: "string \<Rightarrow> bool" where
  "is_type_line l \<longleftrightarrow> startswith l ''# TYPE ''"

definition plain_name :: "string \<Rightarrow> bool" where
  "plain_name n \<longleftrightarrow> CHR '' '' \<notin> set n"

text \<open>One metric has one kind, and no name has a blank in it.\<close>

definition consistent :: "sample list \<Rightarrow> bool" where
  "consistent ss \<longleftrightarrow> (\<forall>s\<in>set ss. plain_name (full_name s)) \<and>
     (\<forall>s\<in>set ss. \<forall>t\<in>set ss. full_name s = full_name t \<longrightarrow> sm_kind s = sm_kind t)"

lemma consistentD:
  assumes "consistent ys"
  shows "set xs \<subseteq> set ys \<Longrightarrow> consistent xs" and "s \<in> set ys \<Longrightarrow> plain_name (full_name s)"
    and "s \<in> set ys \<Longrightarrow> t \<in> set ys \<Longrightarrow> full_name s = full_name t \<Longrightarrow> sm_kind s = sm_kind t"
  using assms unfolding consistent_def by blast+

lemma word_prefix: "plain_name a \<Longrightarrow> plain_name b \<Longrightarrow> startswith (a @ '' '' @ x) (b @ '' '') \<longleftrightarrow> a = b"
proof (induction a arbitrary: b)
  case Nil
  then show ?case by (cases b) (auto simp: plain_name_def startswith_def)
next
  case (Cons c a)
  then show ?case by (cases b) (auto simp: plain_name_def startswith_def)
qed

lemma declared_iff:
  "plain_name (full_name s) \<Longrightarrow> plain_name (full_name t) \<Longrightarrow>
   startswith (type_line t) (''# TYPE '' @ full_name s @ '' '') \<longleftrightarrow> full_name t = full_name s"
  using word_prefix [of "full_name t" "full_name s" "sm_kind t"]
  by (simp add: type_line_def startswith_def)

lemma other_lines:
  "\<not> is_type_line (''# HELP '' @ x)" "\<not> is_type_line (full_name s @ x)" "is_type_line (type_line s)"
  "startswith l (''# TYPE '' @ x) \<Longrightarrow> is_type_line l"
  by (auto simp: is_type_line_def type_line_def full_name_def METRIC_PREFIX_def startswith_def prefix_def)

lemma types_declared_once:
  "consistent ss \<Longrightarrow>
   distinct (filter is_type_line (foldl put_metric [] ss)) \<and>
   set (filter is_type_line (foldl put_metric [] ss)) = type_line ` set ss"
proof (induction ss rule: rev_induct)
  case (snoc s ss)
  define lines where "lines = foldl put_metric [] ss"
  have "consistent ss" by (rule consistentD(1) [OF snoc.prems]) auto
  then have IH: "distinct (filter is_type_line lines)" "set (filter is_type_line lines) = type_line ` set ss"
    using snoc.IH by (simp_all add: lines_def)
  have plain: "plain_name (full_name s)" "t \<in> set ss \<Longrightarrow> plain_name (full_name t)" for t
    using consistentD(2) [OF snoc.prems] by simp_all
  have seen: "list_ex (\<lambda>line. startswith line (''# TYPE '' @ full_name s @ '' '')) lines \<longleftrightarrow>
      type_line s \<in> type_line ` set ss"
  proof
    assume "list_ex (\<lambda>line. startswith line (''# TYPE '' @ full_name s @ '' '')) lines"
    then obtain l where l: "l \<in> set lines" "startswith l (''# TYPE '' @ full_name s @ '' '')"
      by (auto simp: list_ex_iff)
    have "l \<in> set (filter is_type_line lines)"
      using l(1) other_lines(4) [OF l(2)] by simp
    then obtain t where t: "t \<in> set ss" "l = type_line t"
      unfolding IH(2) by (elim imageE) simp
    have name: "full_name t = full_name s"
      by (rule declared_iff [THEN iffD1, OF plain(1) plain(2) [OF t(1)] l(2) [unfolded t(2)]])
    then have "type_line t = type_line s"
      using consistentD(3) [OF snoc.prems, of t s] t(1) by (simp add: type_line_def)
    with t(1) show "type_line s \<in> type_line ` set ss" by (metis imageI)
  next
    assume "type_line s \<in> type_line ` set ss"
    then have "type_line s \<in> set lines" using IH(2) by auto
    moreover have "startswith (type_line s) (''# TYPE '' @ full_name s @ '' '')"
      by (simp add: type_line_def startswith_def)
    ultimately show "list_ex (\<lambda>line. startswith line (''# TYPE '' @ full_name s @ '' '')) lines"
      by (auto simp: list_ex_iff)
  qed
  have "filter is_type_line (put_metric lines s) = filter is_type_line lines @
      (if type_line s \<in> type_line ` set ss then [] else [type_line s])"
    using other_lines(1) [of "full_name s @ '' '' @ sm_help s"]
      other_lines(2) [of s "sm_labels s @ '' '' @ fmt_g (sm_value s)"] other_lines(3) [of s]
    unfolding put_metric_def Let_def seen by (simp add: type_line_def)
  with IH show ?case by (auto simp: insert_absorb simp flip: lines_def)
qed simp

definition kind_of :: "string \<Rightarrow> string" where
  "kind_of n = (if n \<in> {''abstention_ratio'', ''cache_hit_ratio'', ''llm_latency_ms''} then ''gauge'' else ''counter'')"

lemma samples_consistent: "consistent (samples s)"
proof -
  have "list_all (\<lambda>t. plain_name (sm_name t) \<and> sm_kind t = kind_of (sm_name t)) (samples s)"
    by (simp add: samples_def counted_def unlabelled_def latency_sample_def plain_name_def kind_of_def list_all_iff) auto
  then show ?thesis
    by (auto simp: consistent_def list_all_iff full_name_def METRIC_PREFIX_def plain_name_def)
qed

text \<open>
  The exposition declares every metric exactly once, whatever the summary holds, although the two
  latency quantiles and the series by cause and by reason are several samples of one metric.
\<close>

theorem exposition_declares_once:
  "distinct (filter is_type_line (prometheus_lines s)) \<and>
   set (filter is_type_line (prometheus_lines s)) = type_line ` set (samples s)"
  unfolding prometheus_lines_def by (rule types_declared_once [OF samples_consistent])

end
