(* ===== verification/Json_Reading.thy ===== *)
theory Json_Reading
  imports Schema
begin

text \<open>How a reader takes a JSON value apart: a member of an object, a string, the elements of an array.\<close>

fun member :: "string \<Rightarrow> json \<Rightarrow> json option" where
  "member k (JObj kvs) = map_of kvs k"
| "member k _ = None"

fun string_of :: "json option \<Rightarrow> string" where
  "string_of (Some (JStr s)) = s"
| "string_of _ = []"

fun elements :: "json option \<Rightarrow> json list" where
  "elements (Some (JArr js)) = js"
| "elements _ = []"

end
