(* ===== verification/Terminal.thy ===== *)
theory Terminal
  imports Report Json_Reading
begin

text \<open>
  The terminal view of a report (\<open>render_terminal\<close> of \<open>report/renderers.py\<close>): the lines and tables handed
  to the Rich library, with its markup in them, in the order they are printed. How Rich wraps and
  colours them is not modelled.
\<close>

section \<open>The program\<close>

record column =
  co_header :: string
  co_right :: bool
  co_fold :: bool

datatype shown =
    Line string
  | Grid "string option" "column list" "string list list"

definition col :: "string \<Rightarrow> column" where
  "col h = \<lparr>co_header = h, co_right = False, co_fold = False\<rparr>"

definition right_col :: "string \<Rightarrow> column" where
  "right_col h = \<lparr>co_header = h, co_right = True, co_fold = False\<rparr>"

definition fold_col :: "string \<Rightarrow> column" where
  "fold_col h = \<lparr>co_header = h, co_right = False, co_fold = True\<rparr>"

fun VERDICT_STYLE :: "verdict \<Rightarrow> string" where
  "VERDICT_STYLE REGRESSION = ''bold red''"
| "VERDICT_STYLE FLAKY = ''yellow''"
| "VERDICT_STYLE PERSISTENT_FAILURE = ''red''"
| "VERDICT_STYLE NEW_FAILURE = ''cyan''"
| "VERDICT_STYLE HEALTHY = ''green''"

fun CONFIDENCE_STYLE :: "confidence \<Rightarrow> string" where
  "CONFIDENCE_STYLE HIGH = ''bold''"
| "CONFIDENCE_STYLE MEDIUM = ''''"
| "CONFIDENCE_STYLE LOW = ''dim''"

definition verdict_cell :: "verdict \<Rightarrow> string" where
  "verdict_cell v =
     (let style = VERDICT_STYLE v in
      if style \<noteq> [] then ''['' @ style @ '']'' @ verdict_value v @ ''[/'' @ style @ '']'' else verdict_value v)"

definition confidence_cell :: "confidence \<Rightarrow> string" where
  "confidence_cell c =
     (let style = CONFIDENCE_STYLE c in
      if style \<noteq> [] then ''['' @ style @ '']'' @ confidence_value c @ ''[/]'' else confidence_value c)"

definition cause_cell :: "classification option \<Rightarrow> string" where
  "cause_cell c =
     (case c of
        None \<Rightarrow> ''[dim]-[/dim]''
      | Some r \<Rightarrow>
          if is_abstention r then ''[dim]UNKNOWN ('' @ downgrade_value (cl_downgrade_reason r) @ '')[/dim]''
          else cause_value (cl_cause r) @ '' [dim]'' @ fmt_pct 0 (cl_confidence r) @ ''[/dim]'')"

definition classification_lines :: "classification \<Rightarrow> string list" where
  "classification_lines c =
     (if is_abstention c
      then [''  - [dim]cause: UNKNOWN ('' @ downgrade_value (cl_downgrade_reason c) @ '')'' @
            (if cl_reasoning c \<noteq> [] then '': '' @ cl_reasoning c else []) @ ''[/dim]'']
      else
        [''  - proposed cause: '' @ cause_value (cl_cause c) @ '' (model confidence '' @
         fmt_pct 0 (cl_confidence c) @ '', advisory only)''] @
        (if cl_reasoning c \<noteq> [] then [''    '' @ cl_reasoning c] else []) @
        map (\<lambda>i. ''    evidence: '' @ i) (cl_evidence c) @
        (if cl_suggested_action c \<noteq> [] then [''    suggested: '' @ cl_suggested_action c] else []))"

definition grid_row :: "(nat \<times> classification) list \<Rightarrow> detection \<Rightarrow> string list" where
  "grid_row resolved_results d =
     [verdict_cell (d_verdict d), confidence_cell (d_confidence d),
      if d_observations d \<noteq> 0 then fmt_pct 0 (d_flake_rate d) else ''-'', show_nat (d_observations d)] @
     (if resolved_results \<noteq> [] then [cause_cell (map_of resolved_results (d_identity_id d))] else []) @
     [display_name (d_identity d) @ (if d_merged_uncertain d then '' [dim](merged_uncertain)[/dim]'' else [])]"

definition grid_columns :: "(nat \<times> classification) list \<Rightarrow> column list" where
  "grid_columns resolved_results =
     [col ''verdict'', col ''conf'', right_col ''rate'', right_col ''obs''] @
     (if resolved_results \<noteq> [] then [col ''cause (proposed)''] else []) @ [fold_col ''test'']"

definition finding_lines :: "(nat \<times> classification) list \<Rightarrow> detection \<Rightarrow> string list" where
  "finding_lines resolved_results d =
     (let c = map_of resolved_results (d_identity_id d) in
      if d_signals d = [] \<and> c = None then []
      else
        [''[bold]'' @ display_name (d_identity d) @ ''[/bold]''] @
        map (\<lambda>e. ''  - '' @ signal_value (se_signal e) @ '': '' @ se_detail e) (d_signals d) @
        (if given (d_regression_sha d)
         then [''  - regression pivots on '' @ take 12 (the (d_regression_sha d)) @
               ''; not eligible for quarantine''] else []) @
        (case c of None \<Rightarrow> [] | Some r \<Rightarrow> classification_lines r) @ [[]])"

definition counts_footer :: "detection list \<Rightarrow> string" where
  "counts_footer ds =
     ''[dim]'' @ show_nat (count_verdict FLAKY ds) @ '' flaky, '' @
     show_nat (count_verdict REGRESSION ds) @ '' regression, '' @
     show_nat (count_verdict PERSISTENT_FAILURE ds) @ '' persistent, '' @
     show_nat (count_verdict NEW_FAILURE ds) @ '' new, '' @
     show_nat (count_verdict HEALTHY ds) @ '' healthy'' @ ''[/dim]''"

definition report_rows :: "bool \<Rightarrow> detection list \<Rightarrow> detection list" where
  "report_rows show_healthy ds =
     filter (\<lambda>d. show_healthy \<or> d_verdict d \<noteq> HEALTHY) (sort_for_report ds)"

definition render_terminal ::
  "detection list \<Rightarrow> bool \<Rightarrow> (nat \<times> classification) list \<Rightarrow> shown list" where
  "render_terminal ds show_healthy resolved_results =
     (let found = report_rows show_healthy ds in
      if found = []
      then [Line (''[green]No flakes, regressions or unexplained failures[/green] across '' @
              show_nat (length ds) @ '' test(s).'')]
      else
        [Grid None (grid_columns resolved_results) (map (grid_row resolved_results) found), Line []] @
        map Line (concat (map (finding_lines resolved_results) found)) @
        [Line (counts_footer ds)])"

section \<open>Reading a report\<close>

text \<open>What a reader takes from each view: the verdict and the test of every finding, in order.\<close>

type_synonym finding = "string \<times> string"

definition unstyled :: "string \<Rightarrow> string" where
  "unstyled cell = takeWhile (\<lambda>c. c \<noteq> CHR ''['') (tl (dropWhile (\<lambda>c. c \<noteq> CHR '']'') cell))"

definition grid_findings :: "shown list \<Rightarrow> finding list" where
  "grid_findings out =
     concat (map (\<lambda>s. case s of Line _ \<Rightarrow> [] | Grid _ _ cells \<Rightarrow> map (\<lambda>r. (unstyled (hd r), last r)) cells) out)"

definition json_findings :: "string \<Rightarrow> json \<Rightarrow> finding list" where
  "json_findings mark payload_json =
     map (\<lambda>r. (string_of (member ''verdict'' r),
        string_of (member ''test'' r) @ (if member ''merged_uncertain'' r = Some (JBool True) then mark else [])))
       (elements (member ''detections'' payload_json))"

text \<open>In the comment, the rows of the table: the lines after the header row and its rule.\<close>

definition is_rule :: "string \<Rightarrow> bool" where
  "is_rule line \<longleftrightarrow> take 4 line = ''|---''"

definition table_lines :: "string list \<Rightarrow> string list" where
  "table_lines lines = takeWhile (\<lambda>l. l \<noteq> []) (tl (dropWhile (\<lambda>l. \<not> is_rule l) lines))"

definition row_shows :: "string \<Rightarrow> finding \<Rightarrow> bool" where
  "row_shows line f \<longleftrightarrow>
     takeWhile (\<lambda>c. c \<noteq> CHR '' '') (drop 2 line) = fst f \<and> suffix ('' | '' @ quoted (snd f) @ '' |'') line"

section \<open>All views agree\<close>

lemma unstyled_verdict [simp]: "unstyled (verdict_cell v) = verdict_value v"
  by (cases v) (simp_all add: unstyled_def verdict_cell_def)

lemma grid_row_ends:
  "hd (grid_row rs d) = verdict_cell (d_verdict d)"
  "last (grid_row rs d) =
     display_name (d_identity d) @ (if d_merged_uncertain d then '' [dim](merged_uncertain)[/dim]'' else [])"
  by (simp_all add: grid_row_def)

lemma grid_row_width: "length (grid_row rs d) = length (grid_columns rs)"
  by (simp add: grid_row_def grid_columns_def)

lemma json_findings_of:
  "json_findings mark (json_payload ds llm rs) =
     map (\<lambda>d. (verdict_value (d_verdict d),
       display_name (d_identity d) @ (if d_merged_uncertain d then mark else []))) (sort_for_report ds)"
  by (simp add: json_findings_def json_payload_def to_dict_def comp_def)

lemma grid_findings_lines [simp]: "grid_findings (map Line ls) = []"
  by (simp add: grid_findings_def)

lemma grid_findings_append [simp]: "grid_findings (xs @ ys) = grid_findings xs @ grid_findings ys"
  by (simp add: grid_findings_def)

lemma grid_findings_of:
  "grid_findings (render_terminal ds sh rs) =
     map (\<lambda>d. (verdict_value (d_verdict d),
       display_name (d_identity d) @ (if d_merged_uncertain d then '' [dim](merged_uncertain)[/dim]'' else [])))
       (report_rows sh ds)"
proof -
  have "grid_findings [Grid t cs (map (grid_row rs) found), Line []] =
      map (\<lambda>d. (verdict_value (d_verdict d),
        display_name (d_identity d) @ (if d_merged_uncertain d then '' [dim](merged_uncertain)[/dim]'' else []))) found"
    for t cs found
    by (simp add: grid_findings_def grid_row_ends)
  moreover have "grid_findings [Line l] = []" for l
    by (simp add: grid_findings_def)
  ultimately show ?thesis
    unfolding render_terminal_def Let_def
    by (simp del: append.simps add: append.simps(1))
qed

lemma verdict_word:
  "takeWhile (\<lambda>c. c \<noteq> CHR '' '') (verdict_value v @ '' '' @ rest) = verdict_value v"
  by (cases v) simp_all

lemma table_row_shows:
  "row_shows (table_row rs d) (verdict_value (d_verdict d),
     display_name (d_identity d) @ (if d_merged_uncertain d then '' _(merged_uncertain)_'' else []))"
proof -
  define name where "name = display_name (d_identity d) @ (if d_merged_uncertain d then '' _(merged_uncertain)_'' else [])"
  define mid where "mid = [confidence_value (d_confidence d),
      if d_observations d \<noteq> 0 then fmt_pct 0 (d_flake_rate d) else ''-''] @
     (if rs \<noteq> [] then [markdown_cause (map_of rs (d_identity_id d))] else [])"
  have row: "table_row rs d = ''| '' @ join '' | '' (verdict_value (d_verdict d) # mid @ [quoted name]) @ '' |''"
    by (simp add: table_row_def mid_def name_def Let_def)
  have "drop 2 (table_row rs d) = verdict_value (d_verdict d) @ '' '' @ ''| '' @ join '' | '' (mid @ [quoted name]) @ '' |''"
    by (simp add: row join_starts)
  moreover have "suffix ('' | '' @ quoted name) (join '' | '' (verdict_value (d_verdict d) # mid @ [quoted name]))"
    using join_ends [of "verdict_value (d_verdict d) # mid" "'' | ''" "quoted name"] by simp
  then have "suffix ('' | '' @ quoted name @ '' |'') (table_row rs d)"
    by (auto simp: row suffix_def)
  ultimately show ?thesis
    by (simp only: row_shows_def fst_conv snd_conv verdict_word name_def [symmetric] simp_thms)
qed

lemma table_row_nonempty: "table_row rs d \<noteq> []"
  by (simp add: table_row_def Let_def)

lemma rule_starts: "is_rule (c # l) \<Longrightarrow> c = CHR ''|''"
  by (simp add: is_rule_def)

lemma number_is_no_rule: "\<not> is_rule (show_nat n @ l)"
proof (cases "show_nat n")
  case (Cons c cs)
  then have "is_digit c"
    using show_nat_digits [of n] by simp
  then have "c \<noteq> CHR ''|''"
    by (auto simp: is_digit_def)
  then show ?thesis
    using rule_starts [of c "cs @ l"] Cons by auto
qed simp

lemma no_rule_in_headline: "list_all (\<lambda>l. \<not> is_rule l) (headline r f)"
  using number_is_no_rule by (auto simp: headline_def is_rule_def)

lemma table_lines_skip:
  "list_all (\<lambda>l. \<not> is_rule l) xs \<Longrightarrow> is_rule y \<Longrightarrow> table_lines (xs @ y # zs) = takeWhile (\<lambda>l. l \<noteq> []) zs"
  by (simp add: table_lines_def list_all_iff dropWhile_append3)

lemma table_lines_skip2:
  assumes "list_all (\<lambda>l. \<not> is_rule l) xs"
  shows "table_lines xs = []"
proof -
  have "dropWhile (\<lambda>l. \<not> is_rule l) xs = []"
    using assms by (simp add: list_all_iff dropWhile_eq_Nil_conv)
  then show ?thesis by (simp only: table_lines_def list.sel takeWhile.simps)
qed

lemma markdown_table:
  "table_lines (markdown_lines ds max_rows llm rs) =
     map (table_row rs) (take max_rows (report_rows False ds))"
proof (cases "report_rows False ds = []")
  case True
  then show ?thesis
    by (simp add: markdown_lines_def report_rows_def table_lines_skip2 is_rule_def COMMENT_MARKER_def)
next
  case False
  define found where "found = report_rows False ds"
  have table: "takeWhile (\<lambda>l. l \<noteq> []) (map (table_row rs) ds' @ [] # rest) = map (table_row rs) ds'" for ds' rest
    using table_row_nonempty by (induction ds') auto
  obtain rest where rest: "markdown_lines ds max_rows llm rs =
      ([COMMENT_MARKER, ''### Flaky test triage'', []] @ headline (count_verdict REGRESSION found) (count_verdict FLAKY found) @
       [if rs \<noteq> [] then ''| verdict | confidence | flake rate | proposed cause | test |''
        else ''| verdict | confidence | flake rate | test |'']) @
      (if rs \<noteq> [] then ''|---|---|---|---|---|'' else ''|---|---|---|---|'') #
      map (table_row rs) (take max_rows found) @ [] # rest"
    using False unfolding markdown_lines_def report_rows_def found_def
    by (cases "rs = []"; cases "max_rows < length (report_rows False ds)") (simp_all add: Let_def report_rows_def)
  show ?thesis
    unfolding rest
    by (subst table_lines_skip)
       (use no_rule_in_headline in \<open>simp_all add: table is_rule_def COMMENT_MARKER_def found_def\<close>)
qed


end
