(* ===== verification/Similarity.thy ===== *)
theory Similarity
  imports Prelude
begin

text \<open>
  String similarity for rename detection (\<open>identity/similarity.py\<close>): the Levenshtein distance
  computed with one rolling row, and its normalisation by the longer length. The rolling-row
  program is proved equal to the textbook recursive distance, from which symmetry, the bounds
  and the triangle inequality follow.
\<close>

section \<open>The program\<close>

definition MAX_COMPARE_LENGTH :: nat where
  "MAX_COMPARE_LENGTH = 512"

text \<open>
  The inner loop: \<open>diag\<close> is \<open>previous[column - 1]\<close>, \<open>left\<close> is \<open>current[column - 1]\<close>, and the
  list is the rest of \<open>previous\<close>, whose head is \<open>previous[column]\<close>.
\<close>

fun row_step :: "char \<Rightarrow> string \<Rightarrow> nat \<Rightarrow> nat \<Rightarrow> nat list \<Rightarrow> nat list" where
  "row_step left_char (right_char # second) left diag (upper # previous) =
     (let cell = min (min (upper + 1) (left + 1))
                     (diag + (if left_char \<noteq> right_char then 1 else 0))
      in cell # row_step left_char second cell upper previous)"
| "row_step left_char _ left diag _ = []"

definition next_row :: "char \<Rightarrow> nat \<Rightarrow> string \<Rightarrow> nat list \<Rightarrow> nat list" where
  "next_row left_char row second previous =
     row # row_step left_char second row (hd previous) (tl previous)"

fun edit_rows :: "string \<Rightarrow> nat \<Rightarrow> string \<Rightarrow> nat list \<Rightarrow> nat list" where
  "edit_rows [] row second previous = previous"
| "edit_rows (left_char # first) row second previous =
     edit_rows first (row + 1) second (next_row left_char row second previous)"

definition edit_distance :: "string \<Rightarrow> string \<Rightarrow> nat" where
  "edit_distance left right =
     (let first = take MAX_COMPARE_LENGTH left; second = take MAX_COMPARE_LENGTH right in
      if first = second then 0
      else if first = [] then length second
      else if second = [] then length first
      else
        let (first, second) =
          (if length first < length second then (second, first) else (first, second))
        in last (edit_rows first 1 second [0..<length second + 1]))"

definition normalized_distance :: "string \<Rightarrow> string \<Rightarrow> pyfloat" where
  "normalized_distance left right =
     (if left = [] \<and> right = [] then 0
      else
        let distance = edit_distance left right;
            longest = max (length (take MAX_COMPARE_LENGTH left))
                          (length (take MAX_COMPARE_LENGTH right))
        in if longest \<noteq> 0 then of_nat distance / of_nat longest else 0)"

section \<open>The specification: Levenshtein distance on prefixes, from the right\<close>

fun lev :: "'a list \<Rightarrow> 'a list \<Rightarrow> nat" where
  "lev [] ys = length ys"
| "lev xs [] = length xs"
| "lev (x # xs) (y # ys) =
     min (min (lev xs (y # ys) + 1) (lev (x # xs) ys + 1))
         (lev xs ys + (if x \<noteq> y then 1 else 0))"

lemma lev_Nil2 [simp]: "lev xs [] = length xs"
  by (cases xs) simp_all

lemma lev_sym: "lev xs ys = lev ys xs"
  by (induction xs ys rule: lev.induct) (auto simp: min.commute)

lemma lev_refl [simp]: "lev xs xs = 0"
  by (induction xs) auto

lemma lev_eq_0D: "lev xs ys = 0 \<Longrightarrow> xs = ys"
  by (induction xs ys rule: lev.induct) (auto split: if_splits simp: min_def)

lemma lev_le_max: "lev xs ys \<le> max (length xs) (length ys)"
  by (induction xs ys rule: lev.induct) (auto simp: min_def max_def)

lemma lev_ge_diff: "length xs - length ys \<le> lev xs ys \<and> length ys - length xs \<le> lev xs ys"
  by (induction xs ys rule: lev.induct) (auto simp: min_def)

lemma lev_Cons_le: "lev (x # xs) ys \<le> lev xs ys + 1"
  by (cases ys) auto

lemma lev_Cons2_le: "lev xs (y # ys) \<le> lev xs ys + 1"
  using lev_Cons_le [of y ys xs] by (simp add: lev_sym)

lemma lev_le_Cons: "lev xs ys \<le> lev (x # xs) ys + 1"
proof (induction xs ys arbitrary: x rule: lev.induct)
  case (1 ys)
  then show ?case using lev_ge_diff [of "[x]" ys] by simp linarith
next
  case (2 v va)
  then show ?case by simp
next
  case (3 a xs b ys)
  have "lev (a # xs) (b # ys) \<le> lev (a # xs) ys + 1"
    by (rule lev_Cons2_le)
  moreover have "lev (a # xs) ys \<le> lev (x # a # xs) ys + 1"
    by (rule "3.IH"(2))
  ultimately show ?case by (auto simp: min_def)
qed

lemma lev_Cons_Cons_cases:
  "lev (x # xs) (y # ys) = lev xs (y # ys) + 1 \<or> lev (x # xs) (y # ys) = lev (x # xs) ys + 1 \<or>
   lev (x # xs) (y # ys) = lev xs ys + (if x \<noteq> y then 1 else 0)"
  by (simp add: min_def)

lemma lev_triangle: "lev xs zs \<le> lev xs ys + lev ys zs"
proof (induction "length xs + length ys + length zs" arbitrary: xs ys zs rule: less_induct)
  case less
  show ?case
  proof (cases xs)
    case Nil
    then show ?thesis using lev_ge_diff [of ys zs] by simp linarith
  next
    case xs: (Cons x xs')
    show ?thesis
    proof (cases zs)
      case Nil
      then show ?thesis using lev_ge_diff [of xs ys] by simp linarith
    next
      case zs: (Cons z zs')
      show ?thesis
      proof (cases ys)
        case Nil
        then show ?thesis using lev_le_max [of xs zs] by simp
      next
        case ys: (Cons y ys')
        have a: "lev xs' zs \<le> lev xs' ys + lev ys zs"
          using less [of xs' ys zs] xs by simp
        have b: "lev xs zs' \<le> lev xs ys + lev ys zs'"
          using less [of xs ys zs'] zs by simp
        have c: "lev xs zs \<le> lev xs ys' + lev ys' zs"
          using less [of xs ys' zs] ys by simp
        have d: "lev xs' zs' \<le> lev xs' ys' + lev ys' zs'"
          using less [of xs' ys' zs'] xs ys zs by simp
        have g: "lev xs zs' \<le> lev xs ys' + lev ys' zs'"
          using less [of xs ys' zs'] ys zs by simp
        have h: "lev xs' zs \<le> lev xs' ys' + lev ys' zs"
          using less [of xs' ys' zs] xs ys by simp
        have f: "(if x \<noteq> z then 1 else 0 :: nat) \<le> (if x \<noteq> y then 1 else 0) + (if y \<noteq> z then 1 else 0)"
          by simp
        have e: "lev xs zs \<le> lev xs' zs + 1" "lev xs zs \<le> lev xs zs' + 1"
            "lev xs zs \<le> lev xs' zs' + (if x \<noteq> z then 1 else 0)"
          using xs zs by simp_all
        consider "lev xs ys = lev xs' ys + 1" | "lev xs ys = lev xs ys' + 1"
          | "lev xs ys = lev xs' ys' + (if x \<noteq> y then 1 else 0)"
          using xs ys lev_Cons_Cons_cases [of x xs' y ys'] by blast
        note left = this
        consider "lev ys zs = lev ys' zs + 1" | "lev ys zs = lev ys zs' + 1"
          | "lev ys zs = lev ys' zs' + (if y \<noteq> z then 1 else 0)"
          using ys zs lev_Cons_Cons_cases [of y ys' z zs'] by blast
        then show ?thesis
          by cases (use left a b c d e f g h in \<open>cases; linarith\<close>)+
      qed
    qed
  qed
qed


text \<open>The same recurrence from the other end, so that the distance ignores the direction of reading.\<close>

lemma lev_singleton:
  "lev [x] ys = (if x \<in> set ys then length ys - 1 else max 1 (length ys))"
proof (induction ys)
  case (Cons y ys)
  then show ?case by (cases ys) (auto simp: min_def max_def)
qed simp

lemma lev_snoc_Nil:
  "lev [x] (ys @ [y]) =
     min (min (lev [] (ys @ [y]) + 1) (lev [x] ys + 1)) (lev [] ys + (if x \<noteq> y then 1 else 0))"
  by (cases "ys = []") (auto simp: lev_singleton min_def max_def Suc_le_eq)

text \<open>The nine ways to spend the two outermost edits, from either end first.\<close>

lemma min_exchange:
  fixes p1 :: nat
  shows "min (min (min (min (p1 + 1) (p2 + 1)) (p3 + c) + 1) (min (min (q1 + 1) (q2 + 1)) (q3 + c) + 1))
      (min (min (r1 + 1) (r2 + 1)) (r3 + c) + d) =
    min (min (min (min (p1 + 1) (q1 + 1)) (r1 + d) + 1) (min (min (p2 + 1) (q2 + 1)) (r2 + d) + 1))
      (min (min (p3 + 1) (q3 + 1)) (r3 + d) + c)"
  by (simp only: min_add_distrib_left min_add_distrib_right add.commute add.left_commute min.commute min.left_commute min.assoc)

lemma lev_snoc:
  "lev (xs @ [x]) (ys @ [y]) =
     min (min (lev xs (ys @ [y]) + 1) (lev (xs @ [x]) ys + 1))
         (lev xs ys + (if x \<noteq> y then 1 else 0))"
proof (induction xs ys rule: lev.induct)
  case (1 ys)
  then show ?case using lev_snoc_Nil [of x ys y] by simp
next
  case (2 v va)
  then show ?case
    using lev_snoc_Nil [of y "v # va" x]
    by (simp add: lev_sym [of _ "[y]"] min.commute min.left_commute del: lev.simps append_Cons)
      (simp add: lev_sym [of "[y]"])
next
  case (3 a xs b ys)
  have "lev (xs @ [x]) (b # ys @ [y]) =
      min (min (lev xs (b # ys @ [y]) + 1) (lev (xs @ [x]) (b # ys) + 1))
        (lev xs (b # ys) + (if x \<noteq> y then 1 else 0))"
    using "3.IH"(1) by simp
  moreover have "lev (a # xs @ [x]) (ys @ [y]) =
      min (min (lev (a # xs) (ys @ [y]) + 1) (lev (a # xs @ [x]) ys + 1))
        (lev (a # xs) ys + (if x \<noteq> y then 1 else 0))"
    using "3.IH"(2) by simp
  ultimately show ?case
    by (simp only: append_Cons lev.simps "3.IH"(3) min_exchange)
qed

lemma lev_rev: "lev (rev xs) (rev ys) = lev xs ys"
  by (induction xs ys rule: lev.induct) (simp_all add: lev_snoc)

lemma lev_1_same_length:
  "length xs = length ys \<Longrightarrow> lev xs ys \<le> 1 \<Longrightarrow>
   length (filter (\<lambda>(x, y). x \<noteq> y) (zip xs ys)) \<le> 1"
proof (induction xs ys rule: lev.induct)
  case (3 x xs y ys)
  have "lev xs (y # ys) \<noteq> 0" "lev (x # xs) ys \<noteq> 0"
    using "3.prems"(1) lev_ge_diff [of xs "y # ys"] lev_ge_diff [of "x # xs" ys] by auto
  with "3.prems" lev_Cons_Cons_cases [of x xs y ys]
  have le: "lev xs ys + (if x \<noteq> y then 1 else 0) \<le> 1" by linarith
  show ?case
  proof (cases "x = y")
    case True
    with le 3 show ?thesis by simp
  next
    case False
    with le have "xs = ys" by (simp add: lev_eq_0D)
    moreover have "filter (\<lambda>(x, y). x \<noteq> y) (zip ys ys) = []"
      by (auto simp: filter_empty_conv set_zip)
    ultimately show ?thesis by simp
  qed
qed simp_all

section \<open>The program computes the specification\<close>

fun lev_row :: "string \<Rightarrow> string \<Rightarrow> string \<Rightarrow> nat list" where
  "lev_row u acc [] = [lev u acc]"
| "lev_row u acc (y # ys) = lev u acc # lev_row u (y # acc) ys"

lemma hd_lev_row [simp]: "hd (lev_row u acc ys) = lev u acc"
  by (cases ys) simp_all

lemma lev_row_not_Nil [simp]: "lev_row u acc ys \<noteq> []"
  by (cases ys) simp_all

lemma lev_row_split: "lev_row u acc ys = lev u acc # tl (lev_row u acc ys)"
  by (cases ys) simp_all

lemma row_step_lev:
  "row_step x ys (lev (x # u) acc) (lev u acc) (tl (lev_row u acc ys)) = tl (lev_row (x # u) acc ys)"
proof (induction ys arbitrary: acc)
  case (Cons y ys)
  have "row_step x (y # ys) (lev (x # u) acc) (lev u acc) (tl (lev_row u acc (y # ys))) =
      row_step x (y # ys) (lev (x # u) acc) (lev u acc)
        (lev u (y # acc) # tl (lev_row u (y # acc) ys))"
    using lev_row_split [of u "y # acc" ys] by simp
  also have "\<dots> = lev (x # u) (y # acc) # tl (lev_row (x # u) (y # acc) ys)"
    using Cons.IH [of "y # acc"] by (simp add: Let_def)
  finally show ?case
    using lev_row_split [of "x # u" "y # acc" ys] by simp
qed simp

lemma next_row_lev:
  "next_row x (length u + 1) ys (lev_row u [] ys) = lev_row (x # u) [] ys"
  using row_step_lev [of x ys u "[]"] lev_row_split [of "x # u" "[]" ys]
  by (simp add: next_row_def)

lemma edit_rows_lev:
  "edit_rows xs (length u + 1) ys (lev_row u [] ys) = lev_row (rev xs @ u) [] ys"
proof (induction xs arbitrary: u)
  case (Cons x xs)
  then show ?case using next_row_lev [of x u ys] Cons.IH [of "x # u"] by simp
qed simp

lemma first_row_lev: "[length acc..<length acc + length ys + 1] = lev_row [] acc ys"
proof (induction ys arbitrary: acc)
  case (Cons y ys)
  then show ?case using Cons.IH [of "y # acc"] by (simp add: upt_conv_Cons del: upt_Suc)
qed simp

lemma last_lev_row: "last (lev_row u acc ys) = lev u (rev ys @ acc)"
  by (induction ys arbitrary: acc) simp_all

lemma edit_rows_correct: "last (edit_rows xs 1 ys [0..<length ys + 1]) = lev xs ys"
  using edit_rows_lev [of xs "[]" ys] first_row_lev [of "[]" ys]
  by (simp add: last_lev_row lev_rev)

lemma edit_distance_lev:
  "edit_distance l r = lev (take MAX_COMPARE_LENGTH l) (take MAX_COMPARE_LENGTH r)"
proof -
  have "(if f = g then 0 else if f = [] then length g else if g = [] then length f
      else let (first, second) = (if length f < length g then (g, f) else (f, g))
        in last (edit_rows first 1 second [0..<length second + 1])) = lev f g" for f g
    by (auto simp: edit_rows_correct lev_sym [of g f] simp del: upt_Suc One_nat_def)
  then show ?thesis unfolding edit_distance_def Let_def [of "take _ _"] .
qed

text \<open>
  C33. The rolling-row program computes the Levenshtein distance of the two strings cut at
  \<open>MAX_COMPARE_LENGTH\<close>, and that distance is a metric on the compared prefixes: it is
  symmetric, zero only for equal prefixes, at most the longer length, and satisfies the triangle
  inequality.
\<close>

theorem edit_distance_correct:
  "edit_distance l r = lev (take MAX_COMPARE_LENGTH l) (take MAX_COMPARE_LENGTH r) \<and>
   edit_distance l r = edit_distance r l \<and>
   (edit_distance l r = 0 \<longleftrightarrow> take MAX_COMPARE_LENGTH l = take MAX_COMPARE_LENGTH r) \<and>
   edit_distance l r \<le> max (length (take MAX_COMPARE_LENGTH l)) (length (take MAX_COMPARE_LENGTH r)) \<and>
   edit_distance l r \<le> edit_distance l m + edit_distance m r"
proof (intro conjI)
  show "edit_distance l r = lev (take MAX_COMPARE_LENGTH l) (take MAX_COMPARE_LENGTH r)"
    by (rule edit_distance_lev)
  show "edit_distance l r = edit_distance r l"
    by (simp only: edit_distance_lev lev_sym)
  show "edit_distance l r = 0 \<longleftrightarrow> take MAX_COMPARE_LENGTH l = take MAX_COMPARE_LENGTH r"
    by (auto simp: edit_distance_lev dest: lev_eq_0D)
  show "edit_distance l r \<le> max (length (take MAX_COMPARE_LENGTH l)) (length (take MAX_COMPARE_LENGTH r))"
    unfolding edit_distance_lev by (rule lev_le_max)
  show "edit_distance l r \<le> edit_distance l m + edit_distance m r"
    unfolding edit_distance_lev by (rule lev_triangle)
qed

section \<open>The normalised distance as an interface\<close>

text \<open>
  What the rename matcher relies on: a symmetric score between 0 (identical) and 1.
\<close>

locale unit_distance =
  fixes dist :: "string \<Rightarrow> string \<Rightarrow> pyfloat"
  assumes dist_ge_0: "0 \<le> dist l r"
    and dist_le_1: "dist l r \<le> 1"
    and dist_sym: "dist l r = dist r l"
    and dist_refl: "dist s s = 0"
begin

definition combined :: "(string \<times> string) \<Rightarrow> (string \<times> string) \<Rightarrow> pyfloat" where
  "combined p q = 1 / 2 * dist (fst p) (fst q) + 1 / 2 * dist (snd p) (snd q)"

lemma combined_ge_0: "0 \<le> combined p q"
  by (simp add: combined_def dist_ge_0)

lemma combined_le_1: "combined p q \<le> 1"
  using dist_le_1 [of "fst p" "fst q"] dist_le_1 [of "snd p" "snd q"]
  unfolding combined_def by linarith

lemma combined_sym: "combined p q = combined q p"
  by (simp add: combined_def dist_sym)

text \<open>A change of one half alone never scores upper one half.\<close>

lemma combined_same_fst: "fst p = fst q \<Longrightarrow> combined p q \<le> 1 / 2"
  using dist_le_1 [of "snd p" "snd q"] by (simp add: combined_def dist_refl)

lemma combined_same_snd: "snd p = snd q \<Longrightarrow> combined p q \<le> 1 / 2"
  using dist_le_1 [of "fst p" "fst q"] by (simp add: combined_def dist_refl)

end

lemma normalized_distance_range: "0 \<le> normalized_distance l r \<and> normalized_distance l r \<le> 1"
proof -
  have "edit_distance l r \<le>
      max (length (take MAX_COMPARE_LENGTH l)) (length (take MAX_COMPARE_LENGTH r))" (is "_ \<le> ?m")
    unfolding edit_distance_lev by (rule lev_le_max)
  then have "(of_nat (edit_distance l r) :: pyfloat) \<le> of_nat ?m"
    by (simp only: of_nat_le_iff)
  then show ?thesis by (simp add: normalized_distance_def Let_def divide_le_eq_1)
qed

interpretation nd: unit_distance normalized_distance
proof
  fix l r s
  show "0 \<le> normalized_distance l r" "normalized_distance l r \<le> 1"
    using normalized_distance_range by blast+
  show "normalized_distance l r = normalized_distance r l"
    by (auto simp: normalized_distance_def Let_def edit_distance_lev lev_sym max.commute)
  show "normalized_distance s s = 0"
    by (simp add: normalized_distance_def Let_def edit_distance_lev)
qed

text \<open>
  Truncation at \<open>MAX_COMPARE_LENGTH\<close> can make two strings look less similar,
  although the comment beside the constant says it can only make them look more similar: a string
  of 512 characters and the same string with one character put in front are one edit apart, but
  the program reports two edits, and a larger normalised distance than the untruncated one.
\<close>

theorem truncation_can_raise_distance:
  "let s = replicate 511 (CHR ''a'') @ ''b''; t = CHR ''X'' # s in
     lev s t = 1 \<and> edit_distance s t = 2 \<and>
     normalized_distance s t > of_nat (lev s t) / of_nat (max (length s) (length t))"
proof -
  define a where "a = replicate 511 (CHR ''a'')"
  have len: "length a = 511" by (simp add: a_def)
  have s512: "take MAX_COMPARE_LENGTH (a @ ''b'') = a @ ''b''"
    and t512: "take MAX_COMPARE_LENGTH (CHR ''X'' # a @ ''b'') = CHR ''X'' # a"
    by (simp_all add: MAX_COMPARE_LENGTH_def len take_Cons')
  have "lev (a @ ''b'') (CHR ''X'' # a @ ''b'') \<le> 1"
    using lev_Cons2_le [of "a @ ''b''" "CHR ''X''" "a @ ''b''"] by simp
  moreover have "lev (a @ ''b'') (CHR ''X'' # a @ ''b'') \<noteq> 0"
    using lev_eq_0D by (metis length_Cons n_not_Suc_n)
  ultimately have l1: "lev (a @ ''b'') (CHR ''X'' # a @ ''b'') = 1" by linarith
  have shift: "CHR ''X'' # a = CHR ''X'' # replicate 510 (CHR ''a'') @ ''a''"
    unfolding a_def by (simp add: replicate_append_same flip: replicate_Suc)
  have head: "a @ ''b'' = CHR ''a'' # replicate 510 (CHR ''a'') @ ''b''"
    unfolding a_def by (simp flip: replicate_Suc append_Cons)
  have "\<not> lev (a @ ''b'') (CHR ''X'' # a) \<le> 1"
  proof
    assume "lev (a @ ''b'') (CHR ''X'' # a) \<le> 1"
    then have "length (filter (\<lambda>(x, y). x \<noteq> y) (zip (a @ ''b'') (CHR ''X'' # a))) \<le> 1"
      using lev_1_same_length [of "a @ ''b''" "CHR ''X'' # a"] len by simp
    then show False
      unfolding head shift by (simp add: zip_append)
  qed
  moreover have "lev (a @ ''b'') (CHR ''X'' # a) \<le> 2"
  proof -
    have "lev (a @ ''b'') (CHR ''X'' # a) \<le> lev (a @ ''b'') a + lev a (CHR ''X'' # a)"
      by (rule lev_triangle)
    moreover have "lev a (CHR ''X'' # a) \<le> 1"
      using lev_Cons2_le [of a "CHR ''X''" a] by simp
    moreover have "lev (a @ ''b'') a \<le> 1"
      using lev_Cons_le [of "CHR ''b''" "rev a" "rev a"] lev_rev [of "a @ ''b''" a] by simp
    ultimately show ?thesis by linarith
  qed
  ultimately have l2: "edit_distance (a @ ''b'') (CHR ''X'' # a @ ''b'') = 2"
    unfolding edit_distance_lev s512 t512 by linarith
  have "normalized_distance (a @ ''b'') (CHR ''X'' # a @ ''b'') = 2 / 512"
    unfolding normalized_distance_def Let_def l2 s512 t512 by (simp add: len)
  with l1 l2 show ?thesis
    unfolding a_def [symmetric] Let_def by (simp add: len)
qed

end
