(* ===== verification/Alias.thy ===== *)
theory Alias
  imports Models Config Similarity
begin

text \<open>
  Rename detection (\<open>identity/alias.py\<close>): vanished identities are paired with newly seen ones
  by combined name and path distance. Pairs are processed in groups of equal rounded distance;
  an identity that two pairs of one group claim is contested and leaves the matching.
\<close>

section \<open>The program\<close>

record alias_candidate =
  ac_old_fingerprint :: string
  ac_new_fingerprint :: string
  ac_distance :: pyfloat
  ac_certain :: bool

definition similarity :: "alias_candidate \<Rightarrow> pyfloat" where
  "similarity c = 1 - ac_distance c"

definition NAME_WEIGHT :: pyfloat where
  "NAME_WEIGHT = 1 / 2"

definition PATH_WEIGHT :: pyfloat where
  "PATH_WEIGHT = 1 / 2"

definition combined_distance :: "test_identity \<Rightarrow> test_identity \<Rightarrow> pyfloat" where
  "combined_distance old new =
     NAME_WEIGHT * normalized_distance (ti_test_name old) (ti_test_name new) +
     PATH_WEIGHT * normalized_distance (ti_suite_path old) (ti_suite_path new)"

record scored_pair =
  sp_distance :: pyfloat
  sp_old :: test_identity
  sp_new :: test_identity

definition rank :: "scored_pair \<Rightarrow> pyfloat" where
  "rank p = round_to 9 (sp_distance p)"

definition score_pair ::
  "identity_config \<Rightarrow> test_identity \<Rightarrow> test_identity \<Rightarrow> scored_pair list" where
  "score_pair settings old new =
     (if ti_parameters old \<noteq> ti_parameters new then []
      else if ti_fingerprint old = ti_fingerprint new then []
      else
        let distance = combined_distance old new
        in if distance \<le> alias_max_distance settings
           then [\<lparr>sp_distance = distance, sp_old = old, sp_new = new\<rparr>] else [])"

definition score_pairs ::
  "identity_config \<Rightarrow> test_identity list \<Rightarrow> test_identity list \<Rightarrow> scored_pair list" where
  "score_pairs settings disappeared appeared =
     concat (map (\<lambda>old. concat (map (score_pair settings old) appeared)) disappeared)"

definition pair_key :: "scored_pair \<Rightarrow> pyfloat \<times> string \<times> string" where
  "pair_key p = (rank p, ti_fingerprint (sp_old p), ti_fingerprint (sp_new p))"

text \<open>\<open>itertools.groupby\<close>: maximal runs of equal key.\<close>

function (sequential) groupby :: "('a \<Rightarrow> 'k) \<Rightarrow> 'a list \<Rightarrow> 'a list list" where
  "groupby f [] = []"
| "groupby f (x # xs) =
     (x # takeWhile (\<lambda>y. f y = f x) xs) # groupby f (dropWhile (\<lambda>y. f y = f x) xs)"
  by pat_completeness auto
termination
  by (relation "measure (\<lambda>(f, xs). length xs)") (auto simp: le_imp_less_Suc length_dropWhile_le)

record match_state =
  ms_accepted :: "alias_candidate list"
  ms_used :: "string list"
  ms_contested :: "string list"

definition fps :: "scored_pair \<Rightarrow> string list" where
  "fps p = [ti_fingerprint (sp_old p), ti_fingerprint (sp_new p)]"

definition touched :: "match_state \<Rightarrow> scored_pair \<Rightarrow> bool" where
  "touched st p \<longleftrightarrow> list_ex (\<lambda>f. f \<in> set (ms_used st) \<or> f \<in> set (ms_contested st)) (fps p)"

definition candidate_of :: "identity_config \<Rightarrow> scored_pair \<Rightarrow> alias_candidate" where
  "candidate_of settings p =
     \<lparr>ac_old_fingerprint = ti_fingerprint (sp_old p), ac_new_fingerprint = ti_fingerprint (sp_new p),
      ac_distance = sp_distance p, ac_certain = sp_distance p \<le> alias_certain_distance settings\<rparr>"

definition is_ambiguous :: "scored_pair list \<Rightarrow> scored_pair \<Rightarrow> bool" where
  "is_ambiguous live p \<longleftrightarrow>
     1 < length (filter (\<lambda>q. ti_fingerprint (sp_old q) = ti_fingerprint (sp_old p)) live) \<or>
     1 < length (filter (\<lambda>q. ti_fingerprint (sp_new q) = ti_fingerprint (sp_new p)) live)"

definition mark_contested :: "scored_pair list \<Rightarrow> match_state \<Rightarrow> match_state" where
  "mark_contested live st =
     st\<lparr>ms_contested := ms_contested st @ concat (map fps (filter (is_ambiguous live) live))\<rparr>"

definition accept_pair :: "identity_config \<Rightarrow> scored_pair \<Rightarrow> match_state \<Rightarrow> match_state" where
  "accept_pair settings p st =
     (if touched st p then st
      else st\<lparr>ms_used := ms_used st @ fps p,
              ms_accepted := ms_accepted st @ [candidate_of settings p]\<rparr>)"

definition process_group ::
  "identity_config \<Rightarrow> scored_pair list \<Rightarrow> match_state \<Rightarrow> match_state" where
  "process_group settings grp st =
     (let live = filter (\<lambda>p. \<not> touched st p) grp
      in fold (accept_pair settings) live (mark_contested live st))"

definition detect_renames ::
  "test_identity list \<Rightarrow> test_identity list \<Rightarrow> identity_config \<Rightarrow> alias_candidate list" where
  "detect_renames disappeared appeared settings =
     (if disappeared = [] \<or> appeared = [] then []
      else
        let scored = sort_key pair_key (score_pairs settings disappeared appeared)
        in ms_accepted (fold (process_group settings) (groupby rank scored)
             \<lparr>ms_accepted = [], ms_used = [], ms_contested = []\<rparr>))"

section \<open>The matching invariant\<close>

lemma concat_groupby [simp]: "concat (groupby f xs) = xs"
  by (induction f xs rule: groupby.induct) auto

lemma groupby_same:
  "g \<in> set (groupby f xs) \<Longrightarrow> x \<in> set g \<Longrightarrow> y \<in> set g \<Longrightarrow> f x = f y"
  by (induction f xs rule: groupby.induct) (auto dest!: set_takeWhileD)

text \<open>
  The accepted candidates come, in order, from pairs already seen; their fingerprints are
  exactly the used ones, all distinct, and none of them is contested.
\<close>

definition match_inv :: "identity_config \<Rightarrow> scored_pair list \<Rightarrow> match_state \<Rightarrow> bool" where
  "match_inv settings seen st \<longleftrightarrow>
     (\<exists>qs. ms_accepted st = map (candidate_of settings) qs \<and> subseq qs seen \<and>
        ms_used st = concat (map fps qs)) \<and>
     distinct (ms_used st) \<and> set (ms_used st) \<inter> set (ms_contested st) = {}"

definition proper_pair :: "scored_pair \<Rightarrow> bool" where
  "proper_pair p \<longleftrightarrow> distinct (fps p)"

lemma touched_iff:
  "touched st p \<longleftrightarrow> set (fps p) \<inter> (set (ms_used st) \<union> set (ms_contested st)) \<noteq> {}"
  by (auto simp: touched_def list_ex_iff)

lemma match_inv_mono:
  "match_inv settings seen st \<Longrightarrow> subseq seen seen' \<Longrightarrow> match_inv settings seen' st"
  unfolding match_inv_def by (meson subseq_order.trans)

lemma accept_pair_inv:
  assumes "match_inv settings seen st" and "proper_pair p"
  shows "match_inv settings (seen @ [p]) (accept_pair settings p st)"
proof (cases "touched st p")
  case True
  moreover have "match_inv settings (seen @ [p]) st"
    using assms(1) by (rule match_inv_mono) (simp add: subseq_rev_drop_many)
  ultimately show ?thesis by (simp add: accept_pair_def)
next
  case False
  from assms(1) obtain qs where qs: "ms_accepted st = map (candidate_of settings) qs"
      "subseq qs seen" "ms_used st = concat (map fps qs)"
    by (auto simp: match_inv_def)
  then have "subseq (qs @ [p]) (seen @ [p])" by simp
  with qs assms False show ?thesis
    unfolding match_inv_def accept_pair_def touched_iff proper_pair_def
    by (intro conjI exI [of _ "qs @ [p]"]) auto
qed

lemma fold_accept_inv:
  "match_inv settings seen st \<Longrightarrow> list_all proper_pair ps \<Longrightarrow>
   match_inv settings (seen @ ps) (fold (accept_pair settings) ps st)"
proof (induction ps arbitrary: seen st)
  case (Cons p ps)
  then show ?case using accept_pair_inv [of settings seen st p] by fastforce
qed simp

lemma mark_contested_inv:
  assumes "match_inv settings seen st" and "list_all (\<lambda>p. \<not> touched st p) live"
  shows "match_inv settings seen (mark_contested live st)"
  using assms by (fastforce simp: match_inv_def mark_contested_def touched_iff list_all_iff)

lemma process_group_inv:
  assumes "match_inv settings seen st" and "list_all proper_pair grp"
  shows "match_inv settings (seen @ grp) (process_group settings grp st)"
proof -
  let ?live = "filter (\<lambda>p. \<not> touched st p) grp"
  have "match_inv settings seen (mark_contested ?live st)"
    using assms(1) by (rule mark_contested_inv) (simp add: list_all_iff)
  then have "match_inv settings (seen @ ?live) (process_group settings grp st)"
    unfolding process_group_def Let_def
    by (rule fold_accept_inv) (use assms(2) in \<open>auto simp: list_all_iff\<close>)
  then show ?thesis by (rule match_inv_mono) (simp add: subseq_append')
qed

lemma fold_groups_inv:
  "match_inv settings seen st \<Longrightarrow> list_all proper_pair (concat gs) \<Longrightarrow>
   match_inv settings (seen @ concat gs) (fold (process_group settings) gs st)"
proof (induction gs arbitrary: seen st)
  case (Cons g gs)
  then show ?case using process_group_inv [of settings seen st g] by fastforce
qed simp

section \<open>Contested identities\<close>

definition marks :: "match_state \<Rightarrow> string set" where
  "marks st = set (ms_used st) \<union> set (ms_contested st)"

lemma accept_pair_marks:
  "marks (accept_pair settings p st) \<subseteq> marks st \<union> set (fps p) \<and>
   ms_contested (accept_pair settings p st) = ms_contested st"
  by (auto simp: accept_pair_def marks_def)

lemma fold_accept_marks:
  "marks (fold (accept_pair settings) ps st) \<subseteq> marks st \<union> set (concat (map fps ps)) \<and>
   ms_contested (fold (accept_pair settings) ps st) = ms_contested st"
proof (induction ps arbitrary: st)
  case (Cons p ps)
  then show ?case using accept_pair_marks [of settings p st] by fastforce
qed simp

lemma process_group_contested:
  "set (ms_contested (process_group settings grp st)) =
   set (ms_contested (mark_contested (filter (\<lambda>p. \<not> touched st p) grp) st))"
  by (simp add: process_group_def Let_def fold_accept_marks)

lemma process_group_marks:
  "marks (process_group settings grp st) \<subseteq> marks st \<union> set (concat (map fps grp))"
proof -
  let ?live = "filter (\<lambda>p. \<not> touched st p) grp"
  have "marks (process_group settings grp st) \<subseteq>
      marks (mark_contested ?live st) \<union> set (concat (map fps ?live))"
    unfolding process_group_def Let_def using fold_accept_marks by blast
  moreover have "marks (mark_contested ?live st) \<subseteq> marks st \<union> set (concat (map fps grp))"
    by (auto simp: marks_def mark_contested_def)
  ultimately show ?thesis by auto
qed

lemma contested_mono:
  "set (ms_contested st) \<subseteq> set (ms_contested (fold (process_group settings) gs st))"
proof (induction gs arbitrary: st)
  case (Cons g gs)
  then show ?case
    using process_group_contested [of settings g st] by (fastforce simp: mark_contested_def)
qed simp

lemma two_in_filter:
  assumes "p \<in> set xs" "q \<in> set xs" "p \<noteq> q" "P p" "P q"
  shows "1 < length (filter P xs)"
proof -
  have "card {p, q} \<le> card (set (filter P xs))"
    by (rule card_mono) (use assms in auto)
  also have "\<dots> \<le> length (filter P xs)" by (rule card_length)
  finally show ?thesis using assms(3) by simp
qed

definition share_endpoint :: "scored_pair \<Rightarrow> scored_pair \<Rightarrow> bool" where
  "share_endpoint p q \<longleftrightarrow>
     ti_fingerprint (sp_old p) = ti_fingerprint (sp_old q) \<or>
     ti_fingerprint (sp_new p) = ti_fingerprint (sp_new q)"

lemma process_group_contests:
  assumes "p \<in> set grp" "q \<in> set grp" "p \<noteq> q" "share_endpoint p q"
    and "(set (fps p) \<union> set (fps q)) \<inter> marks st = {}"
  shows "set (fps p) \<union> set (fps q) \<subseteq> set (ms_contested (process_group settings grp st))"
proof -
  let ?live = "filter (\<lambda>p. \<not> touched st p) grp"
  have live: "p \<in> set ?live" "q \<in> set ?live"
    using assms(1,2,5) by (auto simp: touched_iff marks_def)
  then have "is_ambiguous ?live p" "is_ambiguous ?live q"
    using assms(3,4) unfolding is_ambiguous_def share_endpoint_def
    by (metis (mono_tags, lifting) two_in_filter)+
  with live show ?thesis
    unfolding process_group_contested by (auto simp: mark_contested_def)
qed

lemma sorted_dropWhile_greater:
  fixes f :: "'a \<Rightarrow> 'k::linorder"
  assumes "sorted (map f (x # xs))" and "y \<in> set (dropWhile (\<lambda>y. f y = f x) xs)"
  shows "f x < f y"
  using assms
proof (induction xs)
  case (Cons z zs)
  then show ?case by (cases "f z = f x") (fastforce simp: order.strict_iff_order)+
qed simp

lemma ambiguous_contested:
  assumes "sorted (map rank xs)" and "p \<in> set xs" "q \<in> set xs" "p \<noteq> q" "share_endpoint p q"
    and "rank p = rank q"
    and "\<forall>x \<in> set xs. rank x < rank p \<longrightarrow> set (fps x) \<inter> (set (fps p) \<union> set (fps q)) = {}"
    and "(set (fps p) \<union> set (fps q)) \<inter> marks st = {}"
  shows "set (fps p) \<union> set (fps q) \<subseteq>
    set (ms_contested (fold (process_group settings) (groupby rank xs) st))"
  using assms
proof (induction "rank :: scored_pair \<Rightarrow> pyfloat" xs arbitrary: st rule: groupby.induct)
  case 1
  then show ?case by simp
next
  case (2 x xs)
  let ?g = "x # takeWhile (\<lambda>y. rank y = rank x) xs"
  let ?rest = "dropWhile (\<lambda>y. rank y = rank x) xs"
  have in_g_or_rest: "y \<in> set ?g \<or> y \<in> set ?rest" if "y \<in> set (x # xs)" for y
    using that by (metis Cons_eq_appendI set_append takeWhile_dropWhile_id UnE)
  have rest_gt: "rank x < rank y" if "y \<in> set ?rest" for y
    using sorted_dropWhile_greater [OF "2.prems"(1) that] .
  show ?case
  proof (cases "rank x = rank p")
    case True
    then have "p \<in> set ?g" "q \<in> set ?g"
      using in_g_or_rest rest_gt "2.prems"(2,3,6) by (metis order.irrefl)+
    then have "set (fps p) \<union> set (fps q) \<subseteq> set (ms_contested (process_group settings ?g st))"
      using "2.prems"(4,5,8) by (rule process_group_contests)
    also have "\<dots> \<subseteq> set (ms_contested (fold (process_group settings) (groupby rank ?rest)
        (process_group settings ?g st)))"
      by (rule contested_mono)
    finally show ?thesis by simp
  next
    case False
    then have less: "rank x < rank p"
      using "2.prems"(1,2) by (auto simp: order.strict_iff_order)
    have p: "p \<in> set ?rest" and q: "q \<in> set ?rest"
      using in_g_or_rest [of p] in_g_or_rest [of q] "2.prems"(2,3,6) False
      by (auto dest: set_takeWhileD)
    have "set (fps y) \<inter> (set (fps p) \<union> set (fps q)) = {}" if "y \<in> set ?g" for y
    proof -
      have "rank y = rank x" "y \<in> set (x # xs)" using that by (auto dest: set_takeWhileD)
      with less "2.prems"(7) show ?thesis by (metis)
    qed
    then have "(set (fps p) \<union> set (fps q)) \<inter> (\<Union>y \<in> set ?g. set (fps y)) = {}"
      by blast
    moreover have "marks (process_group settings ?g st) \<subseteq> marks st \<union> (\<Union>y \<in> set ?g. set (fps y))"
      using process_group_marks [of settings ?g st] by simp
    ultimately have "(set (fps p) \<union> set (fps q)) \<inter> marks (process_group settings ?g st) = {}"
      using "2.prems"(8) by blast
    moreover have "sorted (map rank ?rest)"
    proof -
      have "map rank ?rest = dropWhile (\<lambda>k. k = rank x) (map rank xs)"
        by (simp add: dropWhile_map comp_def)
      then show ?thesis using "2.prems"(1) by (simp add: sorted_dropWhile)
    qed
    ultimately show ?thesis
      using "2.hyps"(1) [of "process_group settings ?g st"] p q "2.prems"(4-7)
      by (auto dest: set_dropWhileD)
  qed
qed

section \<open>Properties\<close>

lemma score_pairs_mem:
  assumes "p \<in> set (score_pairs settings disappeared appeared)"
  shows "sp_old p \<in> set disappeared \<and> sp_new p \<in> set appeared \<and>
    ti_parameters (sp_old p) = ti_parameters (sp_new p) \<and> proper_pair p \<and>
    sp_distance p = combined_distance (sp_old p) (sp_new p) \<and>
    sp_distance p \<le> alias_max_distance settings"
  using assms
  by (auto simp: score_pairs_def score_pair_def proper_pair_def fps_def Let_def split: if_splits)

lemma detect_renames_inv:
  assumes "scored = sort_key pair_key (score_pairs settings disappeared appeared)"
    and "st = fold (process_group settings) (groupby rank scored)
             \<lparr>ms_accepted = [], ms_used = [], ms_contested = []\<rparr>"
  shows "match_inv settings scored st"
proof -
  have "match_inv settings [] \<lparr>ms_accepted = [], ms_used = [], ms_contested = []\<rparr>"
    by (simp add: match_inv_def)
  moreover have "list_all proper_pair (concat (groupby rank scored))"
    using score_pairs_mem by (auto simp: list_all_iff assms(1))
  ultimately show ?thesis
    using fold_groups_inv [of settings "[]" _ "groupby rank scored"] by (simp add: assms(2))
qed

lemma set_mono_subseq: "subseq xs ys \<Longrightarrow> set xs \<subseteq> set ys"
  by (induction rule: list_emb.induct) auto

lemma sorted_subseq: "subseq xs ys \<Longrightarrow> sorted ys \<Longrightarrow> sorted xs"
proof (induction rule: list_emb.induct)
  case (list_emb_Cons2 x y xs ys)
  then show ?case using set_mono_subseq by fastforce
qed auto

lemma sorted_rank_sort_key: "sorted (map rank (sort_key pair_key ps))"
proof -
  have "sorted_wrt (\<lambda>x y. pair_key x \<le> pair_key y) (sort_key pair_key ps)"
    using sorted_sort_key [of pair_key ps] by (simp add: sorted_wrt_map)
  then have "sorted_wrt (\<lambda>x y. rank x \<le> rank y) (sort_key pair_key ps)"
    by (rule sorted_wrt_mono_rel [rotated]) (auto simp: pair_key_def)
  then show ?thesis by (simp add: sorted_wrt_map)
qed

lemma detect_renames_from_scored:
  "\<exists>qs. detect_renames disappeared appeared settings = map (candidate_of settings) qs \<and>
     subseq qs (sort_key pair_key (score_pairs settings disappeared appeared)) \<and>
     distinct (concat (map fps qs))"
proof (cases "disappeared = [] \<or> appeared = []")
  case True
  then show ?thesis by (auto simp: detect_renames_def)
next
  case False
  then show ?thesis
    using detect_renames_inv [OF refl refl, of settings disappeared appeared]
    unfolding match_inv_def detect_renames_def Let_def by (metis (no_types, lifting))
qed

text \<open>
  C30. Rename detection is a sound matching: no identity takes part in two of the merges it
  reports, and each merge pairs a vanished with an appeared identity of equal parameters whose
  combined distance it records, that distance is within the configured maximum, the merge counts
  as certain exactly when the distance is within the certain bound, and the merges are listed by
  increasing (rounded) distance.
\<close>

theorem detect_renames_matching:
  "let cs = detect_renames disappeared appeared settings in
     distinct (concat (map (\<lambda>c. [ac_old_fingerprint c, ac_new_fingerprint c]) cs)) \<and>
     (\<forall>c \<in> set cs. \<exists>old \<in> set disappeared. \<exists>new \<in> set appeared.
        ac_old_fingerprint c = ti_fingerprint old \<and> ac_new_fingerprint c = ti_fingerprint new \<and>
        ti_parameters old = ti_parameters new \<and> ac_distance c = combined_distance old new \<and>
        ac_distance c \<le> alias_max_distance settings \<and>
        ac_certain c = (ac_distance c \<le> alias_certain_distance settings)) \<and>
     sorted (map (\<lambda>c. round_to 9 (ac_distance c)) cs)"
proof -
  obtain qs where qs: "detect_renames disappeared appeared settings = map (candidate_of settings) qs"
      "subseq qs (sort_key pair_key (score_pairs settings disappeared appeared))"
      "distinct (concat (map fps qs))"
    using detect_renames_from_scored by blast
  have eq: "map (\<lambda>c. [ac_old_fingerprint c, ac_new_fingerprint c]) (map (candidate_of settings) qs) =
      map fps qs"
    by (simp add: candidate_of_def fps_def)
  have "sorted (map rank qs)"
    using sorted_rank_sort_key by (rule sorted_subseq [OF subseq_map [OF qs(2)]])
  then have "sorted (map (\<lambda>c. round_to 9 (ac_distance c)) (map (candidate_of settings) qs))"
    by (simp add: candidate_of_def comp_def flip: rank_def)
  moreover have "p \<in> set (score_pairs settings disappeared appeared)" if "p \<in> set qs" for p
    using set_mono_subseq [OF qs(2)] that by auto
  ultimately show ?thesis
    using qs(3) score_pairs_mem unfolding qs(1) Let_def eq
    by (fastforce simp: candidate_of_def)
qed

text \<open>Identities for the concrete instances: one suite, two-letter names.\<close>

abbreviation example_identity :: "string \<Rightarrow> string \<Rightarrow> test_identity" where
  "example_identity fp name \<equiv>
     \<lparr>ti_fingerprint = fp, ti_suite_path = ''s'', ti_test_name = name, ti_parameters = [],
      ti_file_path = None\<rparr>"

abbreviation example_pair :: "string \<Rightarrow> string \<Rightarrow> scored_pair" where
  "example_pair fp name \<equiv>
     \<lparr>sp_distance = 1 / 4, sp_old = example_identity fp name, sp_new = example_identity ''3'' ''ad''\<rparr>"

theorem detect_renames_matching_witness:
  "\<exists>c. detect_renames [example_identity ''1'' ''ab''] [example_identity ''3'' ''ad'']
         default_identity_config = [c] \<and>
     ac_old_fingerprint c = ''1'' \<and> ac_new_fingerprint c = ''3'' \<and>
     ac_distance c \<le> alias_max_distance default_identity_config \<and> \<not> ac_certain c"
proof -
  let ?cs = "detect_renames [example_identity ''1'' ''ab''] [example_identity ''3'' ''ad'']
         default_identity_config"
  have one: "?cs = [\<lparr>ac_old_fingerprint = ''1'', ac_new_fingerprint = ''3'', ac_distance = 1 / 4,
      ac_certain = False\<rparr>]"
    by code_simp
  with detect_renames_matching [of "[example_identity ''1'' ''ab'']"
      "[example_identity ''3'' ''ad'']" default_identity_config]
  show ?thesis by (simp add: Let_def)
qed

text \<open>
  C31. Ambiguity is refused rather than resolved: if two different admissible pairs with the same
  rounded distance share a vanished or an appeared identity, and no closer admissible pair
  involves any of their identities, then none of these identities appears in any reported merge,
  not even in a later and worse one.
\<close>

theorem detect_renames_refuses_ambiguity:
  assumes "p \<in> set (score_pairs settings disappeared appeared)"
    and "q \<in> set (score_pairs settings disappeared appeared)"
    and "p \<noteq> q" and "share_endpoint p q" and "rank p = rank q"
    and "\<forall>x \<in> set (score_pairs settings disappeared appeared).
           rank x < rank p \<longrightarrow> set (fps x) \<inter> (set (fps p) \<union> set (fps q)) = {}"
    and "c \<in> set (detect_renames disappeared appeared settings)"
  shows "{ac_old_fingerprint c, ac_new_fingerprint c} \<inter> (set (fps p) \<union> set (fps q)) = {}"
proof -
  define scored where "scored = sort_key pair_key (score_pairs settings disappeared appeared)"
  define st where "st = fold (process_group settings) (groupby rank scored)
             \<lparr>ms_accepted = [], ms_used = [], ms_contested = []\<rparr>"
  have "set (fps p) \<union> set (fps q) \<subseteq> set (ms_contested st)"
    unfolding st_def
    by (rule ambiguous_contested)
      (use assms in \<open>simp_all add: scored_def sorted_rank_sort_key marks_def\<close>)
  moreover have inv: "match_inv settings scored st"
    using scored_def st_def by (rule detect_renames_inv)
  moreover have "c \<in> set (ms_accepted st)"
    using assms(7) by (auto simp: detect_renames_def Let_def st_def scored_def split: if_splits)
  then have "{ac_old_fingerprint c, ac_new_fingerprint c} \<subseteq> set (ms_used st)"
    using inv by (fastforce simp: match_inv_def candidate_of_def fps_def)
  ultimately show ?thesis unfolding match_inv_def by blast
qed

theorem detect_renames_refuses_ambiguity_witness:
  "\<not> (\<exists>c. c \<in> set (detect_renames [example_identity ''1'' ''ab'', example_identity ''2'' ''ac'']
          [example_identity ''3'' ''ad''] default_identity_config) \<and>
        ac_new_fingerprint c = ''3'')"
proof
  let ?d = "[example_identity ''1'' ''ab'', example_identity ''2'' ''ac'']"
  let ?a = "[example_identity ''3'' ''ad'']"
  assume "\<exists>c. c \<in> set (detect_renames ?d ?a default_identity_config) \<and> ac_new_fingerprint c = ''3''"
  then obtain c where c: "c \<in> set (detect_renames ?d ?a default_identity_config)"
    "ac_new_fingerprint c = ''3''" by blast
  have scored: "score_pairs default_identity_config ?d ?a =
      [example_pair ''1'' ''ab'', example_pair ''2'' ''ac'']"
    by code_simp
  have "{ac_old_fingerprint c, ac_new_fingerprint c} \<inter>
      (set (fps (example_pair ''1'' ''ab'')) \<union> set (fps (example_pair ''2'' ''ac''))) = {}"
    by (rule detect_renames_refuses_ambiguity [OF _ _ _ _ _ _ c(1)])
      (simp_all add: scored share_endpoint_def rank_def)
  with c(2) show False by (simp add: fps_def)
qed

end
