(* ===== verification/Pipeline.thy ===== *)
theory Pipeline
  imports Alias Fingerprint Store_Facts
begin

text \<open>
  Ingestion (\<open>ingest/pipeline.py\<close>, \<open>identity/reconcile.py\<close>): parsed cases are resolved to
  identities and stored, renames are reconciled against earlier runs, and the diff and the
  warnings are attached to the run. The clock \<open>now\<close> and the digest \<open>sha\<close> are parameters; the
  parsed cases and warnings come from the XML parser.
\<close>

section \<open>The program\<close>

record ingest_summary =
  su_run_pk :: nat
  su_cases_ingested :: nat
  su_cases_skipped_duplicate :: nat
  su_new_identities :: nat
  su_diff_files :: nat
  su_warnings :: "parse_warning list"
  su_aliases_recorded :: nat
  su_uncertain_aliases :: nat

definition recorded :: "alias_candidate list \<Rightarrow> nat" where
  "recorded cs = length cs"

definition uncertain :: "alias_candidate list \<Rightarrow> nat" where
  "uncertain cs = length (filter (\<lambda>c. \<not> ac_certain c) cs)"

fun record_candidates ::
  "string \<Rightarrow> nat \<Rightarrow> alias_candidate list \<Rightarrow> db \<Rightarrow> db_error + alias_candidate list \<times> db" where
  "record_candidates now run_pk [] d = Inr ([], d)"
| "record_candidates now run_pk (candidate # cs) d =
     (case (identity_id_by_fingerprint d (ac_old_fingerprint candidate),
            identity_id_by_fingerprint d (ac_new_fingerprint candidate)) of
        (Some old_id, Some new_id) \<Rightarrow>
          (case record_alias now old_id new_id (similarity candidate) (ac_certain candidate)
                  (Some run_pk) d of
             Inl e \<Rightarrow> Inl e
           | Inr (_, d') \<Rightarrow>
               (case record_candidates now run_pk cs d' of
                  Inl e \<Rightarrow> Inl e
                | Inr (rs, d'') \<Rightarrow> Inr (candidate # rs, d'')))
      | _ \<Rightarrow> record_candidates now run_pk cs d)"

definition reconcile_renames ::
  "string \<Rightarrow> nat \<Rightarrow> identity_config \<Rightarrow> db \<Rightarrow> db_error + alias_candidate list \<times> db" where
  "reconcile_renames now run_pk settings d =
     (let current_ids = identity_ids_for_run d run_pk in
      if current_ids = [] then Inr ([], d)
      else
        let previous = identities_before_run d run_pk;
            disappeared = map snd (filter (\<lambda>(i, identity). i \<notin> set current_ids) previous);
            appeared = List.map_filter (identity_by_id d)
              (filter (\<lambda>i. i \<notin> fst ` set previous) current_ids);
            found = detect_renames disappeared appeared settings
        in record_candidates now run_pk found d)"

definition describe :: "alias_candidate \<Rightarrow> test_identity \<Rightarrow> test_identity \<Rightarrow> string" where
  "describe candidate old new =
     display_name old @ '' -> '' @ display_name new @
     (if ac_certain candidate then [] else '' (merged_uncertain)'')"

text \<open>The loop over the parsed cases: the rows to insert, the number of new identities.\<close>

fun resolve_cases ::
  "string \<Rightarrow> (string \<Rightarrow> string) \<Rightarrow> test_case_result list \<Rightarrow> db \<Rightarrow>
   ((nat \<times> test_case_result) list \<times> nat) \<times> db" where
  "resolve_cases now sha [] d = (([], 0), d)"
| "resolve_cases now sha (c # cs) d =
     (let ((identity_id, created), d') = upsert_identity now (identity_for sha c) d;
          ((rows, new), d'') = resolve_cases now sha cs d'
      in (((identity_id, c) # rows, (if created then 1 else 0) + new), d''))"

definition ingest ::
  "string \<Rightarrow> (string \<Rightarrow> string) \<Rightarrow> run_metadata \<Rightarrow> test_case_result list \<times> parse_warning list \<Rightarrow>
   diff_summary option \<Rightarrow> parse_warning list \<Rightarrow> identity_config \<Rightarrow> db \<Rightarrow>
   db_error + ingest_summary \<times> db" where
  "ingest now sha metadata parsed diff extra_warnings settings d =
     (case record_run now metadata d of
        (None, _) \<Rightarrow> Inl TypeError
      | (Some run_pk, d1) \<Rightarrow>
          let ((rows, new_identities), d2) = resolve_cases now sha (fst parsed) d1 in
          (case record_executions now run_pk rows d2 of
             Inl e \<Rightarrow> Inl e
           | Inr ((inserted, skipped), d3) \<Rightarrow>
               (case reconcile_renames now run_pk settings d3 of
                  Inl e \<Rightarrow> Inl e
                | Inr (found, d4) \<Rightarrow>
                    (case (case diff of None \<Rightarrow> Inr (0, d4) | Some x \<Rightarrow> record_diff run_pk x d4) of
                       Inl e \<Rightarrow> Inl e
                     | Inr (files, d5) \<Rightarrow>
                         let warnings = snd parsed @ extra_warnings in
                         (case record_warnings now (Some run_pk) warnings d5 of
                            Inl e \<Rightarrow> Inl e
                          | Inr (_, d6) \<Rightarrow>
                              Inr (\<lparr>su_run_pk = run_pk, su_cases_ingested = inserted,
                                    su_cases_skipped_duplicate = skipped,
                                    su_new_identities = new_identities, su_diff_files = files,
                                    su_warnings = warnings, su_aliases_recorded = recorded found,
                                    su_uncertain_aliases = uncertain found\<rparr>, d6))))))"

section \<open>Every step succeeds\<close>

lemma run_exists_cong: "runs d' = runs d \<Longrightarrow> run_exists d' pk = run_exists d pk"
  by (simp add: run_exists_def)

lemma upsert_identity_frame:
  "runs (snd (upsert_identity now i d)) = runs d"
  "executions (snd (upsert_identity now i d)) = executions d"
  "parse_warnings (snd (upsert_identity now i d)) = parse_warnings d"
  by (auto simp: upsert_identity_def Let_def split: option.splits)

lemma find_map_same:
  "(\<And>r. P (g r) = P r) \<Longrightarrow> List.find P (map g rs) = map_option g (List.find P rs)"
  by (induction rs) auto

lemma find_append: "List.find P (xs @ ys) = (case List.find P xs of None \<Rightarrow> List.find P ys | s \<Rightarrow> s)"
  by (induction xs) auto

text \<open>The identity key of a fingerprint, and how an upsert changes it.\<close>

lemma upsert_identity_lookup:
  "identity_id_by_fingerprint (snd (upsert_identity now i d)) fp =
     (if fp = ti_fingerprint i then Some (fst (fst (upsert_identity now i d)))
      else identity_id_by_fingerprint d fp)"
proof (cases "List.find (\<lambda>r. ir_fingerprint r = ti_fingerprint i) (test_identities d)")
  case None
  then show ?thesis
    by (auto simp: upsert_identity_def identity_id_by_fingerprint_def Let_def find_append
        split: option.splits)
next
  case (Some r)
  then show ?thesis
    by (auto simp: upsert_identity_def identity_id_by_fingerprint_def find_map_same
        option.map_comp comp_def if_distrib [of ir_id] cong: if_cong)
qed

lemma upsert_identity_created:
  "snd (fst (upsert_identity now i d)) \<longleftrightarrow> identity_id_by_fingerprint d (ti_fingerprint i) = None"
  "identity_id_by_fingerprint d (ti_fingerprint i) = Some k \<Longrightarrow> fst (fst (upsert_identity now i d)) = k"
  by (auto simp: upsert_identity_def identity_id_by_fingerprint_def Let_def split: option.splits)

lemma lookup_exists: "identity_id_by_fingerprint d fp = Some k \<Longrightarrow> identity_exists d k"
  by (auto simp: identity_id_by_fingerprint_def identity_exists_def find_Some_iff)

lemma resolve_cases_frame:
  "resolve_cases now sha cs d = ((rows, n), d') \<Longrightarrow>
   runs d' = runs d \<and> executions d' = executions d \<and> parse_warnings d' = parse_warnings d \<and>
   map snd rows = cs"
proof (induction cs arbitrary: d rows n d')
  case (Cons c cs)
  obtain k b e where u: "upsert_identity now (identity_for sha c) d = ((k, b), e)"
    by (metis surj_pair)
  obtain rs m e' where r: "resolve_cases now sha cs e = ((rs, m), e')"
    by (metis surj_pair)
  show ?case
    using Cons.IH [OF r] Cons.prems u r upsert_identity_frame [of now "identity_for sha c" d] by auto
qed simp

text \<open>Once resolved, every case keeps its key, and the rows hold exactly these keys.\<close>

lemma resolve_cases_lookup:
  "resolve_cases now sha cs d = ((rows, n), d') \<Longrightarrow>
   (\<forall>fp k. identity_id_by_fingerprint d fp = Some k \<longrightarrow> identity_id_by_fingerprint d' fp = Some k) \<and>
   (\<forall>(i, c) \<in> set rows. identity_id_by_fingerprint d' (ti_fingerprint (identity_for sha c)) = Some i)"
proof (induction cs arbitrary: d rows n d')
  case (Cons c cs)
  obtain k b e where u: "upsert_identity now (identity_for sha c) d = ((k, b), e)"
    by (metis surj_pair)
  obtain rs m e' where r: "resolve_cases now sha cs e = ((rs, m), e')"
    by (metis surj_pair)
  have e: "identity_id_by_fingerprint e fp =
      (if fp = ti_fingerprint (identity_for sha c) then Some k else identity_id_by_fingerprint d fp)"
    for fp
    using upsert_identity_lookup [of now "identity_for sha c" d fp] u by simp
  have "identity_id_by_fingerprint d (ti_fingerprint (identity_for sha c)) = Some j \<Longrightarrow> j = k" for j
    using upsert_identity_created(2) [of d "identity_for sha c" j now] u by simp
  then have mono: "identity_id_by_fingerprint e fp = Some j"
    if "identity_id_by_fingerprint d fp = Some j" for fp j
    using that e [of fp] by auto
  have "rows = (k, c) # rs" "d' = e'"
    using Cons.prems u r by auto
  moreover have "identity_id_by_fingerprint e (ti_fingerprint (identity_for sha c)) = Some k"
    by (simp add: e)
  ultimately show ?case
    using Cons.IH [OF r] mono by auto
qed simp

lemma resolve_cases_again:
  assumes "\<forall>(i, c) \<in> set rows. identity_id_by_fingerprint d (ti_fingerprint (identity_for sha c)) = Some i"
  shows "fst (resolve_cases now sha (map snd rows) d) = (rows, 0)"
  using assms
proof (induction rows arbitrary: d)
  case (Cons row rows)
  obtain i c where row: "row = (i, c)" by (cases row)
  obtain k b e where u: "upsert_identity now (identity_for sha c) d = ((k, b), e)"
    by (metis surj_pair)
  have known: "identity_id_by_fingerprint d (ti_fingerprint (identity_for sha c)) = Some i"
    using Cons.prems row by simp
  have kb: "k = i" "\<not> b"
    using upsert_identity_created(1) [of now "identity_for sha c" d]
      upsert_identity_created(2) [OF known, of now] known u by simp_all
  have "identity_id_by_fingerprint e fp = identity_id_by_fingerprint d fp" for fp
    using upsert_identity_lookup [of now "identity_for sha c" d fp] u kb known by simp
  then have "fst (resolve_cases now sha (map snd rows) e) = (rows, 0)"
    using Cons by (intro Cons.IH) simp
  then show ?case
    using row u kb by (simp add: split_beta Let_def)
qed simp

lemma resolve_cases_reachable:
  "db_reachable d \<Longrightarrow> db_reachable (snd (resolve_cases now sha cs d))"
proof (induction cs arbitrary: d)
  case (Cons c cs)
  obtain k b e where u: "upsert_identity now (identity_for sha c) d = ((k, b), e)"
    by (metis surj_pair)
  with Cons.prems have "db_reachable e" by (auto intro: identity_row)
  with Cons.IH u show ?case by (simp add: split_beta Let_def)
qed simp

lemma insert_executions_succeeds:
  "run_exists d pk \<Longrightarrow> list_all (\<lambda>(i, c). identity_exists d i) rows \<Longrightarrow>
   \<exists>k d'. insert_executions now pk rows d n = Inr (k, d')"
  by (induction now pk rows d n rule: insert_executions.induct)
    (auto simp: run_exists_def identity_exists_def)

lemma insert_diff_succeeds: "run_exists d pk \<Longrightarrow> \<exists>d'. insert_diff pk cs d = Inr d'"
  by (induction pk cs d rule: insert_diff.induct) (auto simp: run_exists_def Let_def)

lemma insert_diff_frame:
  "insert_diff pk cs d = Inr d' \<Longrightarrow>
   runs d' = runs d \<and> executions d' = executions d \<and> test_identities d' = test_identities d \<and>
   parse_warnings d' = parse_warnings d \<and> identity_aliases d' = identity_aliases d"
  by (induction pk cs d rule: insert_diff.induct) (auto simp: Let_def split: if_splits)

lemma record_alias_succeeds:
  "identity_exists d a \<Longrightarrow> identity_exists d b \<Longrightarrow> run_exists d pk \<Longrightarrow>
   \<exists>k d'. record_alias now a b s c (Some pk) d = Inr (k, d')"
  by (auto simp: record_alias_def)

lemma record_alias_frame:
  "record_alias now a b s c opk d = Inr (k, d') \<Longrightarrow>
   runs d' = runs d \<and> executions d' = executions d \<and> test_identities d' = test_identities d \<and>
   parse_warnings d' = parse_warnings d"
  by (auto simp: record_alias_def split: if_splits)

lemma record_candidates_succeeds:
  "run_exists d pk \<Longrightarrow> db_reachable d \<Longrightarrow>
   \<exists>rs d'. record_candidates now pk cs d = Inr (rs, d') \<and> db_reachable d' \<and> runs d' = runs d \<and>
     executions d' = executions d \<and> test_identities d' = test_identities d \<and>
     parse_warnings d' = parse_warnings d"
proof (induction cs arbitrary: d)
  case Nil
  then show ?case by simp
next
  case (Cons c cs)
  show ?case
  proof (cases "identity_id_by_fingerprint d (ac_old_fingerprint c) = None \<or>
      identity_id_by_fingerprint d (ac_new_fingerprint c) = None")
    case True
    with Cons show ?thesis by (auto split: option.split)
  next
    case False
    then obtain a b where ab: "identity_id_by_fingerprint d (ac_old_fingerprint c) = Some a"
      "identity_id_by_fingerprint d (ac_new_fingerprint c) = Some b" by auto
    then obtain k d1 where d1: "record_alias now a b (similarity c) (ac_certain c) (Some pk) d = Inr (k, d1)"
      using record_alias_succeeds lookup_exists Cons.prems(1) by blast
    have "db_reachable d1"
      using Cons.prems(2) d1 by (rule alias_edge)
    moreover have "run_exists d1 pk"
      using record_alias_frame [OF d1] Cons.prems(1) by (simp add: run_exists_def)
    ultimately show ?thesis
      using Cons.IH [of d1] record_alias_frame [OF d1] ab d1 by fastforce
  qed
qed

lemma reconcile_renames_succeeds:
  assumes "run_exists d pk" and "db_reachable d"
  shows "\<exists>rs d'. reconcile_renames now pk settings d = Inr (rs, d') \<and> db_reachable d' \<and>
     runs d' = runs d \<and> executions d' = executions d \<and> test_identities d' = test_identities d \<and>
     parse_warnings d' = parse_warnings d"
  using record_candidates_succeeds [OF assms] assms
  unfolding reconcile_renames_def Let_def by (simp split: if_split)

lemma insert_executions_frame:
  "insert_executions now pk rows d n = Inr (k, d') \<Longrightarrow>
   runs d' = runs d \<and> test_identities d' = test_identities d \<and> parse_warnings d' = parse_warnings d"
  by (induction now pk rows d n rule: insert_executions.induct) (auto split: if_splits)

lemma record_executions_succeeds:
  assumes "run_exists d pk" and "list_all (\<lambda>(i, c). identity_exists d i) rows" and "db_reachable d"
  shows "\<exists>k d'. record_executions now pk rows d = Inr ((k, length rows - k), d') \<and> db_reachable d' \<and>
     runs d' = runs d \<and> test_identities d' = test_identities d \<and> parse_warnings d' = parse_warnings d \<and>
     k \<le> length rows \<and>
     length (executions d') = length (executions d) + k"
proof -
  obtain k d' where ins: "insert_executions now pk rows d 0 = Inr (k, d')"
    using insert_executions_succeeds [OF assms(1,2)] by blast
  then have rec: "record_executions now pk rows d = Inr ((k, length rows - k), d')"
    by (simp add: record_executions_def)
  with assms(3) have "db_reachable d'" by (rule execution_rows)
  with rec show ?thesis
    using insert_executions_prefix [OF ins] insert_executions_frame [OF ins] by auto
qed

lemma record_diff_succeeds:
  assumes "run_exists d pk" and "db_reachable d"
  shows "\<exists>n d'. (case diff of None \<Rightarrow> Inr (0, d) | Some x \<Rightarrow> record_diff pk x d) = Inr (n, d') \<and>
     db_reachable d' \<and> runs d' = runs d \<and> executions d' = executions d \<and>
     test_identities d' = test_identities d \<and> parse_warnings d' = parse_warnings d"
proof (cases diff)
  case None
  then show ?thesis using assms by simp
next
  case (Some x)
  obtain d' where ins: "insert_diff pk (ds_files x) d = Inr d'"
    using insert_diff_succeeds [OF assms(1)] by blast
  then have rec: "record_diff pk x d = Inr (length (ds_files x), d')"
    by (simp add: record_diff_def)
  with assms(2) have "db_reachable d'" by (rule diff_rows)
  with rec Some show ?thesis using insert_diff_frame [OF ins] by simp
qed

lemma length_warning_rows [simp]: "length (warning_rows k pk now ws) = length ws"
  by (induction k pk now ws rule: warning_rows.induct) simp_all

lemma record_warnings_succeeds:
  assumes "run_exists d pk" and "db_reachable d"
  shows "\<exists>d'. record_warnings now (Some pk) ws d = Inr (length ws, d') \<and> db_reachable d' \<and>
     runs d' = runs d \<and> executions d' = executions d \<and> test_identities d' = test_identities d \<and>
     length (parse_warnings d') = length (parse_warnings d) + length ws"
proof -
  obtain d' where rec: "record_warnings now (Some pk) ws d = Inr (length ws, d')"
    using assms(1) by (simp add: record_warnings_def)
  with assms(2) have "db_reachable d'" by (rule warning_rows)
  with rec show ?thesis using record_warnings_result [OF rec] by simp
qed

text \<open>
  One successful ingestion, step by step: the run key, the rows, and what the final database
  shares with the one after the identities were resolved.
\<close>

lemma ingest_steps:
  assumes "db_reachable d"
  obtains pk d1 rows new d2 s d' where
    "record_run now metadata d = (Some pk, d1)"
    "resolve_cases now sha (fst parsed) d1 = ((rows, new), d2)"
    "db_reachable d2" "run_exists d2 pk"
    "ingest now sha metadata parsed diff extra settings d = Inr (s, d')"
    "db_reachable d'" "runs d' = runs d1" "test_identities d' = test_identities d2"
    "\<exists>d3. record_executions now pk rows d2 =
       Inr ((su_cases_ingested s, su_cases_skipped_duplicate s), d3) \<and> executions d' = executions d3"
    "su_run_pk s = pk" "su_new_identities s = new"
    "su_cases_ingested s + su_cases_skipped_duplicate s = length (fst parsed)"
    "length (executions d') = length (executions d) + su_cases_ingested s"
    "su_warnings s = snd parsed @ extra"
    "length (parse_warnings d') = length (parse_warnings d) + length (snd parsed @ extra)"
proof -
  obtain pk d1 where run: "record_run now metadata d = (Some pk, d1)" "run_exists d1 pk"
    by (metis record_run_result surjective_pairing)
  have d1: "db_reachable d1" using assms run(1) by (rule run_row)
  have d1_same: "executions d1 = executions d" "parse_warnings d1 = parse_warnings d"
    using run(1) by (auto simp: record_run_def Let_def split: if_splits)
  obtain rows new d2 where res: "resolve_cases now sha (fst parsed) d1 = ((rows, new), d2)"
    by (metis surj_pair)
  note frame = resolve_cases_frame [OF res] and lookup = resolve_cases_lookup [OF res]
  have d2: "db_reachable d2" "run_exists d2 pk" "list_all (\<lambda>(i, c). identity_exists d2 i) rows"
    using resolve_cases_reachable [OF d1, of now sha "fst parsed"] res frame run(2) lookup
    by (auto simp: run_exists_def list_all_iff intro: lookup_exists)
  obtain k d3 where exe: "record_executions now pk rows d2 = Inr ((k, length rows - k), d3)"
    "db_reachable d3" "runs d3 = runs d2" "test_identities d3 = test_identities d2"
    "parse_warnings d3 = parse_warnings d2" "k \<le> length rows"
    "length (executions d3) = length (executions d2) + k"
    using record_executions_succeeds [OF d2(2,3,1)] by blast
  have pk3: "run_exists d3 pk"
    using exe(3) d2(2) by (simp add: run_exists_def)
  obtain rs d4 where ren: "reconcile_renames now pk settings d3 = Inr (rs, d4)" "db_reachable d4"
    "runs d4 = runs d3" "executions d4 = executions d3" "test_identities d4 = test_identities d3"
    "parse_warnings d4 = parse_warnings d3"
    using reconcile_renames_succeeds [OF pk3 exe(2)] by blast
  have pk4: "run_exists d4 pk" using ren(3) pk3 by (simp add: run_exists_def)
  obtain n d5 where dif: "(case diff of None \<Rightarrow> Inr (0, d4) | Some x \<Rightarrow> record_diff pk x d4) = Inr (n, d5)"
    "db_reachable d5" "runs d5 = runs d4" "executions d5 = executions d4"
    "test_identities d5 = test_identities d4" "parse_warnings d5 = parse_warnings d4"
    using record_diff_succeeds [OF pk4 ren(2)] by blast
  have pk5: "run_exists d5 pk" using dif(3) pk4 by (simp add: run_exists_def)
  obtain d6 where war: "record_warnings now (Some pk) (snd parsed @ extra) d5 =
      Inr (length (snd parsed @ extra), d6)" "db_reachable d6" "runs d6 = runs d5"
    "executions d6 = executions d5" "test_identities d6 = test_identities d5"
    "length (parse_warnings d6) = length (parse_warnings d5) + length (snd parsed @ extra)"
    using record_warnings_succeeds [OF pk5 dif(2)] by blast
  let ?s = "\<lparr>su_run_pk = pk, su_cases_ingested = k, su_cases_skipped_duplicate = length rows - k,
    su_new_identities = new, su_diff_files = n, su_warnings = snd parsed @ extra,
    su_aliases_recorded = recorded rs, su_uncertain_aliases = uncertain rs\<rparr>"
  have ing: "ingest now sha metadata parsed diff extra settings d = Inr (?s, d6)"
    by (simp add: ingest_def run res exe(1) ren(1) dif(1) war(1))
  have "length rows = length (fst parsed)"
    using frame by (metis length_map)
  then show thesis
    using that [OF run(1) res d2(1,2) ing war(2)] frame d1_same exe ren dif war by simp
qed

lemma ingest_total:
  assumes "db_reachable d"
  shows "\<exists>s d'. ingest now sha metadata parsed diff extra settings d = Inr (s, d') \<and> db_reachable d'"
  by (rule ingest_steps [OF assms, of now metadata sha parsed diff extra settings]) blast

lemma ingest_result:
  assumes "db_reachable d"
  shows "\<exists>s d'. ingest now sha metadata parsed diff extra settings d = Inr (s, d') \<and>
     db_reachable d' \<and> run_exists d' (su_run_pk s) \<and>
     su_cases_ingested s + su_cases_skipped_duplicate s = length (fst parsed) \<and>
     count_executions d' = count_executions d + su_cases_ingested s \<and>
     su_warnings s = snd parsed @ extra \<and>
     length (parse_warnings d') = length (parse_warnings d) + length (su_warnings s)"
proof -
  obtain pk d1 rows new d2 s d' where
    run: "record_run now metadata d = (Some pk, d1)" and
    st: "ingest now sha metadata parsed diff extra settings d = Inr (s, d')"
    "db_reachable d'" "runs d' = runs d1" "su_run_pk s = pk"
    "su_cases_ingested s + su_cases_skipped_duplicate s = length (fst parsed)"
    "length (executions d') = length (executions d) + su_cases_ingested s"
    "su_warnings s = snd parsed @ extra"
    "length (parse_warnings d') = length (parse_warnings d) + length (snd parsed @ extra)"
    by (rule ingest_steps [OF assms])
  have "run_exists d1 pk"
    using record_run_result [of now metadata d] run by (metis fst_conv snd_conv option.inject)
  then have "run_exists d' (su_run_pk s)"
    using st(3,4) by (simp add: run_exists_def)
  with st show ?thesis by (simp add: count_executions_def)
qed

text \<open>
  Ingestion never fails on a database the program built: whatever the parsed cases, the diff
  and the warnings are, no integrity error is raised, the resulting database is again one of the
  program's (so it keeps the store's integrity), every case is either inserted or reported as a
  skipped duplicate, and the number of stored executions grows by exactly the inserted ones.
\<close>

theorem ingest_succeeds:
  assumes "db_reachable d"
  shows "\<exists>s d'. ingest now sha metadata parsed diff extra settings d = Inr (s, d') \<and>
     db_reachable d' \<and> run_exists d' (su_run_pk s) \<and>
     su_cases_ingested s + su_cases_skipped_duplicate s = length (fst parsed) \<and>
     count_executions d' = count_executions d + su_cases_ingested s \<and>
     su_warnings s = snd parsed @ extra \<and>
     length (parse_warnings d') = length (parse_warnings d) + length (su_warnings s)"
  by (rule ingest_result [OF assms])

text \<open>One ingestion of a failing case with a parse warning, after the sample database.\<close>

definition sample_parsed :: "test_case_result list \<times> parse_warning list" where
  "sample_parsed = ([sample_case FAIL, sample_case FAIL],
     [\<lparr>pw_origin = ''a.xml'', pw_reason = ''truncated'', pw_detail = None\<rparr>])"

theorem ingest_succeeds_witness:
  "\<exists>s d'. ingest ''now'' rev (sample_run 3) sample_parsed None [] default_identity_config sample_db =
       Inr (s, d') \<and> su_cases_ingested s + su_cases_skipped_duplicate s = 2 \<and> db_reachable d'"
  using ingest_succeeds [OF sample_db_reachable, of "''now''" rev "sample_run 3" sample_parsed None
      "[]" default_identity_config]
  by (auto simp: sample_parsed_def)

lemma identity_id_cong:
  "test_identities d = test_identities e \<Longrightarrow>
   identity_id_by_fingerprint d fp = identity_id_by_fingerprint e fp"
  by (simp add: identity_id_by_fingerprint_def)

lemma record_run_again:
  assumes "record_run now m d = (Some pk, d1)" and "runs e = runs d1"
  shows "record_run now2 m e = (Some pk, e)"
proof -
  have "metadata_key m \<in> run_key ` set (runs d1)"
    using record_run_result [of now m d] assms(1) by (metis snd_conv)
  moreover have "map_option rr_id (List.find (\<lambda>r. run_key r = metadata_key m) (runs d1)) = Some pk"
    using assms(1) by (auto simp: record_run_def Let_def)
  ultimately show ?thesis
    using assms(2) by (simp add: record_run_def Let_def)
qed

lemma resolve_cases_repeat:
  assumes "resolve_cases now sha cs d1 = ((rows, new), d2)" and "test_identities d' = test_identities d2"
    and "resolve_cases now2 sha cs d' = ((rows2, new2), f2)"
  shows "rows2 = rows \<and> new2 = 0 \<and> length rows = length cs"
proof -
  note frame = resolve_cases_frame [OF assms(1)]
  have "\<forall>(i, c) \<in> set rows. identity_id_by_fingerprint d' (ti_fingerprint (identity_for sha c)) = Some i"
    using resolve_cases_lookup [OF assms(1)] identity_id_cong [of d' d2] assms(2) by simp
  from resolve_cases_again [OF this, of now2] frame assms(3) have "rows2 = rows" "new2 = 0"
    by simp_all
  moreover have "length rows = length cs" using frame by (metis length_map)
  ultimately show ?thesis by simp
qed

lemma record_executions_repeat:
  assumes "record_executions now pk rows d = Inr (k, d3)" and "executions f = executions d3"
  shows "record_executions now2 pk rows f = Inr ((0, length rows), f)"
proof -
  obtain n where "insert_executions now pk rows d 0 = Inr (n, d3)"
    using assms(1) by (auto simp: record_executions_def split: sum.splits)
  then have "Pair pk ` fst ` set rows \<subseteq> execution_key ` set (executions f)"
    unfolding assms(2) by (blast dest: insert_executions_keys)
  then show ?thesis by (simp add: record_executions_def insert_executions_present)
qed

text \<open>
  Ingesting the same results twice counts nothing twice: the second ingestion of a run (with
  any later clock, diff or settings) finds the same run, creates no identity, inserts no execution
  and reports every case as a skipped duplicate. What it does add are the parse warnings, which
  are stored again in full.
\<close>

theorem reingest_counts_nothing_twice:
  assumes "db_reachable d"
    and "ingest now sha metadata parsed diff extra settings d = Inr (s, d')"
    and "ingest now2 sha metadata parsed diff2 extra2 settings2 d' = Inr (s2, d'')"
  shows "su_run_pk s2 = su_run_pk s \<and> runs d'' = runs d' \<and> executions d'' = executions d' \<and>
    su_cases_ingested s2 = 0 \<and> su_cases_skipped_duplicate s2 = length (fst parsed) \<and>
    su_new_identities s2 = 0 \<and>
    length (parse_warnings d'') = length (parse_warnings d') + length (snd parsed @ extra2)"
proof -
  obtain pk d1 rows new d2 t e' d3 where
    run: "record_run now metadata d = (Some pk, d1)" and
    res: "resolve_cases now sha (fst parsed) d1 = ((rows, new), d2)" and
    st: "ingest now sha metadata parsed diff extra settings d = Inr (t, e')"
    "db_reachable e'" "runs e' = runs d1" "test_identities e' = test_identities d2"
    "record_executions now pk rows d2 =
       Inr ((su_cases_ingested t, su_cases_skipped_duplicate t), d3)" "executions e' = executions d3"
    "su_run_pk t = pk"
    by (rule ingest_steps [OF assms(1), of now metadata sha parsed diff extra settings]) blast
  have eq: "t = s" "e' = d'" using st(1) assms(2) by simp_all
  obtain pk2 f1 rows2 new2 f2 u f' f3 where
    run2: "record_run now2 metadata d' = (Some pk2, f1)" and
    res2: "resolve_cases now2 sha (fst parsed) f1 = ((rows2, new2), f2)" and
    st2: "ingest now2 sha metadata parsed diff2 extra2 settings2 d' = Inr (u, f')"
    "runs f' = runs f1"
    "record_executions now2 pk2 rows2 f2 =
       Inr ((su_cases_ingested u, su_cases_skipped_duplicate u), f3)" "executions f' = executions f3"
    "su_run_pk u = pk2" "su_new_identities u = new2"
    "length (parse_warnings f') = length (parse_warnings d') + length (snd parsed @ extra2)"
    using st(2) unfolding eq
    by (rule ingest_steps [of d' now2 metadata sha parsed diff2 extra2 settings2]) blast
  have eq2: "u = s2" "f' = d''" using st2(1) assms(3) by simp_all
  have f1: "pk2 = pk" "f1 = d'"
    using record_run_again [OF run, of d' now2] st(3) run2 eq by simp_all
  have rows2: "rows2 = rows" "new2 = 0" "length rows = length (fst parsed)"
    using resolve_cases_repeat [OF res _ res2] st(4) eq f1 by simp_all
  have "record_executions now2 pk rows f2 = Inr ((0, length rows), f2)"
    using record_executions_repeat [OF st(5)] resolve_cases_frame [OF res2] st(6) eq f1 by simp
  then show ?thesis
    using st2 st(7) f1 rows2 eq eq2 resolve_cases_frame [OF res2] by simp
qed

theorem reingest_counts_nothing_twice_witness:
  "\<exists>s d' s2 d''. ingest ''a'' rev (sample_run 3) sample_parsed None [] default_identity_config sample_db =
       Inr (s, d') \<and>
     ingest ''b'' rev (sample_run 3) sample_parsed None [] default_identity_config d' = Inr (s2, d'') \<and>
     executions d'' = executions d' \<and> length (parse_warnings d'') = length (parse_warnings d') + 1"
proof -
  obtain s d' where first: "ingest ''a'' rev (sample_run 3) sample_parsed None []
      default_identity_config sample_db = Inr (s, d')" "db_reachable d'"
    using ingest_total [OF sample_db_reachable] by blast
  obtain s2 d'' where second: "ingest ''b'' rev (sample_run 3) sample_parsed None []
      default_identity_config d' = Inr (s2, d'')"
    using ingest_total [OF first(2)] by blast
  show ?thesis
    using reingest_counts_nothing_twice [OF sample_db_reachable first(1) second] first(1) second
    by (auto simp: sample_parsed_def)
qed

end
