(* ===== verification/Junit.thy ===== *)
theory Junit
  imports Models
begin

text \<open>
  The streaming JUnit parser (\<open>ingest/junit.py\<close>). The XML parser is the library's: what
  \<open>iterparse\<close> delivers is a list of start and end events and, for a truncated or corrupt document,
  the message of the \<open>ParseError\<close> raised after them. The rest is the program: the suite stack, the
  cases, their fields, the screening of the bytes, and the conversion of the attributes. Numbers are
  exact; overflow to infinity is at the limit of the double format.
\<close>

section \<open>Numbers\<close>

definition FLOAT_LIMIT :: pyfloat where
  "FLOAT_LIMIT = 2 ^ 1024 - 2 ^ 970"

text \<open>A run of digits with single underscores between them, without the underscores.\<close>

fun digits_ok :: "string \<Rightarrow> bool" where
  "digits_ok [] = False"
| "digits_ok [c] = is_digit c"
| "digits_ok (c # d # cs) =
     (is_digit c \<and> (if d = CHR ''_'' then digits_ok cs else digits_ok (d # cs)))"

definition digit_part :: "string \<Rightarrow> nat option" where
  "digit_part s = (if digits_ok s then Some (read_nat (filter is_digit s)) else None)"

definition take_sign :: "string \<Rightarrow> bool \<times> string" where
  "take_sign s = (case s of
       c # r \<Rightarrow> if c = CHR ''-'' then (True, r) else if c = CHR ''+'' then (False, r) else (False, s)
     | [] \<Rightarrow> (False, s))"

text \<open>\<open>int(value)\<close>; \<open>None\<close> is \<open>ValueError\<close>, also raised for more than 4300 digits.\<close>

definition parse_int :: "string \<Rightarrow> int option" where
  "parse_int value =
     (let (neg, s) = take_sign (strip value) in
      if 4300 < length (filter is_digit s) then None
      else map_option (\<lambda>n. if neg then - int n else int n) (digit_part s))"

definition mantissa :: "string \<Rightarrow> (nat \<times> nat) option" where
  "mantissa m =
     (let whole = takeWhile (\<lambda>c. c \<noteq> CHR ''.'') m; rest = dropWhile (\<lambda>c. c \<noteq> CHR ''.'') m;
          fraction = tl rest
      in if rest = [] then map_option (\<lambda>n. (n, 0)) (digit_part whole)
         else if (whole = [] \<or> digits_ok whole) \<and> (fraction = [] \<or> digits_ok fraction) \<and>
                 (whole \<noteq> [] \<or> fraction \<noteq> [])
         then Some (read_nat (filter is_digit (whole @ fraction)), length (filter is_digit fraction))
         else None)"

definition exponent :: "string \<Rightarrow> int option" where
  "exponent e =
     (if e = [] then Some 0
      else let (neg, s) = take_sign (tl e)
           in map_option (\<lambda>n. if neg then - int n else int n) (digit_part s))"

definition scaled :: "nat \<Rightarrow> int \<Rightarrow> pyfloat" where
  "scaled n e = (if 0 \<le> e then of_nat n * 10 ^ nat e else of_nat n / 10 ^ nat (- e))"

text \<open>\<open>float(value)\<close>; \<open>None\<close> is \<open>ValueError\<close>.\<close>

definition parse_float :: "string \<Rightarrow> float_value option" where
  "parse_float value =
     (let (neg, s) = take_sign (strip value); l = str_lower s; is_e = (\<lambda>c. lower_char c = CHR ''e'') in
      if l = ''inf'' \<or> l = ''infinity'' then Some (FInfinity neg)
      else if l = ''nan'' then Some FNaN
      else
        case (mantissa (takeWhile (Not \<circ> is_e) s), exponent (dropWhile (Not \<circ> is_e) s)) of
          (Some (n, k), Some e) \<Rightarrow>
            let x = scaled n (e - int k) in
            if FLOAT_LIMIT \<le> x then Some (FInfinity neg) else Some (FFinite (if neg then - x else x))
        | _ \<Rightarrow> None)"

datatype junit_error = OverflowError

definition duration_ms :: "string option \<Rightarrow> junit_error + int option" where
  "duration_ms value =
     (case value of
        None \<Rightarrow> Inr None
      | Some v \<Rightarrow>
          (case parse_float (replace_char (CHR '','') (CHR ''.'') v) of
             None \<Rightarrow> Inr None
           | Some FNaN \<Rightarrow> Inr None
           | Some (FInfinity neg) \<Rightarrow> if neg then Inr None else Inl OverflowError
           | Some (FFinite seconds) \<Rightarrow>
               if seconds < 0 then Inr None
               else if FLOAT_LIMIT \<le> seconds * 1000 then Inl OverflowError
               else Inr (Some (round_half_even (seconds * 1000)))))"

definition int_or_none :: "string option \<Rightarrow> int option" where
  "int_or_none value = Option.bind value parse_int"

definition clean :: "string option \<Rightarrow> string option" where
  "clean value =
     (case value of None \<Rightarrow> None | Some v \<Rightarrow> if strip v = [] then None else Some (strip v))"

section \<open>Elements\<close>

datatype element = Element (el_tag: string) (el_attrs: "(string \<times> string) list")
  (el_text: "string option") (el_children: "element list")

datatype xml_event = Start string "(string \<times> string) list" | End element

definition el_get :: "element \<Rightarrow> string \<Rightarrow> string option" where
  "el_get e k = map_of (el_attrs e) k"

text \<open>\<open>rpartition\<close> cuts at the last closing brace.\<close>

definition localname :: "string \<Rightarrow> string" where
  "localname tag =
     (if CHR 0x7D \<in> set tag then rev (takeWhile (\<lambda>c. c \<noteq> CHR 0x7D) (rev tag)) else tag)"

definition tag_of :: "string \<Rightarrow> string" where
  "tag_of tag = str_lower (localname tag)"

fun FAILURE_TAGS :: "string \<Rightarrow> outcome option" where
  "FAILURE_TAGS tag =
     (if tag = ''failure'' then Some FAIL
      else if tag = ''error'' then Some ERROR
      else if tag = ''skipped'' then Some SKIP else None)"

definition RERUN_TAGS :: "string list" where
  "RERUN_TAGS = [''flakyfailure'', ''flakyerror'', ''rerunfailure'', ''rerunerror'']"

record suite_frame =
  sf_name :: string
  sf_file :: "string option"
  sf_stdout :: "string option"
  sf_stderr :: "string option"
  sf_cases :: "test_case_result list"

record case_acc =
  ca_outcome :: outcome
  ca_failure_type :: "string option"
  ca_failure_message :: "string option"
  ca_stack_trace :: "string option"
  ca_stdout :: "string option"
  ca_stderr :: "string option"
  ca_rerun :: bool

definition take_failure :: "element \<Rightarrow> case_acc \<Rightarrow> case_acc" where
  "take_failure child a =
     a\<lparr>ca_failure_type := clean (el_get child ''type''),
       ca_failure_message := clean (el_get child ''message''),
       ca_stack_trace := clean (el_text child)\<rparr>"

definition case_child :: "element \<Rightarrow> case_acc \<Rightarrow> case_acc" where
  "case_child child a =
     (let tag = tag_of (el_tag child) in
      if FAILURE_TAGS tag \<noteq> None \<and> ca_outcome a = PASS
      then (take_failure child a)\<lparr>ca_outcome := the (FAILURE_TAGS tag)\<rparr>
      else if tag \<in> set RERUN_TAGS
      then (if ca_failure_message a = None then take_failure child a else a)\<lparr>ca_rerun := True\<rparr>
      else if tag = ''system-out'' then a\<lparr>ca_stdout := clean (el_text child)\<rparr>
      else if tag = ''system-err'' then a\<lparr>ca_stderr := clean (el_text child)\<rparr>
      else a)"

definition empty_acc :: case_acc where
  "empty_acc = \<lparr>ca_outcome = PASS, ca_failure_type = None, ca_failure_message = None,
     ca_stack_trace = None, ca_stdout = None, ca_stderr = None, ca_rerun = False\<rparr>"

definition or_empty :: "string option \<Rightarrow> string" where
  "or_empty v = (case v of None \<Rightarrow> [] | Some s \<Rightarrow> s)"

text \<open>The stack of open suites has the innermost one at its head.\<close>

fun inherited_file :: "suite_frame list \<Rightarrow> string option" where
  "inherited_file [] = None"
| "inherited_file (f # fs) = (case sf_file f of None \<Rightarrow> inherited_file fs | Some p \<Rightarrow> Some p)"

definition case_record ::
  "element \<Rightarrow> suite_frame list \<Rightarrow> string \<Rightarrow> int option \<Rightarrow> test_case_result" where
  "case_record e suites origin duration =
     (let a = fold case_child (el_children e) empty_acc in
      \<lparr>tc_name = strip (or_empty (el_get e ''name'')),
       tc_classname = strip (case el_get e ''classname'' of
          None \<Rightarrow> or_empty (el_get e ''class'') | Some c \<Rightarrow> c),
       tc_suite_path = join ''/'' (filter (\<lambda>n. n \<noteq> []) (map sf_name (rev suites))),
       tc_file_path = (case clean (el_get e ''file'') of
          None \<Rightarrow> inherited_file suites | Some p \<Rightarrow> Some p),
       tc_line = int_or_none (el_get e ''line''), tc_duration_ms = duration,
       tc_outcome = ca_outcome a, tc_failure_type = ca_failure_type a,
       tc_failure_message = ca_failure_message a, tc_stack_trace = ca_stack_trace a,
       tc_stdout = ca_stdout a, tc_stderr = ca_stderr a, tc_rerun_observed = ca_rerun a,
       tc_source_file = Some origin\<rparr>)"

definition build_case :: "element \<Rightarrow> suite_frame list \<Rightarrow> string \<Rightarrow> junit_error + test_case_result" where
  "build_case e suites origin =
     (case duration_ms (el_get e ''time'') of
        Inl x \<Rightarrow> Inl x
      | Inr duration \<Rightarrow> Inr (case_record e suites origin duration))"

definition with_suite_output :: "suite_frame \<Rightarrow> test_case_result \<Rightarrow> test_case_result" where
  "with_suite_output f c =
     c\<lparr>tc_stdout := (if tc_stdout c = None then sf_stdout f else tc_stdout c),
       tc_stderr := (if tc_stderr c = None then sf_stderr f else tc_stderr c)\<rparr>"

definition attach_suite_output :: "suite_frame \<Rightarrow> string \<Rightarrow> element \<Rightarrow> suite_frame" where
  "attach_suite_output f tag e =
     (if tag = ''system-out'' then f\<lparr>sf_stdout := clean (el_text e)\<rparr>
      else f\<lparr>sf_stderr := clean (el_text e)\<rparr>)"

section \<open>The stream\<close>

record stream_state =
  ss_cases :: "test_case_result list"
  ss_suites :: "suite_frame list"
  ss_case_depth :: nat

text \<open>\<open>(suites[-1].cases if suites else cases).extend(...)\<close>.\<close>

definition add_cases :: "test_case_result list \<Rightarrow> stream_state \<Rightarrow> stream_state" where
  "add_cases cs s =
     (case ss_suites s of
        [] \<Rightarrow> s\<lparr>ss_cases := ss_cases s @ cs\<rparr>
      | f # fs \<Rightarrow> s\<lparr>ss_suites := f\<lparr>sf_cases := sf_cases f @ cs\<rparr> # fs\<rparr>)"

definition close_suite :: "stream_state \<Rightarrow> stream_state" where
  "close_suite s =
     (case ss_suites s of
        [] \<Rightarrow> s
      | f # fs \<Rightarrow> add_cases (map (with_suite_output f) (sf_cases f)) (s\<lparr>ss_suites := fs\<rparr>))"

definition stream_event :: "string \<Rightarrow> xml_event \<Rightarrow> stream_state \<Rightarrow> junit_error + stream_state" where
  "stream_event origin ev s =
     (case ev of
        Start t attrs \<Rightarrow>
          (let tag = tag_of t in
           if tag = ''testsuite''
           then Inr (s\<lparr>ss_suites :=
                  \<lparr>sf_name = strip (or_empty (map_of attrs ''name'')),
                   sf_file = clean (map_of attrs ''file''),
                   sf_stdout = None, sf_stderr = None, sf_cases = []\<rparr> # ss_suites s\<rparr>)
           else if tag = ''testcase'' then Inr (s\<lparr>ss_case_depth := ss_case_depth s + 1\<rparr>)
           else Inr s)
      | End e \<Rightarrow>
          (let tag = tag_of (el_tag e) in
           if tag = ''testcase''
           then (case build_case e (ss_suites s) origin of
                   Inl x \<Rightarrow> Inl x
                 | Inr c \<Rightarrow> Inr (add_cases [c] (s\<lparr>ss_case_depth := ss_case_depth s - 1\<rparr>)))
           else if tag = ''testsuite'' then Inr (close_suite s)
           else if tag \<in> {''system-out'', ''system-err''} \<and> ss_suites s \<noteq> [] \<and> ss_case_depth s = 0
           then Inr (s\<lparr>ss_suites := attach_suite_output (hd (ss_suites s)) tag e # tl (ss_suites s)\<rparr>)
           else Inr s))"

fun stream_events :: "string \<Rightarrow> xml_event list \<Rightarrow> stream_state \<Rightarrow> junit_error + stream_state" where
  "stream_events origin [] s = Inr s"
| "stream_events origin (ev # evs) s =
     (case stream_event origin ev s of Inl x \<Rightarrow> Inl x | Inr s' \<Rightarrow> stream_events origin evs s')"

text \<open>\<open>while suites: emit(suites.pop())\<close>: as many rounds as there are open suites.\<close>

definition drain :: "stream_state \<Rightarrow> stream_state" where
  "drain s = (close_suite ^^ length (ss_suites s)) s"

record junit_parse_result =
  jr_cases :: "test_case_result list"
  jr_warnings :: "parse_warning list"
  jr_files_parsed :: nat
  jr_files_rejected :: nat

definition junit_ok :: "junit_parse_result \<Rightarrow> bool" where
  "junit_ok r \<longleftrightarrow> jr_files_rejected r = 0 \<and> jr_warnings r = []"

definition parse_stream ::
  "xml_event list \<Rightarrow> string option \<Rightarrow> string \<Rightarrow> junit_error + junit_parse_result" where
  "parse_stream events parse_error origin =
     (case stream_events origin events \<lparr>ss_cases = [], ss_suites = [], ss_case_depth = 0\<rparr> of
        Inl x \<Rightarrow> Inl x
      | Inr s \<Rightarrow>
          let cases = ss_cases (drain s) in
          Inr \<lparr>jr_cases = cases,
               jr_warnings =
                 (case parse_error of
                    Some message \<Rightarrow>
                      [\<lparr>pw_origin = origin, pw_reason = ''malformed_xml'', pw_detail = Some message\<rparr>]
                  | None \<Rightarrow>
                      if cases = []
                      then [\<lparr>pw_origin = origin, pw_reason = ''no_testcases'', pw_detail = None\<rparr>]
                      else []),
               jr_files_parsed = 1, jr_files_rejected = 0\<rparr>)"

section \<open>Screening the bytes\<close>

definition HEAD_SCAN_BYTES :: nat where
  "HEAD_SCAN_BYTES = 8192"

definition is_byte_space :: "char \<Rightarrow> bool" where
  "is_byte_space c \<longleftrightarrow> code c = 32 \<or> (9 \<le> code c \<and> code c \<le> 13)"

definition upper_byte :: "char \<Rightarrow> char" where
  "upper_byte c = (if 97 \<le> code c \<and> code c \<le> 122 then char_of (code c - 32) else c)"

definition reject_unsafe_or_empty :: "string \<Rightarrow> string \<Rightarrow> parse_warning option" where
  "reject_unsafe_or_empty data origin =
     (let head = take HEAD_SCAN_BYTES data in
      if list_all is_byte_space head
      then Some \<lparr>pw_origin = origin, pw_reason = ''empty_file'', pw_detail = None\<rparr>
      else if contains (map upper_byte head) ''<!DOCTYPE''
      then Some \<lparr>pw_origin = origin, pw_reason = ''doctype_rejected'',
                 pw_detail = Some ''DOCTYPE declarations are refused; see ingest.junit''\<rparr>
      else if CHR ''<'' \<notin> set head
      then Some \<lparr>pw_origin = origin, pw_reason = ''not_xml'', pw_detail = None\<rparr>
      else None)"

definition rejected :: "parse_warning \<Rightarrow> junit_parse_result" where
  "rejected w = \<lparr>jr_cases = [], jr_warnings = [w], jr_files_parsed = 0, jr_files_rejected = 1\<rparr>"

definition parse_bytes ::
  "(string \<Rightarrow> xml_event list \<times> string option) \<Rightarrow> string \<Rightarrow> string \<Rightarrow> junit_error + junit_parse_result" where
  "parse_bytes iterparse data origin =
     (case reject_unsafe_or_empty data origin of
        Some w \<Rightarrow> Inr (rejected w)
      | None \<Rightarrow> (let (events, parse_error) = iterparse data in parse_stream events parse_error origin))"

text \<open>The contents of the file, or the message of the \<open>OSError\<close> that reading it raised.\<close>

definition parse_file ::
  "(string \<Rightarrow> xml_event list \<times> string option) \<Rightarrow> string \<times> (string + string) \<Rightarrow>
   junit_error + junit_parse_result" where
  "parse_file iterparse file =
     (case snd file of
        Inl message \<Rightarrow> Inr (rejected
          \<lparr>pw_origin = fst file, pw_reason = ''unreadable_file'', pw_detail = Some message\<rparr>)
      | Inr data \<Rightarrow> parse_bytes iterparse data (fst file))"

fun parse_files ::
  "(string \<Rightarrow> xml_event list \<times> string option) \<Rightarrow> (string \<times> (string + string)) list \<Rightarrow>
   junit_parse_result \<Rightarrow> junit_error + junit_parse_result" where
  "parse_files iterparse [] acc = Inr acc"
| "parse_files iterparse (p # ps) acc =
     (case parse_file iterparse p of
        Inl x \<Rightarrow> Inl x
      | Inr r \<Rightarrow> parse_files iterparse ps
          \<lparr>jr_cases = jr_cases acc @ jr_cases r, jr_warnings = jr_warnings acc @ jr_warnings r,
           jr_files_parsed = jr_files_parsed acc + jr_files_parsed r,
           jr_files_rejected = jr_files_rejected acc + jr_files_rejected r\<rparr>)"

section \<open>No case is lost\<close>

definition is_testcase :: "xml_event \<Rightarrow> bool" where
  "is_testcase ev \<longleftrightarrow> (case ev of End e \<Rightarrow> tag_of (el_tag e) = ''testcase'' | _ \<Rightarrow> False)"

definition testcases :: "xml_event list \<Rightarrow> element list" where
  "testcases events = List.map_filter (\<lambda>ev. case ev of End e \<Rightarrow> if is_testcase ev then Some e else None | _ \<Rightarrow> None) events"

definition infinite_time :: "element \<Rightarrow> bool" where
  "infinite_time e \<longleftrightarrow> duration_ms (el_get e ''time'') = Inl OverflowError"

text \<open>A case without what it may take from its enclosing suites.\<close>

definition own :: "test_case_result \<Rightarrow> test_case_result" where
  "own c = c\<lparr>tc_suite_path := [], tc_file_path := None, tc_stdout := None, tc_stderr := None\<rparr>"

definition own_case :: "string \<Rightarrow> element \<Rightarrow> test_case_result" where
  "own_case origin e =
     own (case_record e [] origin (case duration_ms (el_get e ''time'') of Inr d \<Rightarrow> d | Inl _ \<Rightarrow> None))"

definition pending :: "stream_state \<Rightarrow> test_case_result list" where
  "pending s = ss_cases s @ concat (map sf_cases (rev (ss_suites s)))"

lemma pending_add: "pending (add_cases cs s) = pending s @ cs"
  by (cases "ss_suites s") (simp_all add: add_cases_def pending_def)

lemma pending_depth [simp]: "pending (s\<lparr>ss_case_depth := n\<rparr>) = pending s"
  by (simp add: pending_def)

lemma own_with_output: "own (with_suite_output f c) = own c"
  by (simp add: own_def with_suite_output_def)

lemma pending_close: "map own (pending (close_suite s)) = map own (pending s)"
proof (cases "ss_suites s")
  case (Cons f fs)
  then have "pending (close_suite s) = pending (s\<lparr>ss_suites := fs\<rparr>) @ map (with_suite_output f) (sf_cases f)"
    by (simp add: close_suite_def pending_add)
  then show ?thesis
    using Cons by (simp add: pending_def own_with_output)
qed (simp add: close_suite_def)

lemma length_close: "length (ss_suites (close_suite s)) = length (ss_suites s) - 1"
  by (cases "ss_suites s"; cases "tl (ss_suites s)") (simp_all add: close_suite_def add_cases_def)

lemma drain_suites:
  "length (ss_suites ((close_suite ^^ n) s)) = length (ss_suites s) - n \<and>
   map own (pending ((close_suite ^^ n) s)) = map own (pending s)"
  by (induction n) (simp_all add: length_close pending_close)

lemma drain_pending: "map own (ss_cases (drain s)) = map own (pending s)"
proof -
  have "pending (drain s) = ss_cases (drain s)"
    using drain_suites [of "length (ss_suites s)" s] by (simp add: drain_def pending_def)
  then show ?thesis
    using drain_suites [of "length (ss_suites s)" s] by (simp add: drain_def)
qed

lemma duration_error: "duration_ms v = Inl x \<Longrightarrow> x = OverflowError"
  by (cases x) simp

lemma stream_event_step:
  "stream_event origin ev s =
     (if list_ex infinite_time (testcases [ev]) then Inl OverflowError else stream_event origin ev s) \<and>
   (stream_event origin ev s = Inr s' \<longrightarrow>
     map own (pending s') = map own (pending s) @ map (own_case origin) (testcases [ev]) \<and>
     \<not> list_ex infinite_time (testcases [ev])) \<and>
   (\<not> list_ex infinite_time (testcases [ev]) \<longrightarrow> (\<exists>s'. stream_event origin ev s = Inr s'))"
proof (cases ev)
  case (Start t attrs)
  then show ?thesis
    by (auto simp: stream_event_def testcases_def List.map_filter_def pending_def Let_def)
next
  case (End e)
  show ?thesis
  proof (cases "tag_of (el_tag e) = ''testcase''")
    case True
    then have "testcases [ev] = [e]"
      using End by (simp add: testcases_def List.map_filter_def is_testcase_def)
    moreover have "own (case_record e fs origin d) = own (case_record e [] origin d)" for fs d
      by (simp add: own_def case_record_def Let_def)
    ultimately show ?thesis
      using True End duration_error [of "el_get e ''time''"]
      by (cases "duration_ms (el_get e ''time'')")
        (auto simp: stream_event_def build_case_def infinite_time_def pending_add own_case_def Let_def)
  next
    case False
    then have none: "testcases [ev] = []"
      using End by (simp add: testcases_def List.map_filter_def is_testcase_def)
    have "pending (s\<lparr>ss_suites := attach_suite_output (hd (ss_suites s)) tag e # tl (ss_suites s)\<rparr>) =
        pending s" if "ss_suites s \<noteq> []" for tag
      using that by (cases "ss_suites s") (simp_all add: pending_def attach_suite_output_def)
    then show ?thesis
      using False End none by (auto simp: stream_event_def Let_def pending_close)
  qed
qed

lemma testcases_Cons: "testcases (ev # evs) = testcases [ev] @ testcases evs"
  by (auto simp: testcases_def List.map_filter_def)

lemma stream_events_ok:
  "\<not> list_ex infinite_time (testcases events) \<Longrightarrow>
   \<exists>s'. stream_events origin events s = Inr s' \<and>
     map own (pending s') = map own (pending s) @ map (own_case origin) (testcases events)"
proof (induction events arbitrary: s)
  case Nil
  then show ?case by (simp add: testcases_def List.map_filter_def)
next
  case (Cons ev evs)
  then obtain s1 where "stream_event origin ev s = Inr s1"
    using stream_event_step [of origin ev s] testcases_Cons [of ev evs] by auto
  moreover from this have "map own (pending s1) = map own (pending s) @ map (own_case origin) (testcases [ev])"
    using stream_event_step [of origin ev s s1] by simp
  ultimately show ?case
    using Cons.IH [of s1] Cons.prems testcases_Cons [of ev evs] by auto
qed

lemma stream_events_error:
  "list_ex infinite_time (testcases events) \<Longrightarrow> stream_events origin events s = Inl OverflowError"
proof (induction events arbitrary: s)
  case (Cons ev evs)
  show ?case
  proof (cases "list_ex infinite_time (testcases [ev])")
    case True
    then show ?thesis using stream_event_step [of origin ev s] by simp
  next
    case False
    then obtain s1 where "stream_event origin ev s = Inr s1"
      using stream_event_step [of origin ev s] by auto
    then show ?thesis using Cons False testcases_Cons [of ev evs] by simp
  qed
qed (simp add: testcases_def List.map_filter_def)


section \<open>The outcome of a case\<close>

definition is_failure_child :: "element \<Rightarrow> bool" where
  "is_failure_child c \<longleftrightarrow> FAILURE_TAGS (tag_of (el_tag c)) \<noteq> None"

lemma failure_tag_not_pass: "FAILURE_TAGS t = Some r \<Longrightarrow> r \<noteq> PASS"
  by (auto split: if_splits)

lemma case_child_fold:
  "ca_outcome (fold case_child cs a) =
     (if ca_outcome a \<noteq> PASS then ca_outcome a
      else case List.find is_failure_child cs of
             None \<Rightarrow> PASS | Some c \<Rightarrow> the (FAILURE_TAGS (tag_of (el_tag c)))) \<and>
   ca_rerun (fold case_child cs a) = (ca_rerun a \<or> list_ex (\<lambda>c. tag_of (el_tag c) \<in> set RERUN_TAGS) cs)"
proof (induction cs arbitrary: a)
  case (Cons c cs)
  have fail: "is_failure_child c \<Longrightarrow> the (FAILURE_TAGS (tag_of (el_tag c))) \<noteq> PASS"
    using failure_tag_not_pass by (auto simp: is_failure_child_def)
  have disjoint: "is_failure_child c \<Longrightarrow> tag_of (el_tag c) \<notin> set RERUN_TAGS"
    by (auto simp: is_failure_child_def RERUN_TAGS_def split: if_splits)
  show ?case
    using Cons.IH [of "case_child c a"] fail disjoint
    by (auto simp: case_child_def Let_def take_failure_def is_failure_child_def simp del: FAILURE_TAGS.simps)
qed simp

text \<open>
  What a test case reports: its outcome is that of the first failure, error or skip among its
  children in document order and a pass when it has none, and a rerun is observed exactly when some
  child records one.
\<close>

theorem case_outcome_is_first_failure:
  "tc_outcome (case_record e suites origin duration) =
     (case List.find is_failure_child (el_children e) of
        None \<Rightarrow> PASS | Some c \<Rightarrow> the (FAILURE_TAGS (tag_of (el_tag c)))) \<and>
   tc_rerun_observed (case_record e suites origin duration) =
     list_ex (\<lambda>c. tag_of (el_tag c) \<in> set RERUN_TAGS) (el_children e)"
  using case_child_fold [of "el_children e" empty_acc]
  by (simp add: case_record_def Let_def empty_acc_def)

section \<open>The screen looks at the head only\<close>

text \<open>
  A document type declaration is refused only near the start: the screen depends on the first
  8192 bytes alone, so a declaration after that much leading text is passed on to the XML parser.
\<close>

theorem doctype_screen_sees_the_head_only:
  "reject_unsafe_or_empty (take HEAD_SCAN_BYTES data) origin = reject_unsafe_or_empty data origin \<and>
   reject_unsafe_or_empty (''<!--'' @ replicate 8192 CHR ''x'' @ ''--><!DOCTYPE x>'') origin = None"
proof
  let ?p = "''<!--'' @ replicate 8188 CHR ''x''"
  have head: "take HEAD_SCAN_BYTES (''<!--'' @ replicate 8192 CHR ''x'' @ ''--><!DOCTYPE x>'') = ?p"
    by (simp add: HEAD_SCAN_BYTES_def numeral_eq_Suc del: replicate_Suc)
  have "upper_byte (CHR ''x'') = CHR ''X''" by code_simp
  then have up: "map upper_byte ?p = ''<!--'' @ replicate 8188 CHR ''X''"
    by (simp add: upper_byte_def)
  have "CHR ''D'' \<notin> set (''<!--'' @ replicate 8188 CHR ''X'')"
    by simp
  then have "\<not> contains (map upper_byte ?p) ''<!DOCTYPE''"
    unfolding up contains_def by (auto dest!: set_mono_sublist)
  then show "reject_unsafe_or_empty (''<!--'' @ replicate 8192 CHR ''x'' @ ''--><!DOCTYPE x>'') origin = None"
    unfolding reject_unsafe_or_empty_def head Let_def by (simp add: is_byte_space_def)
qed (simp add: reject_unsafe_or_empty_def)

end
