(* ===== verification/Diff.thy ===== *)
theory Diff
  imports Models
begin

text \<open>
  The unified-diff parser (\<open>ingest/diff.py\<close>): the line-by-line state machine, the hunk cursor, and the
  merging of line ranges. Reading the patch file and running git are I/O: what they gave is an
  argument of \<open>parse_diff_file\<close> and \<open>diff_from_git\<close>. A line has no line feed in it, so the dots and the
  final \<open>$\<close> of the header patterns need no special case; digits are ASCII.
\<close>

section \<open>Line ranges\<close>

text \<open>Both range loops update the end of the list they build; here it grows at its head.\<close>

fun range_step :: "line_range list \<Rightarrow> int \<Rightarrow> line_range list" where
  "range_step (r # rs) line =
     (if line = lr_end r + 1 then \<lparr>lr_start = lr_start r, lr_end = line\<rparr> # rs
      else \<lparr>lr_start = line, lr_end = line\<rparr> # r # rs)"
| "range_step [] line = [\<lparr>lr_start = line, lr_end = line\<rparr>]"

definition ranges_from_lines :: "int list \<Rightarrow> line_range list" where
  "ranges_from_lines ls = rev (foldl range_step [] (sort ls))"

fun merge_step :: "line_range list \<Rightarrow> line_range \<Rightarrow> line_range list" where
  "merge_step (m # ms) r =
     (if lr_start r \<le> lr_end m + 1
      then \<lparr>lr_start = lr_start m, lr_end = max (lr_end m) (lr_end r)\<rparr> # ms
      else r # m # ms)"
| "merge_step [] r = [r]"

definition merge_ranges :: "line_range list \<Rightarrow> line_range list" where
  "merge_ranges rs = rev (foldl merge_step [] (sort_key (\<lambda>r. (lr_start r, lr_end r)) rs))"

section \<open>Files and hunks\<close>

definition strip_prefix :: "string \<Rightarrow> string" where
  "strip_prefix path =
     (let cleaned = strip_by (\<lambda>c. c = CHR 0x22) (strip path) in
      case List.find (\<lambda>p. startswith cleaned p) [''a/'', ''b/'', ''./''] of
        Some p \<Rightarrow> drop (length p) cleaned
      | None \<Rightarrow> cleaned)"

record file_acc =
  fa_path :: "string option"
  fa_old_path :: "string option"
  fa_change_type :: change_type
  fa_binary :: bool
  fa_new_ranges :: "line_range list"
  fa_old_ranges :: "line_range list"

definition new_acc :: file_acc where
  "new_acc = \<lparr>fa_path = None, fa_old_path = None, fa_change_type = MODIFIED, fa_binary = False,
     fa_new_ranges = [], fa_old_ranges = []\<rparr>"

definition acc_finish :: "file_acc \<Rightarrow> file_change option" where
  "acc_finish a =
     (case fa_path a of
        None \<Rightarrow> None
      | Some p \<Rightarrow> Some
          \<lparr>fc_path = p, fc_change_type = fa_change_type a,
           fc_old_path = (if fa_old_path a \<noteq> Some p then fa_old_path a else None),
           fc_binary = fa_binary a, fc_new_ranges = merge_ranges (fa_new_ranges a),
           fc_old_ranges = merge_ranges (fa_old_ranges a)\<rparr>)"

record hunk_state =
  hk_old_cursor :: int
  hk_new_cursor :: int
  hk_old_count :: nat
  hk_new_count :: nat
  hk_added :: "int list"
  hk_removed :: "int list"
  hk_seen_body :: bool

definition new_hunk :: "nat \<Rightarrow> nat \<Rightarrow> nat \<Rightarrow> nat \<Rightarrow> hunk_state" where
  "new_hunk old_start old_count new_start new_count =
     \<lparr>hk_old_cursor = max (int old_start) 1, hk_new_cursor = max (int new_start) 1,
      hk_old_count = old_count, hk_new_count = new_count,
      hk_added = [], hk_removed = [], hk_seen_body = False\<rparr>"

definition hunk_consume :: "hunk_state \<Rightarrow> string \<Rightarrow> hunk_state" where
  "hunk_consume h line =
     (if startswith line ''+'' \<and> \<not> startswith line ''+++''
      then h\<lparr>hk_seen_body := True, hk_added := hk_added h @ [hk_new_cursor h],
             hk_new_cursor := hk_new_cursor h + 1\<rparr>
      else if startswith line ''-'' \<and> \<not> startswith line ''---''
      then h\<lparr>hk_seen_body := True, hk_removed := hk_removed h @ [hk_old_cursor h],
             hk_old_cursor := hk_old_cursor h + 1\<rparr>
      else if startswith line '' '' \<or> startswith line [CHR 9] \<or> line = []
      then h\<lparr>hk_new_cursor := hk_new_cursor h + 1, hk_old_cursor := hk_old_cursor h + 1\<rparr>
      else h)"

definition counted_range :: "int \<Rightarrow> nat \<Rightarrow> line_range list" where
  "counted_range start n =
     (if 0 < n then [\<lparr>lr_start = start, lr_end = start + int n - 1\<rparr>] else [])"

definition hunk_commit :: "hunk_state \<Rightarrow> file_acc \<Rightarrow> file_acc" where
  "hunk_commit h target =
     (if hk_seen_body h
      then target\<lparr>fa_new_ranges := fa_new_ranges target @ ranges_from_lines (hk_added h),
                  fa_old_ranges := fa_old_ranges target @ ranges_from_lines (hk_removed h)\<rparr>
      else target\<lparr>fa_new_ranges := fa_new_ranges target @ counted_range (hk_new_cursor h) (hk_new_count h),
                  fa_old_ranges := fa_old_ranges target @ counted_range (hk_old_cursor h) (hk_old_count h)\<rparr>)"

section \<open>The header patterns\<close>

text \<open>
  \<open>(?P<old>.+?) (?:b/)?(?P<new>.+)$\<close> after the optional \<open>a/\<close>: the shortest nonempty old path that is
  followed by a blank and a nonempty new path.
\<close>

definition new_side :: "string \<Rightarrow> string option" where
  "new_side s =
     (if startswith s ''b/'' \<and> 2 < length s then Some (drop 2 s)
      else if s \<noteq> [] then Some s else None)"

fun split_sides :: "string \<Rightarrow> string \<Rightarrow> (string \<times> string) option" where
  "split_sides old [] = None"
| "split_sides old (c # s) =
     (if old \<noteq> [] \<and> c = CHR '' '' \<and> new_side s \<noteq> None then Some (rev old, the (new_side s))
      else split_sides (c # old) s)"

definition diff_header :: "string \<Rightarrow> (string \<times> string) option" where
  "diff_header line =
     (let s = drop 11 line in
      if startswith s ''a/''
      then (case split_sides [] (drop 2 s) of Some r \<Rightarrow> Some r | None \<Rightarrow> split_sides [] s)
      else split_sides [] s)"

definition count_or_default :: "string \<Rightarrow> (nat \<times> string)" where
  "count_or_default s =
     (case s of
        c # r \<Rightarrow> if c = CHR '','' \<and> takeWhile is_digit r \<noteq> []
                 then (read_nat (takeWhile is_digit r), dropWhile is_digit r) else (1, s)
      | [] \<Rightarrow> (1, s))"

definition hunk_side :: "string \<Rightarrow> string \<Rightarrow> (nat \<times> nat \<times> string) option" where
  "hunk_side mark s =
     (let s' = drop (length mark) s; ds = takeWhile is_digit s' in
      if startswith s mark \<and> ds \<noteq> []
      then (let (n, r) = count_or_default (dropWhile is_digit s') in Some (read_nat ds, n, r))
      else None)"

definition hunk_header :: "string \<Rightarrow> hunk_state option" where
  "hunk_header line =
     (case hunk_side ''@@ -'' line of
        None \<Rightarrow> None
      | Some (old_start, old_count, r) \<Rightarrow>
          (case hunk_side '' +'' r of
             None \<Rightarrow> None
           | Some (new_start, new_count, r') \<Rightarrow>
               if startswith r' '' @@'' then Some (new_hunk old_start old_count new_start new_count)
               else None))"

text \<open>\<open>^prefix (?P<path>.+)$\<close>.\<close>

definition after_keyword :: "string \<Rightarrow> string \<Rightarrow> string option" where
  "after_keyword kw line =
     (if startswith line kw \<and> length kw < length line then Some (drop (length kw) line) else None)"

section \<open>The parser\<close>

record diff_state =
  st_changes :: "file_change list"
  st_warnings :: "parse_warning list"
  st_current :: file_acc
  st_hunk :: "hunk_state option"

record diff_parse_result = diff_summary +
  dp_warnings :: "parse_warning list"

definition diff_flush :: "diff_state \<Rightarrow> diff_state" where
  "diff_flush s =
     (let current = (case st_hunk s of None \<Rightarrow> st_current s | Some h \<Rightarrow> hunk_commit h (st_current s))
      in s\<lparr>st_changes := st_changes s @ (case acc_finish current of None \<Rightarrow> [] | Some c \<Rightarrow> [c]),
           st_current := new_acc, st_hunk := None\<rparr>)"

definition DEV_NULL :: string where
  "DEV_NULL = ''/dev/null''"

text \<open>The metadata lines of a file, which change only the accumulator: \<open>None\<close> for another line.\<close>

definition meta_line :: "string \<Rightarrow> file_acc \<Rightarrow> file_acc option" where
  "meta_line line a =
     (if startswith line ''new file mode'' then Some (a\<lparr>fa_change_type := ADDED\<rparr>)
      else if startswith line ''deleted file mode'' then Some (a\<lparr>fa_change_type := DELETED\<rparr>)
      else if startswith line ''Binary files'' \<or> startswith line ''GIT binary patch''
      then Some (a\<lparr>fa_binary := True\<rparr>)
      else
        case after_keyword ''rename from '' line of
          Some p \<Rightarrow> Some (a\<lparr>fa_change_type := RENAMED, fa_old_path := Some (strip_prefix p)\<rparr>)
        | None \<Rightarrow>
        case after_keyword ''rename to '' line of
          Some p \<Rightarrow> Some (a\<lparr>fa_change_type := RENAMED, fa_path := Some (strip_prefix p)\<rparr>)
        | None \<Rightarrow>
        if startswith line ''--- ''
        then Some (case after_keyword ''--- '' line of
            None \<Rightarrow> a
          | Some p \<Rightarrow>
              let path = strip p in
              if path = DEV_NULL then a\<lparr>fa_change_type := ADDED\<rparr>
              else if fa_old_path a = None then a\<lparr>fa_old_path := Some (strip_prefix path)\<rparr> else a)
        else if startswith line ''+++ ''
        then Some (case after_keyword ''+++ '' line of
            None \<Rightarrow> a
          | Some p \<Rightarrow>
              let path = strip p in
              if path = DEV_NULL
              then (let a' = a\<lparr>fa_change_type := DELETED\<rparr>
                    in if fa_path a = None then a'\<lparr>fa_path := fa_old_path a\<rparr> else a')
              else if fa_path a = None then a\<lparr>fa_path := Some (strip_prefix path)\<rparr> else a)
        else None)"

definition diff_line :: "string \<Rightarrow> string \<Rightarrow> diff_state \<Rightarrow> diff_state" where
  "diff_line origin raw_line s =
     (let line = rstrip_by (\<lambda>c. c = CHR 0x0D) raw_line in
      if startswith line ''diff --git ''
      then (let s' = diff_flush s in
            case diff_header line of
              None \<Rightarrow> s'\<lparr>st_warnings := st_warnings s' @
                [\<lparr>pw_origin = origin, pw_reason = ''bad_diff_header'', pw_detail = Some (take 200 line)\<rparr>]\<rparr>
            | Some (old, new) \<Rightarrow>
                s'\<lparr>st_current := (st_current s')\<lparr>fa_old_path := Some (strip_prefix old),
                                                 fa_path := Some (strip_prefix new)\<rparr>\<rparr>)
      else
        case meta_line line (st_current s) of
          Some a \<Rightarrow> s\<lparr>st_current := a\<rparr>
        | None \<Rightarrow>
            (case hunk_header line of
               Some h \<Rightarrow>
                 s\<lparr>st_current := (case st_hunk s of None \<Rightarrow> st_current s
                                   | Some h' \<Rightarrow> hunk_commit h' (st_current s)),
                   st_hunk := Some h\<rparr>
             | None \<Rightarrow> s\<lparr>st_hunk := map_option (\<lambda>h. hunk_consume h line) (st_hunk s)\<rparr>))"

definition parse_unified_diff :: "string \<Rightarrow> string \<Rightarrow> diff_parse_result" where
  "parse_unified_diff origin t =
     (let s = diff_flush (fold (diff_line origin) (splitlines t)
                \<lparr>st_changes = [], st_warnings = [], st_current = new_acc, st_hunk = None\<rparr>)
      in \<lparr>ds_files = st_changes s,
          dp_warnings =
            (if st_changes s = [] \<and> strip t \<noteq> [] \<and> st_warnings s = []
             then [\<lparr>pw_origin = origin, pw_reason = ''no_file_changes_found'', pw_detail = None\<rparr>]
             else st_warnings s)\<rparr>)"

text \<open>The text of the file, or the message of the \<open>OSError\<close> that reading it raised.\<close>

definition parse_diff_file :: "string \<Rightarrow> string + string \<Rightarrow> diff_parse_result" where
  "parse_diff_file path contents =
     (case contents of
        Inl message \<Rightarrow> \<lparr>ds_files = [], dp_warnings =
          [\<lparr>pw_origin = path, pw_reason = ''unreadable_file'', pw_detail = Some message\<rparr>]\<rparr>
      | Inr t \<Rightarrow> parse_unified_diff path t)"

text \<open>What \<open>subprocess.run\<close> gave: an exception, or the return code with both outputs.\<close>

datatype git_outcome = GitUnavailable string | GitCompleted int string string

definition diff_from_git :: "(string \<Rightarrow> string \<Rightarrow> git_outcome) \<Rightarrow> string \<Rightarrow> string \<Rightarrow> diff_parse_result" where
  "diff_from_git run base head =
     (case run base head of
        GitUnavailable message \<Rightarrow> \<lparr>ds_files = [], dp_warnings =
          [\<lparr>pw_origin = ''git'', pw_reason = ''git_unavailable'', pw_detail = Some message\<rparr>]\<rparr>
      | GitCompleted returncode out err \<Rightarrow>
          if returncode \<noteq> 0
          then \<lparr>ds_files = [], dp_warnings =
            [\<lparr>pw_origin = ''git'', pw_reason = ''git_diff_failed'',
              pw_detail = Some (take 500 (strip err))\<rparr>]\<rparr>
          else parse_unified_diff (''git:'' @ base @ ''..'' @ head) out)"

section \<open>Ranges are canonical\<close>

definition lines_of :: "line_range list \<Rightarrow> int set" where
  "lines_of rs = (\<Union>r\<in>set rs. {lr_start r..lr_end r})"

text \<open>Valid ranges in increasing order with a gap between any two.\<close>

definition canonical :: "line_range list \<Rightarrow> bool" where
  "canonical rs \<longleftrightarrow> list_all valid_line_range rs \<and> sorted_wrt (\<lambda>a b. lr_end a + 1 < lr_start b) rs"

lemma lines_of_simps [simp]:
  "lines_of [] = {}" "lines_of (r # rs) = {lr_start r..lr_end r} \<union> lines_of rs"
  "lines_of (rs @ qs) = lines_of rs \<union> lines_of qs" "lines_of (rev rs) = lines_of rs"
  by (auto simp: lines_of_def)

lemma canonical_rev:
  "canonical (rev rs) \<longleftrightarrow> list_all valid_line_range rs \<and> sorted_wrt (\<lambda>b a. lr_end a + 1 < lr_start b) rs"
  by (simp add: canonical_def sorted_wrt_rev)

lemma merge_step_ok:
  assumes "canonical (rev acc)" and "valid_line_range r" and "acc = [] \<or> lr_start (hd acc) \<le> lr_start r"
  shows "canonical (rev (merge_step acc r)) \<and> lines_of (merge_step acc r) = lines_of acc \<union> {lr_start r..lr_end r} \<and>
    merge_step acc r \<noteq> [] \<and> lr_start (hd (merge_step acc r)) \<le> lr_start r"
proof (cases acc)
  case Nil
  with assms(2) show ?thesis by (simp add: canonical_def)
next
  case (Cons m ms)
  have m: "valid_line_range m" "lr_start m \<le> lr_start r" "list_all valid_line_range ms"
    "\<forall>a\<in>set ms. lr_end a + 1 < lr_start m" "sorted_wrt (\<lambda>b a. lr_end a + 1 < lr_start b) ms"
    using assms(1) [unfolded Cons canonical_rev] assms(3) Cons by auto
  show ?thesis
  proof (cases "lr_start r \<le> lr_end m + 1")
    case True
    then have "{lr_start m..max (lr_end m) (lr_end r)} = {lr_start m..lr_end m} \<union> {lr_start r..lr_end r}"
      using m(1,2) assms(2) by (auto simp: valid_line_range_def)
    with True m assms(2) Cons show ?thesis
      unfolding canonical_rev by (auto simp: valid_line_range_def)
  next
    case False
    with m assms(2) Cons show ?thesis
      unfolding canonical_rev by (fastforce simp: valid_line_range_def)
  qed
qed

lemma merge_fold_ok:
  assumes "canonical (rev acc)" and "list_all valid_line_range rs" and "sorted (map lr_start rs)"
    and "acc = [] \<or> list_all (\<lambda>r. lr_start (hd acc) \<le> lr_start r) rs"
  shows "canonical (rev (foldl merge_step acc rs)) \<and>
    lines_of (foldl merge_step acc rs) = lines_of acc \<union> lines_of rs"
  using assms
proof (induction rs arbitrary: acc)
  case (Cons r rs)
  have "canonical (rev (merge_step acc r)) \<and> lines_of (merge_step acc r) = lines_of acc \<union> {lr_start r..lr_end r} \<and>
    merge_step acc r \<noteq> [] \<and> lr_start (hd (merge_step acc r)) \<le> lr_start r"
    by (rule merge_step_ok) (use Cons.prems in auto)
  moreover from this have "list_all (\<lambda>q. lr_start (hd (merge_step acc r)) \<le> lr_start q) rs"
    using Cons.prems(3) by (fastforce simp: list_all_iff)
  ultimately show ?case
    using Cons.IH [of "merge_step acc r"] Cons.prems by auto
qed simp

lemma merge_ranges_ok:
  assumes "list_all valid_line_range rs"
  shows "canonical (merge_ranges rs) \<and> lines_of (merge_ranges rs) = lines_of rs"
proof -
  let ?s = "sort_key (\<lambda>r. (lr_start r, lr_end r)) rs"
  have "sorted (map fst (map (\<lambda>r. (lr_start r, lr_end r)) ?s))"
    by (rule sorted_map_mono [OF sorted_sort_key]) (auto simp: mono_def mono_on_def less_eq_prod_def)
  then have "sorted (map lr_start ?s)" by (simp add: comp_def)
  moreover have "list_all valid_line_range ?s" using assms by (simp add: list_all_iff)
  ultimately show ?thesis
    using merge_fold_ok [of "[]" ?s] by (simp add: merge_ranges_def canonical_def lines_of_def)
qed

lemma range_step_valid:
  "list_all valid_line_range acc \<Longrightarrow> 1 \<le> line \<Longrightarrow> list_all valid_line_range (range_step acc line)"
  by (cases acc) (auto simp: valid_line_range_def)

lemma range_fold_valid:
  "list_all valid_line_range acc \<Longrightarrow> \<forall>l\<in>set ls. 1 \<le> l \<Longrightarrow>
   list_all valid_line_range (foldl range_step acc ls)"
  by (induction ls arbitrary: acc) (simp_all add: range_step_valid)

lemma ranges_from_lines_valid:
  "\<forall>l\<in>set ls. 1 \<le> l \<Longrightarrow> list_all valid_line_range (ranges_from_lines ls)"
  using range_fold_valid [of "[]" "sort ls"] by (simp add: ranges_from_lines_def list_all_iff)

lemma counted_range_valid: "1 \<le> s \<Longrightarrow> list_all valid_line_range (counted_range s n)"
  by (simp add: counted_range_def valid_line_range_def)

definition hunk_ok :: "hunk_state \<Rightarrow> bool" where
  "hunk_ok h \<longleftrightarrow> 1 \<le> hk_old_cursor h \<and> 1 \<le> hk_new_cursor h \<and>
     (\<forall>l\<in>set (hk_added h) \<union> set (hk_removed h). 1 \<le> l)"

definition acc_ok :: "file_acc \<Rightarrow> bool" where
  "acc_ok a \<longleftrightarrow> list_all valid_line_range (fa_new_ranges a) \<and> list_all valid_line_range (fa_old_ranges a)"

definition change_ok :: "file_change \<Rightarrow> bool" where
  "change_ok c \<longleftrightarrow> canonical (fc_new_ranges c) \<and> canonical (fc_old_ranges c)"

definition diff_state_ok :: "diff_state \<Rightarrow> bool" where
  "diff_state_ok s \<longleftrightarrow> list_all change_ok (st_changes s) \<and> acc_ok (st_current s) \<and>
     pred_option hunk_ok (st_hunk s)"

lemma new_hunk_ok: "hunk_ok (new_hunk os oc ns nc)"
  by (simp add: hunk_ok_def new_hunk_def)

lemma hunk_header_ok: "hunk_header line = Some h \<Longrightarrow> hunk_ok h"
  by (auto simp: hunk_header_def new_hunk_ok split: option.splits if_splits)

lemma hunk_consume_ok: "hunk_ok h \<Longrightarrow> hunk_ok (hunk_consume h line)"
  by (auto simp: hunk_ok_def hunk_consume_def)

lemma hunk_commit_ok: "hunk_ok h \<Longrightarrow> acc_ok a \<Longrightarrow> acc_ok (hunk_commit h a)"
  by (auto simp: hunk_ok_def acc_ok_def hunk_commit_def ranges_from_lines_valid counted_range_valid)

lemma meta_line_ok:
  "meta_line line a = Some a' \<Longrightarrow>
   fa_new_ranges a' = fa_new_ranges a \<and> fa_old_ranges a' = fa_old_ranges a"
  by (auto simp: meta_line_def Let_def split: if_splits option.splits)

lemma acc_ok_meta: "meta_line line a = Some a' \<Longrightarrow> acc_ok a \<Longrightarrow> acc_ok a'"
  by (simp add: acc_ok_def meta_line_ok)

lemma acc_ok_paths [simp]: "acc_ok (a\<lparr>fa_old_path := p, fa_path := q\<rparr>) \<longleftrightarrow> acc_ok a"
  by (simp add: acc_ok_def)

lemma acc_finish_ok: "acc_ok a \<Longrightarrow> acc_finish a = Some c \<Longrightarrow> change_ok c"
  by (auto simp: acc_ok_def acc_finish_def change_ok_def merge_ranges_ok split: option.splits)

lemma diff_flush_ok: "diff_state_ok s \<Longrightarrow> diff_state_ok (diff_flush s)"
  by (cases "st_hunk s")
    (auto simp: diff_state_ok_def diff_flush_def Let_def acc_finish_ok hunk_commit_ok new_acc_def acc_ok_def
      dest!: acc_finish_ok [OF hunk_commit_ok] split: option.splits)

lemma diff_line_ok: "diff_state_ok s \<Longrightarrow> diff_state_ok (diff_line origin raw s)"
  using diff_flush_ok [of s]
  by (auto simp: diff_line_def Let_def diff_state_ok_def option.pred_map comp_def hunk_consume_ok
      acc_ok_meta hunk_header_ok hunk_commit_ok split: option.splits elim!: option.pred_mono_strong)

lemma diff_fold_ok: "diff_state_ok s \<Longrightarrow> diff_state_ok (fold (diff_line origin) ls s)"
  by (induction ls arbitrary: s) (simp_all add: diff_line_ok)


section \<open>The lines a hunk changes\<close>

definition is_added :: "string \<Rightarrow> bool" where
  "is_added l \<longleftrightarrow> startswith l ''+''"

definition is_removed :: "string \<Rightarrow> bool" where
  "is_removed l \<longleftrightarrow> startswith l ''-''"

definition is_context :: "string \<Rightarrow> bool" where
  "is_context l \<longleftrightarrow> startswith l '' '' \<or> startswith l [CHR 9] \<or> l = []"

text \<open>A body line that no rule of the parser mistakes for something else.\<close>

definition plain_line :: "string \<Rightarrow> bool" where
  "plain_line l \<longleftrightarrow> is_context l \<or> is_added l \<and> \<not> startswith l ''+++'' \<or>
     is_removed l \<and> \<not> startswith l ''---''"

text \<open>The numbers, counting from \<open>start\<close>, of the lines of a file that satisfy \<open>P\<close>.\<close>

definition numbered :: "int \<Rightarrow> (string \<Rightarrow> bool) \<Rightarrow> string list \<Rightarrow> int set" where
  "numbered start P ls = {start + int i | i. i < length ls \<and> P (ls ! i)}"

lemma numbered_simps [simp]:
  "numbered start P [] = {}"
  "numbered start P (l # ls) = (if P l then {start} else {}) \<union> numbered (start + 1) P ls"
proof -
  have split: "(\<exists>i. Q i) \<longleftrightarrow> Q 0 \<or> (\<exists>i. Q (Suc i))" for Q :: "nat \<Rightarrow> bool"
    by (metis not0_implies_Suc)
  have "x \<in> numbered start P (l # ls) \<longleftrightarrow> P l \<and> x = start \<or> x \<in> numbered (start + 1) P ls" for x
    unfolding numbered_def mem_Collect_eq by (subst split) (simp add: add.assoc conj_commute)
  then show "numbered start P (l # ls) = (if P l then {start} else {}) \<union> numbered (start + 1) P ls"
    by auto
qed (simp add: numbered_def)

lemma range_step_lines:
  "list_all (\<lambda>r. lr_start r \<le> lr_end r) acc \<Longrightarrow>
   lines_of (range_step acc l) = insert l (lines_of acc) \<and>
   list_all (\<lambda>r. lr_start r \<le> lr_end r) (range_step acc l)"
  by (cases acc) auto

lemma range_fold_lines:
  "list_all (\<lambda>r. lr_start r \<le> lr_end r) acc \<Longrightarrow> lines_of (foldl range_step acc ls) = lines_of acc \<union> set ls"
  by (induction ls arbitrary: acc) (auto simp: range_step_lines)

lemma ranges_from_lines_lines: "lines_of (ranges_from_lines ls) = set ls"
  by (simp add: ranges_from_lines_def range_fold_lines)

lemma line_kinds:
  "\<not> (is_added l \<and> is_removed l)" "\<not> (is_added l \<and> is_context l)" "\<not> (is_removed l \<and> is_context l)"
  by (cases l; auto simp: is_added_def is_removed_def is_context_def startswith_def)+

lemma consume_plain:
  assumes "plain_line l"
  shows "hunk_consume h l =
    h\<lparr>hk_added := hk_added h @ (if is_added l then [hk_new_cursor h] else []),
      hk_removed := hk_removed h @ (if is_removed l then [hk_old_cursor h] else []),
      hk_new_cursor := hk_new_cursor h + (if is_removed l then 0 else 1),
      hk_old_cursor := hk_old_cursor h + (if is_added l then 0 else 1),
      hk_seen_body := hk_seen_body h \<or> \<not> is_context l\<rparr>"
  using assms line_kinds [of l]
  by (auto simp: plain_line_def hunk_consume_def is_added_def is_removed_def is_context_def)

lemma fold_consume:
  assumes "list_all plain_line body"
  shows "(let h' = fold (\<lambda>l h. hunk_consume h l) body h in
     set (hk_added h') = set (hk_added h) \<union> numbered (hk_new_cursor h) is_added (filter (Not \<circ> is_removed) body) \<and>
     set (hk_removed h') = set (hk_removed h) \<union> numbered (hk_old_cursor h) is_removed (filter (Not \<circ> is_added) body) \<and>
     hk_seen_body h' = (hk_seen_body h \<or> list_ex (Not \<circ> is_context) body))"
  using assms
proof (induction body arbitrary: h)
  case (Cons l body)
  then show ?case
    using Cons.IH [of "hunk_consume h l"] line_kinds [of l]
    by (auto simp: Let_def consume_plain)
qed simp



section \<open>Lines taken for headers\<close>

text \<open>
  A deleted line whose text starts with two dashes and a blank, such as an SQL comment, is taken
  for the header of the old file: inside a hunk it is not counted, so it is missing from the old
  ranges and every later old-side number of the hunk is too small.
\<close>

theorem deleted_comment_is_lost:
  "st_hunk (diff_line origin (''--- '' @ rest) s) = st_hunk s \<and>
   map fc_old_ranges (ds_files (parse_unified_diff ''p''
     (''diff --git a/q.sql b/q.sql'' @ [LF] @ ''@@ -4,2 +4,0 @@'' @ [LF] @ ''--- old comment'' @ [LF] @
      ''-DROP TABLE t;'' @ [LF]))) = [[\<lparr>lr_start = 4, lr_end = 4\<rparr>]]"
proof
  have "\<exists>u. rstrip_by (\<lambda>c. c = CHR 0x0D) (''--- '' @ rest) = ''--- '' @ u"
    by (cases "dropWhile (\<lambda>c. c = CHR 0x0D) (rev rest)")
      (auto simp: rstrip_by_def dropWhile_append intro: exI [of _ "rev (dropWhile (\<lambda>c. c = CHR 0x0D) (rev rest))"])
  then obtain u where u: "rstrip_by (\<lambda>c. c = CHR 0x0D) (''--- '' @ rest) = ''--- '' @ u" by blast
  obtain a where "meta_line (''--- '' @ u) (st_current s) = Some a"
    by (simp add: meta_line_def startswith_def after_keyword_def)
  then show "st_hunk (diff_line origin (''--- '' @ rest) s) = st_hunk s"
    unfolding diff_line_def u by (simp add: Let_def startswith_def)
  show "map fc_old_ranges (ds_files (parse_unified_diff ''p''
     (''diff --git a/q.sql b/q.sql'' @ [LF] @ ''@@ -4,2 +4,0 @@'' @ [LF] @ ''--- old comment'' @ [LF] @
      ''-DROP TABLE t;'' @ [LF]))) = [[\<lparr>lr_start = 4, lr_end = 4\<rparr>]]"
    by code_simp
qed

end
