(* ===== verification/Cli.thy ===== *)
theory Cli
  imports Commands Exposition Terminal Pipeline Junit Diff
begin

text \<open>
  The commands of the tool from end to end (\<open>cli.py\<close>): \<open>ingest\<close>, \<open>detect\<close>, \<open>triage\<close>, \<open>report\<close>, the
  output of \<open>policy\<close> and \<open>stats\<close>. Options arrive parsed; what a command prints is a value, what it
  writes is the state it returns, also when it fails halfway. A file is its name with its contents or
  the message of the error that reading it raised.
\<close>

section \<open>Ingest\<close>

definition no_results :: junit_parse_result where
  "no_results = \<lparr>jr_cases = [], jr_warnings = [], jr_files_parsed = 0, jr_files_rejected = 0\<rparr>"

definition ingest_command ::
  "string \<Rightarrow> (string \<Rightarrow> string) \<Rightarrow> (string \<Rightarrow> xml_event list \<times> string option) \<Rightarrow> identity_config \<Rightarrow>
   run_metadata \<Rightarrow> (string \<times> (string + string)) list \<Rightarrow> (string \<times> (string + string)) option \<Rightarrow> db \<Rightarrow>
   (command_failure + ingest_summary) \<times> db" where
  "ingest_command now sha iterparse settings metadata files diff_file d =
     (if files = [] then (Inl (Exit 1), d)
      else
        let diff = map_option (\<lambda>(path, contents). parse_diff_file path contents) diff_file
        in case parse_files iterparse files no_results of
             Inl _ \<Rightarrow> (Inl UncaughtOverflow, d)
           | Inr parsed \<Rightarrow>
               (case ingest now sha metadata (jr_cases parsed, jr_warnings parsed)
                       (map_option diff_summary.truncate diff)
                       (case diff of None \<Rightarrow> [] | Some r \<Rightarrow> dp_warnings r) settings d of
                  Inl e \<Rightarrow> (Inl (UncaughtDb e), d)
                | Inr (summary, d') \<Rightarrow> (Inr summary, d')))"

section \<open>Reports\<close>

datatype emitted =
    Drawn "shown list"
  | Json json
  | Markdown string

definition emit ::
  "nat \<Rightarrow> detection list \<Rightarrow> string \<Rightarrow> bool \<Rightarrow> bool \<Rightarrow> (nat \<times> classification) list \<Rightarrow> command_failure + emitted" where
  "emit max_rows ds output_format llm_enabled to_file results =
     (let fmt = str_lower (strip output_format) in
      if fmt = ''terminal'' then (if to_file then Inl (Exit 1) else Inr (Drawn (render_terminal ds False results)))
      else if fmt = ''json'' then Inr (Json (json_payload ds llm_enabled results))
      else if fmt = ''markdown'' then Inr (Markdown (render_markdown ds max_rows llm_enabled results))
      else Inl (Exit 1))"

definition detect_command ::
  "detect_config \<Rightarrow> moment \<Rightarrow> db option \<Rightarrow> string \<Rightarrow> bool \<Rightarrow> bool \<Rightarrow>
   command_failure + emitted" where
  "detect_command settings now store since json_output show_healthy =
     (case run_detection settings now store since None of
        Inl e \<Rightarrow> Inl e
      | Inr ds \<Rightarrow>
          Inr (if json_output then Json (json_payload ds False [])
               else Drawn (render_terminal ds show_healthy [])))"

definition report_command ::
  "detect_config \<Rightarrow> nat \<Rightarrow> moment \<Rightarrow> db option \<Rightarrow> string \<Rightarrow> string \<Rightarrow> bool \<Rightarrow> command_failure + emitted" where
  "report_command settings max_rows now store output_format since to_file =
     (case run_detection settings now store since None of
        Inl e \<Rightarrow> Inl e
      | Inr ds \<Rightarrow> emit max_rows ds output_format False to_file [])"

section \<open>Triage\<close>

record triage_env =
  te_detect :: detect_config
  te_max_rows :: nat
  te_now :: moment
  te_classifier :: classifier_env

record triage_options =
  to_sha :: "string option"
  to_no_llm :: bool
  to_since :: string
  to_budget_usd :: "pyfloat option"
  to_max_tests :: "nat option"
  to_format :: string
  to_file :: bool

definition build_classifier :: "classifier_env \<Rightarrow> pyfloat option \<Rightarrow> classifier_env" where
  "build_classifier env budget =
     env\<lparr>ce_budget_usd := (case budget of None \<Rightarrow> budget_usd (ce_config env) | Some b \<Rightarrow> b)\<rparr>"

text \<open>
  The state is the metrics tables and the result cache; the run store \<open>d\<close> is only read. The client of
  the environment is \<open>None\<close> when there is no API key.
\<close>

definition triage ::
  "triage_env \<Rightarrow> triage_options \<Rightarrow> db option \<Rightarrow> metrics_db \<times> cache_state \<Rightarrow>
   (command_failure + emitted) \<times> metrics_db \<times> cache_state" where
  "triage env opts store st =
     (case (run_detection (te_detect env) (te_now env) store (to_since opts) (to_sha opts), store) of
        (Inr ds, Some d) \<Rightarrow>
          if to_no_llm opts \<or> ce_client (te_classifier env) = None
          then (emit (te_max_rows env) ds (to_format opts) False (to_file opts) [], st)
          else
            let (m, cache) = st;
                (results, s) = classify_many (build_classifier (te_classifier env) (to_budget_usd opts)) None
                  (to_max_tests opts) (filter needs_classification ds) (new_classifier (Some cache));
                cache' = (case cs_cache s of None \<Rightarrow> cache | Some c \<Rightarrow> c)
            in case record_metrics d (isoformat (te_now env)) None
                      (case to_sha opts of None \<Rightarrow> [] | Some sha \<Rightarrow> sha) (cs_cache_hit_ids s)
                      (as_call_metrics (pt_version (ce_texts (te_classifier env))) s) results m of
                 Inl e \<Rightarrow> (Inl (UncaughtDb e), m, cache')
               | Inr (_, m') \<Rightarrow>
                   (emit (te_max_rows env) ds (to_format opts) True (to_file opts) results, m', cache')
      | (Inl e, _) \<Rightarrow> (Inl e, st)
      | (Inr ds, None) \<Rightarrow> (Inl (Exit 1), st))"

section \<open>The output of policy and stats\<close>

definition recommendation_dict :: "recommendation \<Rightarrow> json" where
  "recommendation_dict r = JObj
     [(''test'', JStr (qr_test r)), (''identity_id'', num (of_nat (qr_identity_id r))),
      (''recommended'', JBool (qr_recommended r)), (''refusal'', JStr (refusal_value (qr_refusal r))),
      (''flake_rate'', num (round_to 4 (qr_flake_rate r))),
      (''observations'', num (of_nat (qr_observations r))), (''cause'', JStr (cause_value (qr_cause r))),
      (''verdict'', JStr (verdict_value (qr_verdict r))), (''owner'', JStr (qr_owner r)),
      (''owner_source'', JStr (owner_source_value (qr_owner_source r))),
      (''ttl_days'', num (of_nat (qr_ttl_days r))), (''expires_at'', JStr (qr_expires_at r)),
      (''clean_runs_required'', num (of_nat (qr_clean_runs_required r))),
      (''merged_uncertain'', JBool (qr_merged_uncertain r))]"

text \<open>The default of \<open>expiring\<close>.\<close>

definition EXPIRING_DAYS :: nat where
  "EXPIRING_DAYS = 3"

definition record_dict :: "moment \<Rightarrow> quarantine_record \<Rightarrow> json option" where
  "record_dict now r =
     map_option (\<lambda>expiring. JObj
       [(''test'', JStr (qc_test r)), (''identity_id'', num (of_nat (q_identity_id (qc_row r)))),
        (''state'', JStr (quarantine_state_value (q_state (qc_row r)))),
        (''cause'', JStr (cause_value (q_cause (qc_row r)))), (''owner'', JStr (q_owner (qc_row r))),
        (''owner_source'', JStr (owner_source_value (q_owner_source (qc_row r)))),
        (''expires_at'', JStr (q_expires_at (qc_row r))), (''expiring'', JBool expiring),
        (''clean_runs_required'', num (of_nat (q_clean_runs_required (qc_row r)))),
        (''flake_rate'', num (round_to 4 (q_flake_rate (qc_row r))))])
       (record_expiring EXPIRING_DAYS now (qc_row r))"

text \<open>The records shown: all open ones, or with \<open>--expiring\<close> those close to their expiry.\<close>

definition shown_records :: "moment \<Rightarrow> bool \<Rightarrow> quarantine_record list \<Rightarrow> quarantine_record list option" where
  "shown_records now expiring records =
     (if \<not> expiring then Some records
      else map_option (\<lambda>bs. map fst (filter snd (zip records bs)))
             (those (map (\<lambda>r. record_expiring EXPIRING_DAYS now (qc_row r)) records)))"

definition policy_payload ::
  "moment \<Rightarrow> bool \<Rightarrow> bool \<Rightarrow> policy_outcome \<Rightarrow> command_failure + json" where
  "policy_payload now expiring applied out =
     (case shown_records now expiring (po_records out) of
        None \<Rightarrow> Inl UncaughtOverflow
      | Some records \<Rightarrow>
          (case those (map (record_dict now) records) of
             None \<Rightarrow> Inl UncaughtOverflow
           | Some dicts \<Rightarrow> Inr (JObj
               [(''recommendations'', JArr (map recommendation_dict (filter qr_recommended (po_recommendations out)))),
                (''refusals'', JArr (map recommendation_dict
                   (filter (\<lambda>r. \<not> qr_recommended r) (po_recommendations out)))),
                (''open_quarantines'', JArr dicts),
                (''expired'', JArr (map (\<lambda>r. JStr (qc_test r)) (po_expired out))),
                (''released'', JArr (map JStr (po_released out))), (''applied'', JBool applied)])))"

text \<open>The refusals listed under the recommendations in the terminal.\<close>

definition notable :: "recommendation list \<Rightarrow> recommendation list" where
  "notable rs = filter (\<lambda>r. \<not> qr_recommended r \<and> qr_refusal r \<notin> {NOT_FLAKY, VERDICT_INELIGIBLE}) rs"

definition stats_command ::
  "moment \<Rightarrow> db option \<Rightarrow> metrics_db \<Rightarrow> string \<Rightarrow> command_failure + json \<times> string" where
  "stats_command now store m since =
     (case cutoff_iso now since of
        Inl InvalidWindowError \<Rightarrow> Inl (Exit 1)
      | Inl Window.OverflowError \<Rightarrow> Inl UncaughtOverflow
      | Inr cutoff \<Rightarrow>
          (case store of
             None \<Rightarrow> Inl (Exit 1)
           | Some d \<Rightarrow>
               let summary = summarize d m (Some cutoff)
               in Inr (metrics_as_dict summary, render_prometheus summary)))"

text \<open>The command line \<open>eval\<close> runs.\<close>

definition evaluation_argv :: "string \<Rightarrow> string \<Rightarrow> string option \<Rightarrow> bool \<Rightarrow> string list" where
  "evaluation_argv python script only no_llm =
     [python, script] @ (case only of Some s \<Rightarrow> if s \<noteq> [] then [''--subset'', s] else [] | None \<Rightarrow> []) @
     (if no_llm then [''--no-llm''] else [])"

section \<open>Ingest fails only on one input\<close>

text \<open>The durations in the readable files are finite.\<close>

definition finite_times :: "(string \<Rightarrow> xml_event list \<times> string option) \<Rightarrow> (string \<times> (string + string)) list \<Rightarrow> bool" where
  "finite_times iterparse files \<longleftrightarrow>
     list_all (\<lambda>(path, contents). case contents of
        Inl message \<Rightarrow> True
      | Inr data \<Rightarrow> \<not> list_ex infinite_time (testcases (fst (iterparse data)))) files"

lemma parse_file_total:
  assumes "finite_times iterparse [file]"
  shows "\<exists>r. parse_file iterparse file = Inr r"
proof (cases "snd file")
  case (Inr data)
  then have "\<not> list_ex infinite_time (testcases (fst (iterparse data)))"
    using assms by (simp add: finite_times_def split: prod.splits)
  then have "\<exists>s. stream_events (fst file) (fst (iterparse data)) s0 = Inr s" for s0
    using stream_events_ok [of "fst (iterparse data)" "fst file" s0] by blast
  then show ?thesis
    using Inr by (auto simp: parse_file_def parse_bytes_def parse_stream_def Let_def split: option.split prod.split)
      (metis fst_conv sum.simps(6))
qed (simp add: parse_file_def)

lemma parse_files_total: "finite_times iterparse files \<Longrightarrow> \<exists>r. parse_files iterparse files acc = Inr r"
proof (induction files arbitrary: acc)
  case (Cons f fs)
  then have "finite_times iterparse [f]" "finite_times iterparse fs"
    by (simp_all add: finite_times_def)
  then show ?case
    using parse_file_total Cons.IH by fastforce
qed simp



section \<open>The model has no say in what is found\<close>

lemma detections_exist:
  "run_detection settings now (Some d) since sha = Inr ds \<Longrightarrow> det \<in> set ds \<Longrightarrow> identity_exists d (d_identity_id det)"
  using detection_exists by (auto simp: run_detection_def split: sum.splits window_error.splits)

lemma triage_recorded:
  assumes "list_all (\<lambda>i. identity_exists d i) (map fst results)"
  shows "\<exists>counts m'. record_metrics d now None sha hits calls results m = Inr (counts, m')"
  using assms
  by (auto simp: record_metrics_def record_calls_def record_classifications_def run_known_def list_all_iff)

text \<open>
  C3. The model has no say in what is found: triage prints the report of exactly the detections
  the detector finds for the same options, whatever the model answers. Without a key or with
  \<open>--no-llm\<close> it does so with no classification and touches neither the metrics nor
  the cache. With a model, each test worth classifying gets exactly one answer that can be
  trusted, no other test gets any, the cache stays trustworthy, and the answers are on record for
  the policy afterwards.
\<close>

theorem triage_reports_the_detector:
  assumes "run_detection (te_detect env) (te_now env) (Some d) (to_since opts) (to_sha opts) = Inr ds"
    and "cache_trusted (confidence_floor (ce_config (te_classifier env))) (new_classifier (Some cache))"
  shows "\<exists>results llm. let (out, m', cache') = triage env opts (Some d) (m, cache) in
    out = emit (te_max_rows env) ds (to_format opts) llm (to_file opts) results \<and>
    (llm \<longleftrightarrow> \<not> to_no_llm opts \<and> ce_client (te_classifier env) \<noteq> None) \<and>
    (if llm
     then fst ` set results = d_identity_id ` set (filter needs_classification ds) \<and>
       distinct (map fst results) \<and>
       list_all (\<lambda>(i, c). trusted (confidence_floor (ce_config (te_classifier env))) c) results \<and>
       cache_trusted (confidence_floor (ce_config (te_classifier env))) (new_classifier (Some cache')) \<and>
       list_all (\<lambda>(i, c). latest_classification m' i = Some c) results
     else results = [] \<and> m' = m \<and> cache' = cache)"
proof (cases "to_no_llm opts \<or> ce_client (te_classifier env) = None")
  case True
  then show ?thesis
    using assms(1) by (intro exI [of _ "[]"] exI [of _ False]) (auto simp: triage_def)
next
  case False
  then obtain client where client: "\<not> to_no_llm opts" "ce_client (te_classifier env) = Some client" by auto
  let ?env = "build_classifier (te_classifier env) (to_budget_usd opts)"
  let ?floor = "confidence_floor (ce_config (te_classifier env))"
  let ?cs = "filter needs_classification ds"
  obtain results s where batch:
    "classify_many ?env None (to_max_tests opts) ?cs (new_classifier (Some cache)) = (results, s)" by fastforce
  have floor: "confidence_floor (ce_config ?env) = ?floor" by (simp add: build_classifier_def)
  have answers: "fst ` set results = d_identity_id ` set ?cs" "distinct (map fst results)"
    "list_all (\<lambda>(i, c). trusted ?floor c) results" "cache_trusted ?floor s"
    using classify_loop_results [OF batch [unfolded classify_many_def]] assms(2) by (simp_all add: floor)
  obtain cache' where cache': "cs_cache s = Some cache'"
    using classify_loop_keeps_cache [OF batch [unfolded classify_many_def]] by (auto simp: new_classifier_def)
  have "list_all (\<lambda>i. identity_exists d i) (map fst results)"
    using answers(1) detections_exist [OF assms(1)] by (fastforce simp: list_all_iff)
  then obtain counts m' where rec: "record_metrics d (isoformat (te_now env)) None
      (case to_sha opts of None \<Rightarrow> [] | Some sha \<Rightarrow> sha) (cs_cache_hit_ids s)
      (as_call_metrics (pt_version (ce_texts (te_classifier env))) s) results m = Inr (counts, m')"
    using triage_recorded by blast
  have "list_all (\<lambda>(i, c). latest_classification m' i = Some c) results"
    using latest_recorded [OF rec answers(2)] answers(2) by (auto simp: list_all_iff)
  then show ?thesis
    using client assms(1) batch cache' rec answers
    by (intro exI [of _ results] exI [of _ True]) (simp add: triage_def cache_trusted_def new_classifier_def)
qed

definition cold_cache :: cache_state where
  "cold_cache = \<lparr>cache_enabled = True, cache_entries = (\<lambda>k. None), cache_writable = (\<lambda>k. True),
     cache_hits = 0, cache_misses = 0, cache_writes = 0\<rparr>"

definition sample_triage :: triage_env where
  "sample_triage = \<lparr>te_detect = default_detect_config, te_max_rows = 10, te_now = 40 * DAY,
     te_classifier = dollar_env 1\<rparr>"

definition sample_options :: triage_options where
  "sample_options = \<lparr>to_sha = None, to_no_llm = False, to_since = ''30d'', to_budget_usd = None,
     to_max_tests = None, to_format = ''json'', to_file = False\<rparr>"

theorem triage_reports_the_detector_witness:
  "\<exists>ds results out m' cache'.
     run_detection default_detect_config (40 * DAY) (Some flaky_db) ''30d'' None = Inr ds \<and>
     triage sample_triage sample_options (Some flaky_db) (vetoed, cold_cache) = (out, m', cache') \<and>
     out = emit 10 ds ''json'' True False results \<and>
     fst ` set results = d_identity_id ` set (filter needs_classification ds)"
proof -
  have "parse_duration ''30d'' = Inr (30 * 86400000000)"
    by (simp add: parse_duration_def strip_def strip_by_def lstrip_by_def rstrip_by_def is_space_def
        is_digit_def read_nat_def unit_length_d DAY_def Let_def)
  then obtain ds where ds: "run_detection default_detect_config (40 * DAY) (Some flaky_db) ''30d'' None = Inr ds"
    by (simp add: run_detection_def cutoff_iso_def DAY_def)
  have sample: "te_detect sample_triage = default_detect_config" "te_max_rows sample_triage = 10"
    "te_now sample_triage = 40 * DAY" "te_classifier sample_triage = dollar_env 1"
    "to_sha sample_options = None" "to_since sample_options = ''30d''" "to_format sample_options = ''json''"
    "\<not> to_no_llm sample_options" "\<not> to_file sample_options" "ce_client (dollar_env 1) \<noteq> None"
    by (simp_all add: sample_triage_def sample_options_def dollar_env_def)
  have "cache_trusted f (new_classifier (Some cold_cache))" for f
    by (simp add: cache_trusted_def new_classifier_def cold_cache_def cache_get_def)
  from triage_reports_the_detector [where env = sample_triage and opts = sample_options and m = vetoed,
      unfolded sample, OF ds this]
  show ?thesis
    using ds sample by (cases "triage sample_triage sample_options (Some flaky_db) (vetoed, cold_cache)")
      (auto simp: Let_def)
qed

text \<open>
  The report format is checked last: what a triage writes, and with it what it pays, is the same
  for every \<open>--format\<close> and \<open>--out\<close>, so a mistyped format is found out after every call has been made.
\<close>

theorem format_is_checked_last:
  "snd (triage env (opts\<lparr>to_format := f, to_file := b\<rparr>) store st) = snd (triage env opts store st) \<and>
   (str_lower (strip f) \<notin> {''terminal'', ''json'', ''markdown''} \<longrightarrow>
      (\<exists>e. fst (triage env (opts\<lparr>to_format := f, to_file := b\<rparr>) store st) = Inl e))"
  by (auto simp: triage_def emit_def Let_def split: sum.split option.split prod.split)

end
