(* ===== verification/Result_Paths.thy ===== *)
theory Result_Paths
  imports Config_Load Cli
begin

text \<open>
  Which result files an ingest reads (\<open>expand_result_paths\<close> of \<open>ingest/pipeline.py\<close>) and the command
  with its \<open>--results\<close> arguments. The file system is a parameter: which paths are directories and
  regular files, and the matches of a glob below a directory or directly in it.
\<close>

section \<open>The program\<close>

record file_system =
  fs_is_dir :: "path \<Rightarrow> bool"
  fs_is_file :: "path \<Rightarrow> bool"
  fs_rglob :: "path \<Rightarrow> string \<Rightarrow> path list"
  fs_glob :: "path \<Rightarrow> string \<Rightarrow> path list option"

text \<open>\<open>Path(text)\<close>: repeated separators and single dots disappear.\<close>

definition path_of :: "string \<Rightarrow> path" where
  "path_of s = \<lparr>pa_absolute = prefix ''/'' s,
     pa_parts = filter (\<lambda>p. p \<noteq> [] \<and> p \<noteq> ''.'') (split_on (CHR ''/'') s)\<rparr>"

definition path_name :: "path \<Rightarrow> string" where
  "path_name p = (if pa_parts p = [] then [] else last (pa_parts p))"

definition path_str :: "path \<Rightarrow> string" where
  "path_str p =
     (if pa_absolute p then CHR ''/'' # join ''/'' (pa_parts p)
      else if pa_parts p = [] then ''.'' else join ''/'' (pa_parts p))"

text \<open>Paths are ordered by their text split at the separators.\<close>

definition path_key :: "path \<Rightarrow> string list" where
  "path_key p =
     (if pa_absolute p then [] # (if pa_parts p = [] then [[]] else pa_parts p)
      else if pa_parts p = [] then [''.''] else pa_parts p)"

definition XML_GLOB :: string where
  "XML_GLOB = ''*.xml''"

text \<open>What one argument adds; a pattern that \<open>glob\<close> refuses with an exception adds nothing.\<close>

definition expand_pattern :: "file_system \<Rightarrow> string \<Rightarrow> path list" where
  "expand_pattern fs pattern =
     (let candidate = path_of pattern in
      if fs_is_dir fs candidate then filter (fs_is_file fs) (fs_rglob fs candidate XML_GLOB)
      else if fs_is_file fs candidate then [candidate]
      else
        (case fs_glob fs (path_parent candidate) (path_name candidate) of
           None \<Rightarrow> []
         | Some ps \<Rightarrow> filter (fs_is_file fs) ps))"

definition expand_result_paths :: "file_system \<Rightarrow> string list \<Rightarrow> path list" where
  "expand_result_paths fs patterns = sort_key path_key (remdups (concat (map (expand_pattern fs) patterns)))"

text \<open>The command from its arguments; \<open>read\<close> gives the bytes of a file or the error of reading it.\<close>

definition ingest_results ::
  "file_system \<Rightarrow> (path \<Rightarrow> string + string) \<Rightarrow> string \<Rightarrow> (string \<Rightarrow> string) \<Rightarrow>
   (string \<Rightarrow> xml_event list \<times> string option) \<Rightarrow> identity_config \<Rightarrow> run_metadata \<Rightarrow> string list \<Rightarrow>
   (string \<times> (string + string)) option \<Rightarrow> db \<Rightarrow> (command_failure + ingest_summary) \<times> db" where
  "ingest_results fs read now sha iterparse settings metadata patterns diff_file d =
     ingest_command now sha iterparse settings metadata
       (map (\<lambda>p. (path_str p, read p)) (expand_result_paths fs patterns)) diff_file d"

section \<open>The set of files counts\<close>

text \<open>Names as a file system has them; \<open>path_of\<close> and globs produce no others.\<close>

definition proper_path :: "path \<Rightarrow> bool" where
  "proper_path p \<longleftrightarrow> list_all (\<lambda>s. s \<noteq> [] \<and> s \<noteq> ''.'' \<and> CHR ''/'' \<notin> set s) (pa_parts p)"

definition fs_proper :: "file_system \<Rightarrow> bool" where
  "fs_proper fs \<longleftrightarrow> (\<forall>p t. list_all proper_path (fs_rglob fs p t) \<and>
     (case fs_glob fs p t of None \<Rightarrow> True | Some ps \<Rightarrow> list_all proper_path ps))"

lemma path_of_proper: "proper_path (path_of s)"
  by (auto simp: proper_path_def path_of_def list_all_iff dest: split_on_no_sep)

lemma path_key_inj: "proper_path p \<Longrightarrow> proper_path q \<Longrightarrow> path_key p = path_key q \<Longrightarrow> p = q"
  by (cases "pa_parts p"; cases "pa_parts q")
     (auto simp: proper_path_def path_key_def intro!: path.equality split: if_splits)

lemma expand_proper: "fs_proper fs \<Longrightarrow> list_all proper_path (expand_pattern fs s)"
  by (auto simp: expand_pattern_def Let_def fs_proper_def path_of_proper list_all_iff split: option.splits)
     (metis option.case(2))+

lemma sort_key_same_set:
  assumes "set xs = set ys" and "inj_on f (set xs)"
  shows "sort_key f (remdups xs) = sort_key f (remdups ys)"
proof (rule map_sorted_distinct_set_unique)
  show "inj_on f (set (sort_key f (remdups xs)) \<union> set (sort_key f (remdups ys)))"
    using assms by simp
  show "distinct (map f (sort_key f (remdups xs)))" "distinct (map f (sort_key f (remdups ys)))"
    using assms by (simp_all add: distinct_map)
qed (use assms in simp_all)

definition matched :: "file_system \<Rightarrow> string list \<Rightarrow> path set" where
  "matched fs patterns = (\<Union>s\<in>set patterns. set (expand_pattern fs s))"

lemma expand_set: "set (expand_result_paths fs ps) = matched fs ps"
  by (simp add: expand_result_paths_def matched_def)

lemma expand_depends_on_set:
  assumes "fs_proper fs" and "matched fs ps = matched fs qs"
  shows "expand_result_paths fs ps = expand_result_paths fs qs"
proof -
  have "p = q" if "p \<in> set (expand_pattern fs s)" "q \<in> set (expand_pattern fs t)" "path_key p = path_key q" for p q s t
    using that expand_proper [OF assms(1), of s] expand_proper [OF assms(1), of t] path_key_inj
    by (auto simp: list_all_iff)
  then have "inj_on path_key (set (concat (map (expand_pattern fs) ps)))"
    by (auto simp: inj_on_def)
  then show ?thesis
    unfolding expand_result_paths_def by (intro sort_key_same_set) (use assms(2) in \<open>simp_all add: matched_def\<close>)
qed

lemma expand_files: "list_all (fs_is_file fs) (expand_result_paths fs ps)"
  by (auto simp: expand_result_paths_def expand_pattern_def Let_def list_all_iff split: option.splits if_splits)

text \<open>
  A wildcard in a directory is not expanded: the last component only is matched, in a directory of
  exactly the name before it, so such an argument adds nothing.
\<close>

lemma directory_wildcards_match_nothing:
  assumes "\<not> fs_is_dir fs (path_of s)" and "\<not> fs_is_file fs (path_of s)"
    and "fs_glob fs (path_parent (path_of s)) (path_name (path_of s)) = Some []"
  shows "expand_result_paths fs [s] = []"
  using assms by (simp add: expand_result_paths_def expand_pattern_def)


definition sample_fs :: file_system where
  "sample_fs =
     \<lparr>fs_is_dir = (\<lambda>p. p = relative [''reports'']),
      fs_is_file = (\<lambda>p. p \<in> {relative [''reports'', ''a.xml''], relative [''reports'', ''b.xml'']}),
      fs_rglob = (\<lambda>p t. if p = relative [''reports'']
        then [relative [''reports'', ''b.xml''], relative [''reports'', ''a.xml'']] else []),
      fs_glob = (\<lambda>p t. Some [])\<rparr>"


end
