(* ===== verification/Reingest.thy ===== *)
theory Reingest
  imports Detector Pipeline
begin

text \<open>
  A CI step that is retried ingests the same results again (\<open>ingest/pipeline.py\<close> under
  \<open>detect/detector.py\<close>): what the detector says is the same as before the retry.
\<close>

section \<open>What the detector reads\<close>

text \<open>Everything but the time an identity was last seen and the warnings.\<close>

definition seen_free :: "identity_row \<Rightarrow> identity_row" where
  "seen_free r = r\<lparr>ir_last_seen := []\<rparr>"

definition same_facts :: "db \<Rightarrow> db \<Rightarrow> bool" where
  "same_facts d e \<longleftrightarrow> runs d = runs e \<and> executions d = executions e \<and>
     map seen_free (test_identities d) = map seen_free (test_identities e)"

definition same_reads :: "db \<Rightarrow> db \<Rightarrow> bool" where
  "same_reads d e \<longleftrightarrow> same_facts d e \<and> identity_aliases d = identity_aliases e \<and> diff_files d = diff_files e"

lemma seen_free_simps [simp]:
  "ir_id (seen_free r) = ir_id r" "ir_fingerprint (seen_free r) = ir_fingerprint r"
  "identity_from_row (seen_free r) = identity_from_row r" "ir_file_path (seen_free r) = ir_file_path r"
  by (simp_all add: seen_free_def identity_from_row_def)

lemma identity_by_id_seen_free:
  "identity_by_id d i = map_option identity_from_row (List.find (\<lambda>r. ir_id r = i) (map seen_free (test_identities d)))"
  by (simp add: identity_by_id_def find_map_same option.map_comp comp_def)

lemma identity_id_seen_free:
  "identity_id_by_fingerprint d fp = map_option ir_id (List.find (\<lambda>r. ir_fingerprint r = fp) (map seen_free (test_identities d)))"
  by (simp add: identity_id_by_fingerprint_def find_map_same option.map_comp comp_def)

lemma insort_key_map: "insort_key f (g x) (map g xs) = map g (insort_key (\<lambda>x. f (g x)) x xs)"
  by (induction xs) auto

lemma sort_key_map: "sort_key f (map g xs) = map g (sort_key (\<lambda>x. f (g x)) xs)"
  by (induction xs) (simp_all add: insort_key_map)

lemma identities_before_run_seen_free:
  "identities_before_run d pk = map (\<lambda>r. (ir_id r, identity_from_row r))
     (sort_desc (\<lambda>r. fold max (started_before d pk (ir_id r)) [])
       (sort_key ir_id (filter (\<lambda>r. started_before d pk (ir_id r) \<noteq> []) (map seen_free (test_identities d)))))"
  by (simp add: identities_before_run_def sort_desc_def filter_map sort_key_map rev_map comp_def)

lemma joined_cong: "runs d = runs e \<Longrightarrow> executions d = executions e \<Longrightarrow> joined d = joined e"
  by (simp add: joined_def run_of_def)

lemma facts_reads:
  assumes "same_facts d e"
  shows "identity_by_id d i = identity_by_id e i" "identity_id_by_fingerprint d fp = identity_id_by_fingerprint e fp"
    "identities_before_run d pk = identities_before_run e pk" "identity_ids_for_run d pk = identity_ids_for_run e pk"
    "joined d = joined e" "all_identity_ids d = all_identity_ids e"
proof -
  have eq: "map seen_free (test_identities d) = map seen_free (test_identities e)" "runs d = runs e" "executions d = executions e"
    using assms unfolding same_facts_def by blast+
  show j: "joined d = joined e" by (rule joined_cong [OF eq(2,3)])
  have started: "started_before d pk i = started_before e pk i" for i
    by (simp only: started_before_def j eq(2))
  show "identities_before_run d pk = identities_before_run e pk"
    by (simp only: identities_before_run_seen_free eq(1) started)
  have "map ir_id (map seen_free (test_identities d)) = map ir_id (map seen_free (test_identities e))"
    by (simp only: eq(1))
  then show "all_identity_ids d = all_identity_ids e"
    by (simp add: all_identity_ids_def comp_def)
  show "identity_by_id d i = identity_by_id e i" "identity_id_by_fingerprint d fp = identity_id_by_fingerprint e fp"
    "identity_ids_for_run d pk = identity_ids_for_run e pk"
    by (simp_all only: identity_by_id_seen_free identity_id_seen_free identity_ids_for_run_def eq)
qed

lemma detect_all_reads:
  assumes "same_reads d e"
  shows "detect_all c ids since d = detect_all c ids since e"
proof -
  have eq: "same_facts d e" "identity_aliases d = identity_aliases e" "diff_files d = diff_files e" "runs d = runs e"
    using assms unfolding same_reads_def same_facts_def by blast+
  have group: "identity_group d i = identity_group e i" for i
    by (simp add: identity_group_def eq(2))
  moreover have "executions_for_group d l i = executions_for_group e l i" for l i
    by (simp add: executions_for_group_def executions_for_identity_def [abs_def] group facts_reads(5) [OF eq(1)])
  moreover have "diff_paths_for_latest d h = diff_paths_for_latest e h" for h
    by (simp add: diff_paths_for_latest_def diff_paths_for_sha_def eq(3,4) split: option.split)
  ultimately have one: "detect_one c since d i = detect_one c since e i" for i
    by (simp add: detect_one_def Let_def facts_reads(1) [OF eq(1)] split: option.split)
  have "detect_loop c since d is reported = detect_loop c since e is reported" for "is" reported
    by (induction "is" arbitrary: reported) (simp_all add: group one Let_def split: option.split)
  then show ?thesis
    by (simp add: detect_all_def facts_reads(6) [OF eq(1)] split: option.split)
qed

section \<open>Resolving the same cases again\<close>

text \<open>The path an identity ends with: the last one its cases give, or the one it had.\<close>

definition given_path :: "(string \<Rightarrow> string) \<Rightarrow> string \<Rightarrow> test_case_result \<Rightarrow> string option \<Rightarrow> string option" where
  "given_path sha fp c f =
     (if ti_fingerprint (identity_for sha c) = fp
      then (case ti_file_path (identity_for sha c) of None \<Rightarrow> f | Some p \<Rightarrow> Some p) else f)"

abbreviation last_path :: "(string \<Rightarrow> string) \<Rightarrow> string \<Rightarrow> test_case_result list \<Rightarrow> string option \<Rightarrow> string option" where
  "last_path sha fp cs f \<equiv> fold (given_path sha fp) cs f"

lemma last_path_overrides: "last_path sha fp cs (last_path sha fp cs f) = last_path sha fp cs f"
proof -
  have "(\<forall>f. last_path sha fp cs f = f) \<or> (\<exists>p. \<forall>f. last_path sha fp cs f = p)"
    by (induction cs) (auto simp: given_path_def split: option.split)
  then show ?thesis by auto
qed

definition revisit :: "string \<Rightarrow> (string \<Rightarrow> string) \<Rightarrow> test_case_result \<Rightarrow> identity_row \<Rightarrow> identity_row" where
  "revisit now sha c r =
     (if ir_fingerprint r = ti_fingerprint (identity_for sha c)
      then r\<lparr>ir_last_seen := now, ir_file_path := given_path sha (ir_fingerprint r) c (ir_file_path r)\<rparr> else r)"

lemma revisit_simps [simp]:
  "ir_fingerprint (revisit now sha c r) = ir_fingerprint r"
  "ir_file_path (revisit now sha c r) = given_path sha (ir_fingerprint r) c (ir_file_path r)"
  "(seen_free (revisit now sha c r))\<lparr>ir_file_path := f\<rparr> = (seen_free r)\<lparr>ir_file_path := f\<rparr>"
  by (simp_all add: revisit_def given_path_def seen_free_def)

abbreviation fingerprints :: "db \<Rightarrow> string set" where
  "fingerprints d \<equiv> ir_fingerprint ` set (test_identities d)"

lemma upsert_known:
  assumes "db_inv d" and "ti_fingerprint (identity_for sha c) \<in> fingerprints d"
  shows "test_identities (snd (upsert_identity now (identity_for sha c) d)) = map (revisit now sha c) (test_identities d)"
proof -
  obtain x where find: "List.find (\<lambda>r. ir_fingerprint r = ti_fingerprint (identity_for sha c)) (test_identities d) = Some x"
    using assms(2) by (cases "List.find (\<lambda>r. ir_fingerprint r = ti_fingerprint (identity_for sha c)) (test_identities d)")
      (auto simp: find_None_iff)
  then have x: "x \<in> set (test_identities d)" "ir_fingerprint x = ti_fingerprint (identity_for sha c)"
    by (auto simp: find_Some_iff)
  have "ir_id r = ir_id x \<longleftrightarrow> ir_fingerprint r = ir_fingerprint x" if "r \<in> set (test_identities d)" for r
    using assms(1) that x(1) by (auto simp: db_inv_def distinct_map inj_on_def)
  then show ?thesis
    using find x by (simp add: upsert_identity_def given_path_def revisit_def)
qed

lemma upsert_new:
  assumes "ti_fingerprint (identity_for sha c) \<notin> fingerprints d"
  obtains r where "test_identities (snd (upsert_identity now (identity_for sha c) d)) = test_identities d @ [r]"
    and "ir_fingerprint r = ti_fingerprint (identity_for sha c)"
    and "ir_file_path r = given_path sha (ir_fingerprint r) c None"
proof -
  have "List.find (\<lambda>r. ir_fingerprint r = ti_fingerprint (identity_for sha c)) (test_identities d) = None"
    using assms by (force simp: find_None_iff)
  then show ?thesis
    by (intro that) (auto simp: upsert_identity_def Let_def given_path_def split: option.split)
qed

text \<open>Where the path of a row comes from, over one case and over all.\<close>

definition path_from :: "db \<Rightarrow> (string option \<Rightarrow> string option) \<Rightarrow> identity_row \<Rightarrow> bool" where
  "path_from d g r \<longleftrightarrow>
     (\<exists>r0\<in>set (test_identities d). ir_fingerprint r0 = ir_fingerprint r \<and> ir_file_path r = g (ir_file_path r0)) \<or>
     (ir_fingerprint r \<notin> fingerprints d \<and> ir_file_path r = g None)"

lemma upsert_paths:
  assumes "db_inv d" and "e = snd (upsert_identity now (identity_for sha c) d)" and "r \<in> set (test_identities e)"
  shows "path_from d (given_path sha (ir_fingerprint r) c) r"
proof (cases "ti_fingerprint (identity_for sha c) \<in> fingerprints d")
  case True
  then show ?thesis
    using assms(3) upsert_known [OF assms(1) True, of now] by (auto simp: path_from_def assms(2))
next
  case False
  have old: "given_path sha (ir_fingerprint r0) c f = f" if "r0 \<in> set (test_identities d)" for r0 f
    using that False by (auto simp: given_path_def)
  obtain x where x: "test_identities e = test_identities d @ [x]" "ir_fingerprint x = ti_fingerprint (identity_for sha c)"
    "ir_file_path x = given_path sha (ir_fingerprint x) c None"
    using upsert_new [OF False, of now] by (metis assms(2))
  show ?thesis
  proof (cases "r \<in> set (test_identities d)")
    case True
    then show ?thesis using old by (auto simp: path_from_def)
  next
    case fresh: False
    then have "r = x" using assms(3) x(1) by simp
    then show ?thesis using x(2,3) False by (simp add: path_from_def)
  qed
qed

lemma upsert_fingerprints:
  assumes "db_inv d" and "e = snd (upsert_identity now (identity_for sha c) d)"
  shows "fingerprints e = insert (ti_fingerprint (identity_for sha c)) (fingerprints d)"
proof (cases "ti_fingerprint (identity_for sha c) \<in> fingerprints d")
  case True
  then have "fingerprints e = fingerprints d"
    using upsert_known [OF assms(1) True] by (simp add: assms(2) image_image)
  with True show ?thesis by auto
next
  case False
  then obtain x where "test_identities e = test_identities d @ [x]" "ir_fingerprint x = ti_fingerprint (identity_for sha c)"
    using upsert_new [OF False, of now] by (metis assms(2))
  then show ?thesis by simp
qed

lemma resolved_paths:
  "db_inv d \<Longrightarrow> resolve_cases now sha cs d = (x, d') \<Longrightarrow> r \<in> set (test_identities d') \<Longrightarrow>
   path_from d (last_path sha (ir_fingerprint r) cs) r"
proof (induction cs arbitrary: d x d')
  case Nil
  then show ?case by (auto simp: path_from_def)
next
  case (Cons c cs)
  define e where "e = snd (upsert_identity now (identity_for sha c) d)"
  obtain y where e: "resolve_cases now sha cs e = (y, d')" "db_inv e"
    using Cons.prems(1,2) upsert_identity_inv [of d now "identity_for sha c"]
    by (auto simp: e_def Let_def split: prod.splits)
  have start: "path_from d (given_path sha (ir_fingerprint r0) c) r0" if "r0 \<in> set (test_identities e)" for r0
    using upsert_paths [OF Cons.prems(1) e_def that] .
  note grows = upsert_fingerprints [OF Cons.prems(1) e_def]
  have "path_from e (last_path sha (ir_fingerprint r) cs) r"
    using Cons.IH [OF e(2,1) Cons.prems(3)] .
  then show ?case
  proof (unfold path_from_def, elim disjE bexE conjE)
    fix r0 assume r0: "r0 \<in> set (test_identities e)" "ir_fingerprint r0 = ir_fingerprint r"
      "ir_file_path r = last_path sha (ir_fingerprint r) cs (ir_file_path r0)"
    then show "(\<exists>r0\<in>set (test_identities d). ir_fingerprint r0 = ir_fingerprint r \<and>
        ir_file_path r = last_path sha (ir_fingerprint r) (c # cs) (ir_file_path r0)) \<or>
      ir_fingerprint r \<notin> fingerprints d \<and> ir_file_path r = last_path sha (ir_fingerprint r) (c # cs) None"
      using start [OF r0(1)] by (auto simp: path_from_def)
  next
    assume "ir_fingerprint r \<notin> fingerprints e" "ir_file_path r = last_path sha (ir_fingerprint r) cs None"
    moreover from this grows have "ir_fingerprint r \<notin> fingerprints d" "ti_fingerprint (identity_for sha c) \<noteq> ir_fingerprint r"
      by auto
    ultimately show "(\<exists>r0\<in>set (test_identities d). ir_fingerprint r0 = ir_fingerprint r \<and>
        ir_file_path r = last_path sha (ir_fingerprint r) (c # cs) (ir_file_path r0)) \<or>
      ir_fingerprint r \<notin> fingerprints d \<and> ir_file_path r = last_path sha (ir_fingerprint r) (c # cs) None"
      by (simp add: given_path_def)
  qed
qed

lemma resolve_known:
  "db_inv d \<Longrightarrow> resolve_cases now sha cs d = (x, d') \<Longrightarrow>
   list_all (\<lambda>c. ti_fingerprint (identity_for sha c) \<in> fingerprints d) cs \<Longrightarrow>
   map seen_free (test_identities d') =
     map (\<lambda>r. (seen_free r)\<lparr>ir_file_path := last_path sha (ir_fingerprint r) cs (ir_file_path r)\<rparr>) (test_identities d)"
proof (induction cs arbitrary: d x d')
  case Nil
  then show ?case by (simp add: seen_free_def)
next
  case (Cons c cs)
  define e where "e = snd (upsert_identity now (identity_for sha c) d)"
  obtain y where e: "resolve_cases now sha cs e = (y, d')" "db_inv e"
    using Cons.prems(1,2) upsert_identity_inv [of d now "identity_for sha c"]
    by (auto simp: e_def Let_def split: prod.splits)
  have rows: "test_identities e = map (revisit now sha c) (test_identities d)"
    using upsert_known [OF Cons.prems(1)] Cons.prems(3) by (simp add: e_def)
  have "fingerprints e = fingerprints d"
    by (simp add: rows image_image)
  then have "list_all (\<lambda>c. ti_fingerprint (identity_for sha c) \<in> fingerprints e) cs"
    using Cons.prems(3) by simp
  from Cons.IH [OF e(2,1) this] show ?case
    unfolding rows map_map comp_def by simp
qed

lemma lookup_fingerprint: "identity_id_by_fingerprint d fp = Some k \<Longrightarrow> fp \<in> fingerprints d"
  by (auto simp: identity_id_by_fingerprint_def find_Some_iff image_iff)

lemma resolve_again_same:
  assumes "db_inv d" and "resolve_cases now sha cs d = (x, d2)"
    and "db_inv e" and "test_identities e = test_identities d2" and "resolve_cases now2 sha cs e = (y, f)"
  shows "map seen_free (test_identities f) = map seen_free (test_identities e)"
proof -
  obtain rows n where x: "x = (rows, n)" by (cases x)
  have "map snd rows = cs"
    using resolve_cases_frame assms(2) x by blast
  moreover have "\<forall>(i, c)\<in>set rows. ti_fingerprint (identity_for sha c) \<in> fingerprints d2"
    using conjunct2 [OF resolve_cases_lookup [OF assms(2) [unfolded x]]] lookup_fingerprint by blast
  ultimately have known: "list_all (\<lambda>c. ti_fingerprint (identity_for sha c) \<in> fingerprints e) cs"
    by (fastforce simp: assms(4) list_all_iff)
  have "last_path sha (ir_fingerprint r) cs (ir_file_path r) = ir_file_path r" if "r \<in> set (test_identities e)" for r
    using resolved_paths [OF assms(1,2), of r] that last_path_overrides
    by (auto simp: path_from_def assms(4))
  then show ?thesis
    using resolve_known [OF assms(3,5) known] by (simp add: seen_free_def)
qed

section \<open>Aliases and diffs again\<close>

definition absorbed :: "alias_row list \<Rightarrow> nat \<Rightarrow> nat \<Rightarrow> pyfloat \<Rightarrow> bool \<Rightarrow> bool" where
  "absorbed rows a b s c \<longleftrightarrow> (a, b) \<in> (\<lambda>r. (al_old r, al_new r)) ` set rows \<and>
     list_all (\<lambda>r. (al_old r, al_new r) = (a, b) \<longrightarrow> (c \<longrightarrow> al_certain r) \<and> s \<le> al_similarity r) rows"

definition merge_alias :: "nat \<times> nat \<Rightarrow> pyfloat \<Rightarrow> bool \<Rightarrow> alias_row \<Rightarrow> alias_row" where
  "merge_alias key s c r =
     (if (al_old r, al_new r) = key then r\<lparr>al_certain := al_certain r \<or> c, al_similarity := max (al_similarity r) s\<rparr> else r)"

lemma merge_alias_simps [simp]:
  "al_old (merge_alias key s c r) = al_old r" "al_new (merge_alias key s c r) = al_new r"
  "al_certain r \<Longrightarrow> al_certain (merge_alias key s c r)" "t \<le> al_similarity r \<Longrightarrow> t \<le> al_similarity (merge_alias key s c r)"
  by (simp_all add: merge_alias_def le_max_iff_disj)

lemma record_alias_aliases:
  assumes "record_alias now a b s c pk d = Inr (k, d')"
  shows "identity_aliases d' = map (merge_alias (a, b) s c) (identity_aliases d) \<and>
      (a, b) \<in> (\<lambda>r. (al_old r, al_new r)) ` set (identity_aliases d) \<or>
    (\<exists>r. identity_aliases d' = identity_aliases d @ [r] \<and> al_old r = a \<and> al_new r = b \<and> al_certain r = c \<and>
      al_similarity r = s \<and> (a, b) \<notin> (\<lambda>r. (al_old r, al_new r)) ` set (identity_aliases d))"
proof (cases "(a, b) \<in> (\<lambda>r. (al_old r, al_new r)) ` set (identity_aliases d)")
  case True
  then have "identity_aliases d' = map (merge_alias (a, b) s c) (identity_aliases d)"
    using assms by (auto simp: record_alias_def merge_alias_def)
  with True show ?thesis by blast
next
  case False
  then show ?thesis
    using assms unfolding record_alias_def if_not_P [OF False] by (auto split: if_splits)
qed

lemma record_alias_absorbed:
  assumes "record_alias now a b s c pk d = Inr (k, d')"
  shows "absorbed (identity_aliases d') a b s c"
  using record_alias_aliases [OF assms]
proof (elim disjE exE conjE)
  assume rows: "identity_aliases d' = map (merge_alias (a, b) s c) (identity_aliases d)"
    "(a, b) \<in> (\<lambda>r. (al_old r, al_new r)) ` set (identity_aliases d)"
  have "(c \<longrightarrow> al_certain (merge_alias (a, b) s c r)) \<and> s \<le> al_similarity (merge_alias (a, b) s c r)"
    if "al_old r = a" "al_new r = b" for r
    using that by (simp add: merge_alias_def)
  then show ?thesis using rows(2) by (simp add: rows(1) absorbed_def list_all_iff image_image)
next
  fix r assume r: "identity_aliases d' = identity_aliases d @ [r]" "al_old r = a" "al_new r = b" "al_certain r = c"
    "al_similarity r = s" and new: "(a, b) \<notin> (\<lambda>r. (al_old r, al_new r)) ` set (identity_aliases d)"
  have "(al_old x, al_new x) \<noteq> (a, b)" if "x \<in> set (identity_aliases d)" for x
    using new that by (metis (mono_tags) image_eqI)
  with r show ?thesis by (auto simp: absorbed_def list_all_iff)
qed

lemma record_alias_keeps:
  assumes "record_alias now a b s c pk d = Inr (k, d')" and "absorbed (identity_aliases d) x y t u"
  shows "absorbed (identity_aliases d') x y t u"
  using record_alias_aliases [OF assms(1)] assms(2)
  by (auto simp: absorbed_def list_all_iff image_image)

lemma record_alias_noop:
  assumes "absorbed (identity_aliases d) a b s c"
  shows "record_alias now a b s c pk d = Inr (True, d)"
proof -
  have "map (merge_alias (a, b) s c) (identity_aliases d) = identity_aliases d"
    using assms by (intro map_idI) (auto simp: absorbed_def list_all_iff max_def merge_alias_def)
  then show ?thesis
    using assms by (simp add: record_alias_def absorbed_def merge_alias_def [abs_def])
qed

definition candidate_absorbed :: "db \<Rightarrow> alias_candidate \<Rightarrow> bool" where
  "candidate_absorbed d c \<longleftrightarrow>
     (case (identity_id_by_fingerprint d (ac_old_fingerprint c), identity_id_by_fingerprint d (ac_new_fingerprint c)) of
        (Some a, Some b) \<Rightarrow> absorbed (identity_aliases d) a b (similarity c) (ac_certain c)
      | _ \<Rightarrow> True)"

lemma candidate_absorbed_keeps:
  assumes "record_alias now a b s u pk d = Inr (k, d')" and "candidate_absorbed d c"
  shows "candidate_absorbed d' c"
proof -
  have "test_identities d' = test_identities d" using record_alias_frame [OF assms(1)] by simp
  then show ?thesis
    using assms record_alias_keeps [OF assms(1)]
    by (auto simp: candidate_absorbed_def identity_id_cong [of d' d] split: option.splits)
qed

lemma record_candidates_absorbs:
  "record_candidates now pk cs d = Inr (rs, d') \<Longrightarrow>
   list_all (candidate_absorbed d') cs \<and> (candidate_absorbed d c0 \<longrightarrow> candidate_absorbed d' c0)"
proof (induction cs arbitrary: d rs c0)
  case (Cons c cs)
  show ?case
  proof (cases "(identity_id_by_fingerprint d (ac_old_fingerprint c), identity_id_by_fingerprint d (ac_new_fingerprint c))")
    case (Pair x y)
    show ?thesis
    proof (cases "x = None \<or> y = None")
      case True
      then have "candidate_absorbed d c" "record_candidates now pk cs d = Inr (rs, d')"
        using Pair Cons.prems by (auto simp: candidate_absorbed_def split: option.splits)
      then show ?thesis using Cons.IH [of d rs] by simp
    next
      case False
      then obtain a b where ab: "x = Some a" "y = Some b" by auto
      obtain k d1 rs1 where one: "record_alias now a b (similarity c) (ac_certain c) (Some pk) d = Inr (k, d1)"
        and rest: "record_candidates now pk cs d1 = Inr (rs1, d')"
        using Cons.prems Pair ab by (auto split: sum.splits)
      have "test_identities d1 = test_identities d" using record_alias_frame [OF one] by simp
      then have "candidate_absorbed d1 c"
        using record_alias_absorbed [OF one] Pair ab by (simp add: candidate_absorbed_def identity_id_cong [of d1 d])
      then show ?thesis
        using Cons.IH [OF rest] candidate_absorbed_keeps [OF one] by simp
    qed
  qed
qed simp

lemma record_candidates_noop:
  "list_all (candidate_absorbed d) cs \<Longrightarrow> \<exists>rs. record_candidates now pk cs d = Inr (rs, d)"
  by (induction cs) (auto simp: candidate_absorbed_def record_alias_noop split: option.splits)

lemma insert_diff_keys:
  "insert_diff pk cs d = Inr d' \<Longrightarrow>
   (\<lambda>r. (df_run_pk r, df_path r)) ` set (diff_files d) \<union> (\<lambda>c. (pk, fc_path c)) ` set cs \<subseteq>
   (\<lambda>r. (df_run_pk r, df_path r)) ` set (diff_files d')"
  by (induction pk cs d rule: insert_diff.induct) (auto simp: Let_def split: if_splits)

lemma insert_diff_present:
  "(\<lambda>c. (pk, fc_path c)) ` set cs \<subseteq> (\<lambda>r. (df_run_pk r, df_path r)) ` set (diff_files d) \<Longrightarrow> insert_diff pk cs d = Inr d"
  by (induction cs) auto

section \<open>A retried ingest\<close>

text \<open>The renames an ingest looks for, before they are recorded.\<close>

definition found_renames :: "db \<Rightarrow> nat \<Rightarrow> identity_config \<Rightarrow> alias_candidate list" where
  "found_renames d run_pk settings =
     (let current_ids = identity_ids_for_run d run_pk; previous = identities_before_run d run_pk
      in if current_ids = [] then []
         else detect_renames (map snd (filter (\<lambda>(i, identity). i \<notin> set current_ids) previous))
           (List.map_filter (identity_by_id d) (filter (\<lambda>i. i \<notin> fst ` set previous) current_ids)) settings)"

lemma reconcile_renames_found:
  "reconcile_renames now pk settings d = record_candidates now pk (found_renames d pk settings) d"
  by (simp add: reconcile_renames_def found_renames_def Let_def)

lemma found_renames_facts: "same_facts d e \<Longrightarrow> found_renames d pk settings = found_renames e pk settings"
proof -
  assume same: "same_facts d e"
  have "identity_by_id d = identity_by_id e"
    by (rule ext) (rule facts_reads(1) [OF same])
  then show ?thesis
    by (simp only: found_renames_def facts_reads(3,4) [OF same])
qed

lemma resolve_cases_keeps:
  "resolve_cases now sha cs d = (x, d') \<Longrightarrow> identity_aliases d' = identity_aliases d \<and> diff_files d' = diff_files d"
proof (induction cs arbitrary: d x d')
  case (Cons c cs)
  then show ?case
    by (auto simp: upsert_identity_def Let_def split: prod.splits option.splits)
qed simp

lemma record_executions_keeps:
  "record_executions now pk rows d = Inr (k, d') \<Longrightarrow>
   runs d' = runs d \<and> test_identities d' = test_identities d \<and> identity_aliases d' = identity_aliases d \<and> diff_files d' = diff_files d"
proof -
  have "insert_executions now pk rows d n = Inr (k, d') \<Longrightarrow>
    runs d' = runs d \<and> test_identities d' = test_identities d \<and> identity_aliases d' = identity_aliases d \<and> diff_files d' = diff_files d" for n k
    by (induction now pk rows d n rule: insert_executions.induct) (auto split: if_splits)
  then show "record_executions now pk rows d = Inr (k, d') \<Longrightarrow> ?thesis"
    by (auto simp: record_executions_def split: sum.splits)
qed

lemma record_candidates_keeps:
  "record_candidates now pk cs d = Inr (rs, d') \<Longrightarrow>
   runs d' = runs d \<and> executions d' = executions d \<and> test_identities d' = test_identities d \<and> diff_files d' = diff_files d"
proof (induction cs arbitrary: d rs)
  case (Cons c cs)
  have "record_alias now a b s u opk d = Inr (k, e) \<Longrightarrow>
    runs e = runs d \<and> executions e = executions d \<and> test_identities e = test_identities d \<and> diff_files e = diff_files d" for a b s u opk k e
    by (auto simp: record_alias_def split: if_splits)
  note frame = this
  show ?case
    using Cons.prems by (auto split: option.splits sum.splits dest!: frame Cons.IH)
qed simp

definition stored_diff :: "nat \<Rightarrow> diff_summary option \<Rightarrow> db \<Rightarrow> db_error + nat \<times> db" where
  "stored_diff pk diff d = (case diff of None \<Rightarrow> Inr (0, d) | Some x \<Rightarrow> record_diff pk x d)"

lemma stored_diff_frame:
  "stored_diff pk diff d = Inr (n, d') \<Longrightarrow> runs d' = runs d \<and> executions d' = executions d \<and>
   test_identities d' = test_identities d \<and> identity_aliases d' = identity_aliases d"
  by (auto simp: stored_diff_def record_diff_def split: option.splits sum.splits dest: insert_diff_frame)

lemma stored_diff_again:
  assumes "stored_diff pk diff d = Inr (n, d')" and "diff_files e = diff_files d'"
  shows "\<exists>n. stored_diff pk diff e = Inr (n, e)"
proof (cases diff)
  case (Some x)
  then obtain d1 where "insert_diff pk (ds_files x) d = Inr d1" "d1 = d'"
    using assms(1) by (auto simp: stored_diff_def record_diff_def split: sum.splits)
  then have "insert_diff pk (ds_files x) e = Inr e"
    using insert_diff_keys [of pk "ds_files x" d d1] assms(2) by (intro insert_diff_present) auto
  then show ?thesis by (simp add: stored_diff_def Some record_diff_def)
qed (simp add: stored_diff_def)

text \<open>One ingest, step by step, and what its result shares with the states in between.\<close>

lemma ingest_trace:
  assumes "ingest now sha metadata parsed diff extra settings d = Inr (s, d')"
  obtains pk d1 x d2 k d3 rs d4 n d5 where
    "record_run now metadata d = (Some pk, d1)" "resolve_cases now sha (fst parsed) d1 = (x, d2)"
    "record_executions now pk (fst x) d2 = Inr (k, d3)"
    "record_candidates now pk (found_renames d3 pk settings) d3 = Inr (rs, d4)"
    "stored_diff pk diff d4 = Inr (n, d5)" "\<exists>ws. d' = d5\<lparr>parse_warnings := ws\<rparr>"
    "runs d' = runs d1" "executions d' = executions d3" "test_identities d' = test_identities d2"
    "identity_aliases d' = identity_aliases d4" "diff_files d' = diff_files d5"
    "same_facts d3 d'" "same_facts d4 d'"
proof -
  obtain pk d1 where run: "record_run now metadata d = (Some pk, d1)"
    using assms by (auto simp: ingest_def split: prod.splits option.splits)
  obtain x d2 where res: "resolve_cases now sha (fst parsed) d1 = (x, d2)" by fastforce
  obtain k d3 rs d4 n d5 ws where steps: "record_executions now pk (fst x) d2 = Inr (k, d3)"
    "record_candidates now pk (found_renames d3 pk settings) d3 = Inr (rs, d4)"
    "stored_diff pk diff d4 = Inr (n, d5)" "d' = d5\<lparr>parse_warnings := ws\<rparr>"
    using assms run res
    by (fastforce simp: ingest_def reconcile_renames_found stored_diff_def record_warnings_def Let_def
        split: prod.splits sum.splits if_splits)
  have state: "runs d' = runs d1" "executions d' = executions d3" "test_identities d' = test_identities d2"
    "identity_aliases d' = identity_aliases d4" "diff_files d' = diff_files d5" "runs d3 = runs d1"
    "test_identities d3 = test_identities d2" "runs d4 = runs d1" "executions d4 = executions d3"
    "test_identities d4 = test_identities d2"
    using steps(4) stored_diff_frame [OF steps(3)] record_candidates_keeps [OF steps(2)]
      record_executions_keeps [OF steps(1)] resolve_cases_frame [of now sha "fst parsed" d1 "fst x" "snd x" d2] res
    by simp_all
  then have "same_facts d3 d'" "same_facts d4 d'"
    by (simp_all add: same_facts_def)
  then show ?thesis
    using that [OF run res steps(1-3)] steps(4) state(1-5) by blast
qed

lemma candidate_absorbed_facts:
  assumes "same_facts d e" and "identity_aliases d = identity_aliases e"
  shows "candidate_absorbed d c = candidate_absorbed e c"
  by (simp only: candidate_absorbed_def facts_reads(2) [OF assms(1)] assms(2))

lemma retry_reads:
  assumes "db_reachable d"
    and "ingest now sha metadata parsed diff extra settings d = Inr (s, d')"
    and "ingest now2 sha metadata parsed diff extra2 settings d' = Inr (s2, d'')"
  shows "same_reads d'' d'"
proof -
  obtain pk d1 x d2 k d3 rs d4 n d5 where
    run: "record_run now metadata d = (Some pk, d1)" and res: "resolve_cases now sha (fst parsed) d1 = (x, d2)" and
    exe: "record_executions now pk (fst x) d2 = Inr (k, d3)" and
    ren: "record_candidates now pk (found_renames d3 pk settings) d3 = Inr (rs, d4)" and
    dif: "stored_diff pk diff d4 = Inr (n, d5)" and
    d': "runs d' = runs d1" "executions d' = executions d3" "test_identities d' = test_identities d2"
      "identity_aliases d' = identity_aliases d4" "diff_files d' = diff_files d5" "same_facts d3 d'" "same_facts d4 d'"
    by (rule ingest_trace [OF assms(2)])
  obtain pk2 e1 y e2 k2 e3 rs2 e4 n2 e5 where
    run2: "record_run now2 metadata d' = (Some pk2, e1)" and res2: "resolve_cases now2 sha (fst parsed) e1 = (y, e2)" and
    exe2: "record_executions now2 pk2 (fst y) e2 = Inr (k2, e3)" and
    ren2: "record_candidates now2 pk2 (found_renames e3 pk2 settings) e3 = Inr (rs2, e4)" and
    dif2: "stored_diff pk2 diff e4 = Inr (n2, e5)" and d'': "\<exists>ws. d'' = e5\<lparr>parse_warnings := ws\<rparr>"
    by (rule ingest_trace [OF assms(3)])
  have again: "pk2 = pk" "e1 = d'"
    using record_run_again [OF run d'(1), of now2] run2 by simp_all
  obtain s0 e0 where "ingest now sha metadata parsed diff extra settings d = Inr (s0, e0)" "db_reachable e0"
    using ingest_total [OF assms(1)] by blast
  then have inv: "db_inv d1" "db_inv d'"
    using reachable_db_inv [OF run_row [OF assms(1) run]] reachable_db_inv [of d'] assms(2) by simp_all
  have keep: "runs e2 = runs d'" "executions e2 = executions d'" "identity_aliases e2 = identity_aliases d'"
    "diff_files e2 = diff_files d'"
    using resolve_cases_frame [of now2 sha "fst parsed" e1 "fst y" "snd y" e2] resolve_cases_keeps [OF res2] res2 again by simp_all
  have facts: "same_facts e2 d'"
    unfolding same_facts_def
    using keep(1,2) resolve_again_same [OF inv(1) res inv(2) d'(3) res2 [unfolded again]] by blast
  have "fst y = fst x"
    using resolve_cases_repeat [of now sha "fst parsed" d1 "fst x" "snd x" d2 d' now2 "fst y" "snd y" e2] res res2 again d'(3)
    by simp
  then have e3: "e3 = e2"
    using record_executions_repeat [OF exe, of e2 now2] exe2 keep(2) d'(2) again(1) by simp
  have "list_all (candidate_absorbed e2) (found_renames e2 pk settings)"
    using record_candidates_absorbs [OF ren] candidate_absorbed_facts [of d4 e2] found_renames_facts [of d3 e2] facts d' keep
    by (simp add: same_facts_def list_all_iff)
  then have e4: "e4 = e2"
    using record_candidates_noop [of e2 "found_renames e2 pk settings" now2 pk] ren2 e3 again(1) by auto
  have "e5 = e2"
    using stored_diff_again [OF dif, of e2] dif2 e4 again(1) keep(4) d'(5) by auto
  then show ?thesis
    using facts keep d'' by (auto simp: same_reads_def same_facts_def)
qed

text \<open>
  C23. Retrying an ingest changes no verdict: when the same results are ingested a second time,
  with any later clock and other warnings, no case is counted again, no identity is created, and
  every group of renamed tests and every detection, over any window and for any selection of
  tests, is what it was after the first time.
\<close>

theorem retry_changes_no_verdict:
  assumes "db_reachable d"
    and "ingest now sha metadata parsed diff extra settings d = Inr (s, d')"
    and "ingest now2 sha metadata parsed diff extra2 settings d' = Inr (s2, d'')"
  shows "su_cases_ingested s2 = 0 \<and> su_new_identities s2 = 0 \<and> executions d'' = executions d' \<and>
    identity_group d'' i = identity_group d' i \<and>
    failing_identities_at_sha d'' commit = failing_identities_at_sha d' commit \<and>
    detect_all c ids since d'' = detect_all c ids since d'"
proof -
  note reads = retry_reads [OF assms]
  then have "joined d'' = joined d'" "identity_aliases d'' = identity_aliases d'"
    using facts_reads(5) by (auto simp: same_reads_def)
  then show ?thesis
    using detect_all_reads [OF reads] reingest_counts_nothing_twice [OF assms]
    by (simp add: identity_group_def failing_identities_at_sha_def)
qed

text \<open>Two ingests of a failing case after the sample database.\<close>

theorem retry_changes_no_verdict_witness:
  "\<exists>s d' s2 d''. ingest ''a'' rev (sample_run 3) sample_parsed None [] default_identity_config sample_db =
       Inr (s, d') \<and>
     ingest ''b'' rev (sample_run 3) sample_parsed None [] default_identity_config d' = Inr (s2, d'') \<and>
     detect_all default_detect_config None None d'' = detect_all default_detect_config None None d'"
proof -
  obtain s d' where first: "ingest ''a'' rev (sample_run 3) sample_parsed None []
      default_identity_config sample_db = Inr (s, d')" "db_reachable d'"
    using ingest_total [OF sample_db_reachable] by blast
  obtain s2 d'' where second: "ingest ''b'' rev (sample_run 3) sample_parsed None []
      default_identity_config d' = Inr (s2, d'')"
    using ingest_total [OF first(2)] by blast
  show ?thesis
    using retry_changes_no_verdict [OF sample_db_reachable first(1) second] first(1) second by blast
qed

end
