(* ===== verification/Migrations.thy ===== *)
theory Migrations
  imports Prelude
begin

text \<open>
  The schema of the run store and its forward-only migrations (\<open>store/schema.py\<close>), and how a
  connection applies them (\<open>store/db.py\<close>): alone, and as a step relation in which any number of
  processes open the store at once and may be killed between any two statements. SQLite is the
  transaction around a script and the write lock; declarations of columns are kept as text.
\<close>

section \<open>The schema\<close>

datatype statement =
  CREATE_TABLE string "string list"
| CREATE_INDEX bool string string string
| SET_VERSION nat

definition sq :: "string \<Rightarrow> string" where
  "sq s = CHR 0x27 # s @ [CHR 0x27]"

definition one_of :: "string \<Rightarrow> string list \<Rightarrow> string" where
  "one_of column values = column @ '' IN ('' @ join '', '' (map sq values) @ '')''"

definition MIGRATION_1 :: "statement list" where
  "MIGRATION_1 =
     [CREATE_TABLE ''runs''
        [''id INTEGER PRIMARY KEY'',
         ''run_id TEXT NOT NULL'',
         ''attempt INTEGER NOT NULL DEFAULT 1'',
         ''commit_sha TEXT NOT NULL'',
         ''branch TEXT NOT NULL DEFAULT '' @ sq [],
         ''shard_id TEXT NOT NULL DEFAULT '' @ sq [],
         ''worker_id TEXT NOT NULL DEFAULT '' @ sq [],
         ''started_at TEXT NOT NULL'',
         ''ingested_at TEXT NOT NULL'',
         ''UNIQUE (run_id, attempt, shard_id)''],
      CREATE_INDEX False ''idx_runs_sha'' ''runs'' ''(commit_sha)'',
      CREATE_INDEX False ''idx_runs_started'' ''runs'' ''(started_at)'',
      CREATE_TABLE ''test_identities''
        [''id INTEGER PRIMARY KEY'',
         ''fingerprint TEXT NOT NULL UNIQUE'',
         ''suite_path TEXT NOT NULL'',
         ''test_name TEXT NOT NULL'',
         ''parameters TEXT NOT NULL DEFAULT '' @ sq [],
         ''file_path TEXT'',
         ''first_seen TEXT NOT NULL'',
         ''last_seen TEXT NOT NULL''],
      CREATE_INDEX False ''idx_identities_logical'' ''test_identities'' ''(suite_path, test_name)'',
      CREATE_TABLE ''identity_aliases''
        [''id INTEGER PRIMARY KEY'',
         ''old_identity_id INTEGER NOT NULL REFERENCES test_identities (id)'',
         ''new_identity_id INTEGER NOT NULL REFERENCES test_identities (id)'',
         ''similarity REAL NOT NULL'',
         ''certain INTEGER NOT NULL DEFAULT 0'',
         ''observed_run_id INTEGER REFERENCES runs (id)'',
         ''created_at TEXT NOT NULL'',
         ''UNIQUE (old_identity_id, new_identity_id)''],
      CREATE_TABLE ''executions''
        [''id INTEGER PRIMARY KEY'',
         ''run_pk INTEGER NOT NULL REFERENCES runs (id) ON DELETE CASCADE'',
         ''identity_id INTEGER NOT NULL REFERENCES test_identities (id)'',
         ''outcome TEXT NOT NULL CHECK ('' @ one_of ''outcome'' [''pass'', ''fail'', ''error'', ''skip''] @ '')'',
         ''duration_ms INTEGER'',
         ''failure_type TEXT'',
         ''failure_message TEXT'',
         ''stack_trace TEXT'',
         ''stdout TEXT'',
         ''stderr TEXT'',
         ''rerun_observed INTEGER NOT NULL DEFAULT 0'',
         ''source_file TEXT'',
         ''created_at TEXT NOT NULL'',
         ''UNIQUE (run_pk, identity_id)''],
      CREATE_INDEX False ''idx_executions_identity'' ''executions'' ''(identity_id, id DESC)'',
      CREATE_INDEX False ''idx_executions_run'' ''executions'' ''(run_pk)'',
      CREATE_TABLE ''diff_files''
        [''id INTEGER PRIMARY KEY'',
         ''run_pk INTEGER NOT NULL REFERENCES runs (id) ON DELETE CASCADE'',
         ''path TEXT NOT NULL'',
         ''old_path TEXT'',
         ''change_type TEXT NOT NULL'',
         ''binary INTEGER NOT NULL DEFAULT 0'',
         ''UNIQUE (run_pk, path)''],
      CREATE_TABLE ''diff_hunks''
        [''id INTEGER PRIMARY KEY'',
         ''diff_file_id INTEGER NOT NULL REFERENCES diff_files (id) ON DELETE CASCADE'',
         ''side TEXT NOT NULL CHECK ('' @ one_of ''side'' [''new'', ''old''] @ '')'',
         ''start_line INTEGER NOT NULL'',
         ''end_line INTEGER NOT NULL''],
      CREATE_INDEX False ''idx_diff_hunks_file'' ''diff_hunks'' ''(diff_file_id)'',
      CREATE_TABLE ''parse_warnings''
        [''id INTEGER PRIMARY KEY'',
         ''run_pk INTEGER REFERENCES runs (id) ON DELETE CASCADE'',
         ''origin TEXT NOT NULL'',
         ''reason TEXT NOT NULL'',
         ''detail TEXT'',
         ''created_at TEXT NOT NULL''],
      CREATE_INDEX False ''idx_parse_warnings_run'' ''parse_warnings'' ''(run_pk)'']"

definition MIGRATION_2 :: "statement list" where
  "MIGRATION_2 =
     [CREATE_TABLE ''llm_calls''
        [''id INTEGER PRIMARY KEY'',
         ''run_pk INTEGER REFERENCES runs (id) ON DELETE SET NULL'',
         ''kind TEXT NOT NULL CHECK ('' @ one_of ''kind'' [''prefilter'', ''classify'', ''repair''] @ '')'',
         ''model TEXT NOT NULL'',
         ''prompt_version TEXT NOT NULL DEFAULT '' @ sq [],
         ''input_tokens INTEGER NOT NULL DEFAULT 0'',
         ''output_tokens INTEGER NOT NULL DEFAULT 0'',
         ''cost_usd REAL NOT NULL DEFAULT 0'',
         ''latency_ms REAL NOT NULL DEFAULT 0'',
         ''cache_hit INTEGER NOT NULL DEFAULT 0'',
         ''schema_valid INTEGER NOT NULL DEFAULT 1'',
         ''error TEXT'',
         ''created_at TEXT NOT NULL''],
      CREATE_INDEX False ''idx_llm_calls_created'' ''llm_calls'' ''(created_at)'',
      CREATE_INDEX False ''idx_llm_calls_kind'' ''llm_calls'' ''(kind, created_at)'',
      CREATE_TABLE ''classifications''
        [''id INTEGER PRIMARY KEY'',
         ''identity_id INTEGER NOT NULL REFERENCES test_identities (id)'',
         ''run_pk INTEGER REFERENCES runs (id) ON DELETE SET NULL'',
         ''commit_sha TEXT NOT NULL DEFAULT '' @ sq [],
         ''cause TEXT NOT NULL'',
         ''confidence REAL NOT NULL DEFAULT 0'',
         ''abstained INTEGER NOT NULL DEFAULT 1'',
         ''downgrade_reason TEXT NOT NULL DEFAULT '' @ sq ''none'',
         ''reasoning TEXT'',
         ''evidence TEXT'',
         ''suggested_action TEXT'',
         ''model TEXT NOT NULL DEFAULT '' @ sq [],
         ''prompt_version TEXT NOT NULL DEFAULT '' @ sq [],
         ''cache_hit INTEGER NOT NULL DEFAULT 0'',
         ''created_at TEXT NOT NULL''],
      CREATE_INDEX False ''idx_classifications_identity'' ''classifications'' ''(identity_id, id DESC)'',
      CREATE_INDEX False ''idx_classifications_created'' ''classifications'' ''(created_at)'']"

definition MIGRATION_3 :: "statement list" where
  "MIGRATION_3 =
     [CREATE_TABLE ''quarantines''
        [''id INTEGER PRIMARY KEY'',
         ''identity_id INTEGER NOT NULL REFERENCES test_identities (id)'',
         ''state TEXT NOT NULL CHECK ('' @ one_of ''state'' [''recommended'', ''active'', ''expired'', ''released''] @ '')'',
         ''cause TEXT NOT NULL DEFAULT '' @ sq ''UNKNOWN'',
         ''reason TEXT NOT NULL DEFAULT '' @ sq [],
         ''flake_rate REAL NOT NULL DEFAULT 0'',
         ''observations INTEGER NOT NULL DEFAULT 0'',
         ''owner TEXT NOT NULL DEFAULT '' @ sq [],
         ''owner_source TEXT NOT NULL DEFAULT '' @ sq ''unresolved'',
         ''ttl_days INTEGER NOT NULL'',
         ''clean_runs_required INTEGER NOT NULL DEFAULT 0'',
         ''created_at TEXT NOT NULL'',
         ''expires_at TEXT NOT NULL'',
         ''closed_at TEXT'',
         ''close_reason TEXT''],
      CREATE_INDEX True ''idx_quarantine_open'' ''quarantines'' (''(identity_id) WHERE '' @ one_of ''state'' [''recommended'', ''active'']),
      CREATE_INDEX False ''idx_quarantine_expiry'' ''quarantines'' ''(expires_at)'',
      CREATE_INDEX False ''idx_quarantine_state'' ''quarantines'' ''(state, expires_at)'']"

definition MIGRATIONS :: "statement list list" where
  "MIGRATIONS = [MIGRATION_1, MIGRATION_2, MIGRATION_3]"

definition SCHEMA_VERSION :: nat where
  "SCHEMA_VERSION = 3"

section \<open>Applying the migrations\<close>

text \<open>The catalog of a store: \<open>user_version\<close>, the tables and the indexes.\<close>

record catalog =
  ct_version :: nat
  ct_tables :: "(string \<times> string list) list"
  ct_indexes :: "(string \<times> bool \<times> string \<times> string) list"

datatype sql_error = AlreadyExists string | NoSuchTable string

definition object_names :: "catalog \<Rightarrow> string list" where
  "object_names c = map fst (ct_tables c) @ map fst (ct_indexes c)"

fun execute :: "statement \<Rightarrow> catalog \<Rightarrow> sql_error + catalog" where
  "execute (CREATE_TABLE name columns) c =
     (if name \<in> set (object_names c) then Inl (AlreadyExists name)
      else Inr (c\<lparr>ct_tables := ct_tables c @ [(name, columns)]\<rparr>))"
| "execute (CREATE_INDEX unique name table on_columns) c =
     (if table \<notin> set (map fst (ct_tables c)) then Inl (NoSuchTable table)
      else if name \<in> set (object_names c) then Inl (AlreadyExists name)
      else Inr (c\<lparr>ct_indexes := ct_indexes c @ [(name, unique, table, on_columns)]\<rparr>))"
| "execute (SET_VERSION n) c = Inr (c\<lparr>ct_version := n\<rparr>)"

fun execute_all :: "statement list \<Rightarrow> catalog \<Rightarrow> sql_error + catalog" where
  "execute_all [] c = Inr c"
| "execute_all (s # ss) c = (case execute s c of Inl e \<Rightarrow> Inl e | Inr c' \<Rightarrow> execute_all ss c')"

text \<open>The script of one version; it runs in a transaction of its own.\<close>

definition script :: "nat \<Rightarrow> statement list" where
  "script v = MIGRATIONS ! (v - 1) @ [SET_VERSION v]"

datatype migration_error = SchemaTooNew nat nat | SqlError sql_error

fun migrate_from :: "nat list \<Rightarrow> catalog \<Rightarrow> (migration_error + nat) \<times> catalog" where
  "migrate_from [] c = (Inr SCHEMA_VERSION, c)"
| "migrate_from (v # vs) c =
     (case execute_all (script v) c of
        Inl e \<Rightarrow> (Inl (SqlError e), c)
      | Inr c' \<Rightarrow> migrate_from vs c')"

definition apply_migrations :: "catalog \<Rightarrow> (migration_error + nat) \<times> catalog" where
  "apply_migrations c =
     (let current = ct_version c in
      if SCHEMA_VERSION < current then (Inl (SchemaTooNew current SCHEMA_VERSION), c)
      else if current = SCHEMA_VERSION then (Inr current, c)
      else migrate_from [current + 1..<SCHEMA_VERSION + 1] c)"

text \<open>Opening a connection, and the transaction the writers of the store run their statements in.\<close>

definition connect :: "bool \<Rightarrow> catalog \<Rightarrow> (migration_error + nat) \<times> catalog" where
  "connect migrate c = (if migrate then apply_migrations c else (Inr (ct_version c), c))"

definition transaction :: "('s \<Rightarrow> ('e + 'a) \<times> 's) \<Rightarrow> 's \<Rightarrow> ('e + 'a) \<times> 's" where
  "transaction body d = (case body d of (Inl e, d') \<Rightarrow> (Inl e, d) | (Inr x, d') \<Rightarrow> (Inr x, d'))"

section \<open>Several processes, and crashes\<close>

text \<open>
  A process that opens the store: before it has read the version, between two scripts, inside one
  with what is left of it and the catalog as it sees it, and its three ends. \<open>Killed\<close> is a crash.
\<close>

datatype opener =
  Opening
| Between "nat list"
| Inside "statement list" catalog "nat list"
| Opened nat
| Refused migration_error
| Killed

fun is_inside :: "opener \<Rightarrow> bool" where
  "is_inside (Inside ss c vs) \<longleftrightarrow> True"
| "is_inside _ \<longleftrightarrow> False"

definition after_read :: "catalog \<Rightarrow> opener" where
  "after_read c =
     (let current = ct_version c in
      if SCHEMA_VERSION < current then Refused (SchemaTooNew current SCHEMA_VERSION)
      else if current = SCHEMA_VERSION then Opened current
      else Between [current + 1..<SCHEMA_VERSION + 1])"

text \<open>
  What one process can do, given the committed catalog and whether another one is inside a
  transaction: its next state and the committed catalog afterwards. The version is read outside
  any transaction; a transaction begins only when no other is open, and what it did is committed or lost
  as a whole.
\<close>

fun opener_next :: "catalog \<Rightarrow> bool \<Rightarrow> opener \<Rightarrow> (opener \<times> catalog) option" where
  "opener_next d busy Opening = Some (after_read d, d)"
| "opener_next d busy (Between []) = Some (Opened SCHEMA_VERSION, d)"
| "opener_next d busy (Between (v # vs)) = (if busy then None else Some (Inside (script v) d vs, d))"
| "opener_next d busy (Inside [] c vs) = Some (Between vs, c)"
| "opener_next d busy (Inside (s # ss) c vs) =
     (case execute s c of
        Inl e \<Rightarrow> Some (Refused (SqlError e), d)
      | Inr c' \<Rightarrow> Some (Inside ss c' vs, d))"
| "opener_next d busy _ = None"

inductive store_step :: "catalog \<times> opener list \<Rightarrow> catalog \<times> opener list \<Rightarrow> bool" where
  run: "i < length ws \<Longrightarrow> opener_next d (\<exists>j<length ws. j \<noteq> i \<and> is_inside (ws ! j)) (ws ! i) = Some (w, d') \<Longrightarrow>
    store_step (d, ws) (d', ws[i := w])"
| kill: "i < length ws \<Longrightarrow> store_step (d, ws) (d, ws[i := Killed])"

inductive_cases store_step_cases: "store_step (d, ws) st'"

section \<open>The schema at each version\<close>

fun schema_at :: "nat \<Rightarrow> catalog" where
  "schema_at 0 = \<lparr>ct_version = 0, ct_tables = [], ct_indexes = []\<rparr>"
| "schema_at (Suc v) = (case execute_all (script (Suc v)) (schema_at v) of Inr c \<Rightarrow> c | Inl e \<Rightarrow> schema_at v)"

lemma up_to_three: "v \<le> (3::nat) \<longleftrightarrow> v = 0 \<or> v = 1 \<or> v = 2 \<or> v = 3"
  by arith

lemma script_applies: "v < 3 \<Longrightarrow> execute_all (script (Suc v)) (schema_at v) = Inr (schema_at (Suc v))"
proof -
  have "case execute_all (script 1) (schema_at 0) of Inr c \<Rightarrow> True | Inl e \<Rightarrow> False"
    "case execute_all (script 2) (schema_at 1) of Inr c \<Rightarrow> True | Inl e \<Rightarrow> False"
    "case execute_all (script 3) (schema_at 2) of Inr c \<Rightarrow> True | Inl e \<Rightarrow> False"
    by code_simp+
  moreover assume "v < 3"
  then have "v = 0 \<or> v = 1 \<or> v = 2" by arith
  ultimately show ?thesis
    by (auto split: sum.splits simp: numeral_eq_Suc)
qed

text \<open>Every script begins with a table, so on a schema that has it the script fails.\<close>

lemma script_fails: "1 \<le> k \<Longrightarrow> k \<le> v \<Longrightarrow> v \<le> 3 \<Longrightarrow> \<exists>e. execute_all (script k) (schema_at v) = Inl e"
proof -
  have "list_all (\<lambda>(k, v). case execute_all (script k) (schema_at v) of Inr c \<Rightarrow> False | Inl e \<Rightarrow> True)
      [(1, 1), (1, 2), (1, 3), (2, 2), (2, 3), (3, 3)]"
    by code_simp
  moreover assume "1 \<le> k" "k \<le> v" "v \<le> 3"
  then have "(k, v) \<in> set [(1, 1), (1, 2), (1, 3), (2, 2), (2, 3), (3, 3)]" by auto
  ultimately show ?thesis by (fastforce simp: list_all_iff split: sum.splits)
qed

lemma execute_all_append:
  "execute_all (xs @ ys) c = (case execute_all xs c of Inl e \<Rightarrow> Inl e | Inr c' \<Rightarrow> execute_all ys c')"
  by (induction xs arbitrary: c) (auto split: sum.split)

lemma script_version: "execute_all (script v) c = Inr c' \<Longrightarrow> ct_version c' = v"
  by (auto simp: script_def execute_all_append split: sum.splits)

lemma version_at: "v \<le> 3 \<Longrightarrow> ct_version (schema_at v) = v"
proof (cases v)
  case (Suc u)
  assume "v \<le> 3"
  with Suc script_version [OF script_applies [of u]] show ?thesis by simp
qed simp

lemma migrate_from_schema:
  "v \<le> 3 \<Longrightarrow> migrate_from [v + 1..<4] (schema_at v) = (Inr 3, schema_at 3)"
proof (induction "3 - v" arbitrary: v)
  case 0
  then show ?case by (simp add: SCHEMA_VERSION_def del: schema_at.simps)
next
  case (Suc n)
  then have v: "v < 3" and "n = 3 - (v + 1)" "v + 1 \<le> 3" by arith+
  then have "migrate_from [v + 1 + 1..<4] (schema_at (v + 1)) = (Inr 3, schema_at 3)"
    using Suc.hyps(1) by blast
  moreover have "[v + 1..<4] = (v + 1) # [v + 1 + 1..<4]" using v by (simp add: upt_rec)
  ultimately show ?case using script_applies [OF v] by (simp del: schema_at.simps upt_Suc)
qed

lemma apply_migrations_schema: "v \<le> 3 \<Longrightarrow> apply_migrations (schema_at v) = (Inr 3, schema_at 3)"
  using migrate_from_schema [of v]
  by (auto simp: apply_migrations_def Let_def SCHEMA_VERSION_def version_at numeral_eq_Suc
      simp del: schema_at.simps upt_Suc)

section \<open>No half-built schema\<close>

fun opener_ok :: "catalog \<Rightarrow> opener \<Rightarrow> bool" where
  "opener_ok d (Between vs) \<longleftrightarrow> (\<exists>k. 1 \<le> k \<and> k \<le> ct_version d + 1 \<and> vs = [k..<4])"
| "opener_ok d (Inside ss c vs) \<longleftrightarrow>
     (\<exists>k before. 1 \<le> k \<and> k \<le> 3 \<and> k \<le> ct_version d + 1 \<and> vs = [k + 1..<4] \<and> script k = before @ ss \<and>
        execute_all before d = Inr c)"
| "opener_ok d (Opened n) \<longleftrightarrow> n = 3 \<and> ct_version d = 3"
| "opener_ok d _ \<longleftrightarrow> True"

definition store_inv :: "catalog \<times> opener list \<Rightarrow> bool" where
  "store_inv st \<longleftrightarrow>
     (case st of (d, ws) \<Rightarrow>
        (\<exists>v\<le>3. d = schema_at v) \<and> (\<forall>i<length ws. opener_ok d (ws ! i)) \<and>
        (\<forall>i<length ws. \<forall>j<length ws. is_inside (ws ! i) \<longrightarrow> is_inside (ws ! j) \<longrightarrow> i = j))"

lemma opener_ok_later:
  "opener_ok d w \<Longrightarrow> ct_version d \<le> ct_version d' \<Longrightarrow> ct_version d' \<le> 3 \<Longrightarrow> \<not> is_inside w \<Longrightarrow> opener_ok d' w"
  by (cases w) fastforce+

text \<open>The one step that changes the committed catalog takes it from one version to the next.\<close>

lemma commit_is_next:
  assumes "v \<le> 3" and "opener_ok (schema_at v) (Inside [] c vs)"
  shows "v < 3 \<and> c = schema_at (Suc v) \<and> opener_ok c (Between vs)"
proof -
  from assms obtain k where k: "1 \<le> k" "k \<le> 3" "k \<le> v + 1" "vs = [k + 1..<4]"
    "execute_all (script k) (schema_at v) = Inr c"
    by (auto simp: version_at simp del: schema_at.simps upt_Suc)
  have "k = Suc v"
    using script_fails [of k v] k assms(1) by (cases "k \<le> v") auto
  with k script_applies [of v] have "v < 3" "c = schema_at (Suc v)" by (auto simp del: schema_at.simps)
  with k \<open>k = Suc v\<close> show ?thesis
    by (auto simp: version_at simp del: schema_at.simps upt_Suc)
qed

lemma opener_next_ok:
  assumes "v \<le> 3" and "opener_next (schema_at v) busy w = Some (w', d')" and "opener_ok (schema_at v) w"
  shows "(d' = schema_at v \<or> is_inside w \<and> v < 3 \<and> d' = schema_at (Suc v)) \<and> opener_ok d' w' \<and>
    (is_inside w' \<longrightarrow> is_inside w \<or> \<not> busy)"
  using assms(2)
proof (cases "(schema_at v, busy, w)" rule: opener_next.cases)
  case (1 d b)
  have "after_read (schema_at v) = (if v = 3 then Opened 3 else Between [v + 1..<4])"
    using assms(1) by (simp add: after_read_def Let_def version_at SCHEMA_VERSION_def del: schema_at.simps upt_Suc)
  moreover have "opener_ok (schema_at v) (Between [v + 1..<4])"
    using assms(1) by (auto simp: version_at simp del: schema_at.simps upt_Suc intro!: exI [of _ "v + 1"])
  ultimately show ?thesis
    using 1 assms(1,2) by (auto simp: version_at simp del: schema_at.simps upt_Suc opener_ok.simps(1)
        split: if_splits)
next
  case (2 d b)
  then obtain k where "k \<le> v + 1" "[k..<4] = []"
    using assms by (auto simp: version_at simp del: schema_at.simps upt_Suc upt_eq_Nil_conv)
  with assms(1) have "v = 3" by simp
  with 2 assms show ?thesis
    by (auto simp: version_at SCHEMA_VERSION_def simp del: schema_at.simps upt_Suc)
next
  case (3 d b u us)
  then obtain k where k: "1 \<le> k" "k \<le> v + 1" "u # us = [k..<4]"
    using assms by (auto simp: version_at simp del: schema_at.simps upt_Suc)
  then have "k < 4" by (cases "k < 4") auto
  with k(3) have "u = k" "us = [k + 1..<4]" by (auto simp: upt_rec [of k])
  moreover from 3 assms(2) have "\<not> busy" "w' = Inside (script u) (schema_at v) us" "d' = schema_at v"
    by (auto split: if_splits simp del: schema_at.simps)
  moreover have "opener_ok (schema_at v) (Inside (script k) (schema_at v) [k + 1..<4])"
    using k(1,2) \<open>k < 4\<close> assms(1) by (auto simp: version_at simp del: schema_at.simps upt_Suc)
  ultimately show ?thesis by (simp del: schema_at.simps opener_ok.simps)
next
  case (4 d b c vs)
  with assms commit_is_next [OF assms(1), of c vs] show ?thesis by (auto simp del: schema_at.simps opener_ok.simps)
next
  case (5 d b s ss c vs)
  then obtain k before where k: "1 \<le> k" "k \<le> 3" "k \<le> v + 1" "vs = [k + 1..<4]" "script k = before @ s # ss"
    "execute_all before (schema_at v) = Inr c"
    using assms by (auto simp: version_at simp del: schema_at.simps upt_Suc)
  show ?thesis
  proof (cases "execute s c")
    case (Inr c1)
    then have "execute_all (before @ [s]) (schema_at v) = Inr c1"
      using k(6) by (simp add: execute_all_append)
    moreover have "script k = (before @ [s]) @ ss" using k(5) by simp
    ultimately have "opener_ok (schema_at v) (Inside ss c1 vs)"
      using k(1-4) assms(1) unfolding opener_ok.simps version_at [OF assms(1)] by blast
    with 5 Inr assms show ?thesis by (auto simp del: schema_at.simps opener_ok.simps)
  qed (use 5 assms in auto)
qed (use assms in auto)

lemma store_step_inv: "store_step st st' \<Longrightarrow> store_inv st \<Longrightarrow> store_inv st'"
proof (induction rule: store_step.induct)
  case (run i ws d w d')
  then obtain v where v: "v \<le> 3" "d = schema_at v" and ok: "\<forall>j<length ws. opener_ok d (ws ! j)" and
    one: "\<forall>i<length ws. \<forall>j<length ws. is_inside (ws ! i) \<longrightarrow> is_inside (ws ! j) \<longrightarrow> i = j"
    by (auto simp: store_inv_def simp del: schema_at.simps)
  let ?busy = "\<exists>j<length ws. j \<noteq> i \<and> is_inside (ws ! j)"
  have step: "(d' = d \<or> is_inside (ws ! i) \<and> v < 3 \<and> d' = schema_at (Suc v)) \<and> opener_ok d' w \<and>
      (is_inside w \<longrightarrow> is_inside (ws ! i) \<or> \<not> ?busy)"
    using opener_next_ok [OF v(1), of ?busy "ws ! i" w d'] run ok v(2) by auto
  have "\<exists>v'\<le>3. d' = schema_at v'" using step v by (auto simp del: schema_at.simps intro: Suc_leI)
  moreover have "opener_ok d' (ws ! j)" if "j < length ws" "j \<noteq> i" for j
  proof (cases "d' = d")
    case False
    then have "\<not> is_inside (ws ! j)" using step one run.hyps(1) that by auto
    moreover have "ct_version d \<le> ct_version d'" "ct_version d' \<le> 3"
      using False step v by (auto simp: version_at simp del: schema_at.simps)
    ultimately show ?thesis using opener_ok_later ok that by blast
  qed (use ok that in auto)
  ultimately show ?case
    using step one run.hyps(1) unfolding store_inv_def
    by (auto simp: nth_list_update simp del: schema_at.simps opener_ok.simps)
next
  case (kill i ws d)
  then show ?case by (auto simp: store_inv_def nth_list_update simp del: schema_at.simps)
qed

text \<open>
  C14. However many processes open the store at once, and wherever any of them is killed, the
  committed store is the schema of one whole version, no earlier than the one it had; a process
  that got through sees the newest; and whatever state the others left behind, the next one to
  open the store on its own brings it to the newest version.
\<close>

theorem no_half_built_schema:
  assumes "v \<le> 3" and "store_step\<^sup>*\<^sup>* (schema_at v, replicate n Opening) (d, ws)"
  shows "(\<exists>u. v \<le> u \<and> u \<le> 3 \<and> d = schema_at u) \<and>
    (\<forall>m. Opened m \<in> set ws \<longrightarrow> m = SCHEMA_VERSION \<and> d = schema_at SCHEMA_VERSION) \<and>
    apply_migrations d = (Inr SCHEMA_VERSION, schema_at SCHEMA_VERSION)"
proof -
  have "store_inv st' \<and> v \<le> ct_version (fst st')" if "store_step\<^sup>*\<^sup>* (schema_at v, replicate n Opening) st'" for st'
    using that
  proof (induction rule: rtranclp_induct)
    case base
    then show ?case using assms(1) by (auto simp: store_inv_def version_at simp del: schema_at.simps)
  next
    case (step a b)
    then have inv: "store_inv b" using store_step_inv by blast
    from step(2) have "ct_version (fst a) \<le> ct_version (fst b)"
    proof cases
      case (run i ws d w d')
      with step.IH obtain u where "u \<le> 3" "d = schema_at u" "opener_ok d (ws ! i)"
        by (auto simp: store_inv_def simp del: schema_at.simps)
      moreover from this run have "d' = schema_at u \<or> u < 3 \<and> d' = schema_at (Suc u)"
        using opener_next_ok [of u _ "ws ! i" w d'] by blast
      ultimately show ?thesis
        using run by (auto simp: version_at simp del: schema_at.simps)
    qed simp
    with step inv show ?case by simp
  qed
  from this [OF assms(2)] obtain u where u: "v \<le> u" "u \<le> 3" "d = schema_at u" and
    ok: "\<forall>i<length ws. opener_ok d (ws ! i)"
    by (auto simp: store_inv_def version_at simp del: schema_at.simps)
  have "m = 3 \<and> u = 3" if "Opened m \<in> set ws" for m
  proof -
    from that ok have "opener_ok d (Opened m)" by (auto simp: in_set_conv_nth)
    with u show ?thesis by (simp add: version_at del: schema_at.simps)
  qed
  then show ?thesis
    using u apply_migrations_schema [of u] by (auto simp: SCHEMA_VERSION_def simp del: schema_at.simps)
qed

section \<open>Two first openings\<close>

lemma run_of_script:
  assumes "i < length ws" and "execute_all ss c = Inr c'"
  shows "store_step\<^sup>*\<^sup>* (d, ws[i := Inside ss c vs]) (c', ws[i := Between vs])"
  using assms(2)
proof (induction ss arbitrary: c)
  case Nil
  then show ?case
    using assms(1) store_step.run [of i "ws[i := Inside [] c vs]" d "Between vs" c] by auto
next
  case (Cons s ss)
  then obtain c1 where c1: "execute s c = Inr c1" "execute_all ss c1 = Inr c'" by (auto split: sum.splits)
  have "store_step (d, ws[i := Inside (s # ss) c vs]) (d, ws[i := Inside ss c1 vs])"
    using assms(1) c1(1) store_step.run [of i "ws[i := Inside (s # ss) c vs]" d "Inside ss c1 vs" d] by simp
  with Cons.IH [OF c1(2)] show ?case by (meson converse_rtranclp_into_rtranclp)
qed

lemma step_first:
  assumes "opener_next d (is_inside b) a = Some (w, d')"
  shows "store_step (d, [a, b]) (d', [w, b])"
proof -
  have "(\<exists>j<length [a, b]. j \<noteq> 0 \<and> is_inside ([a, b] ! j)) \<longleftrightarrow> is_inside b"
    by (auto simp: less_Suc_eq)
  then show ?thesis using store_step.run [of 0 "[a, b]" d w d'] assms by simp
qed

lemma step_second:
  assumes "opener_next d (is_inside a) b = Some (w, d')"
  shows "store_step (d, [a, b]) (d', [a, w])"
proof -
  have "(\<exists>j<length [a, b]. j \<noteq> 1 \<and> is_inside ([a, b] ! j)) \<longleftrightarrow> is_inside a"
    by (auto simp: less_Suc_eq)
  then show ?thesis using store_step.run [of 1 "[a, b]" d w d'] assms by simp
qed


text \<open>The run that shows the premises of the safety theorem can hold.\<close>

theorem no_half_built_schema_witness:
  "\<exists>d ws. store_step\<^sup>*\<^sup>* (schema_at 2, replicate 1 Opening) (d, ws) \<and> ws = [Killed] \<and>
     apply_migrations d = (Inr SCHEMA_VERSION, schema_at SCHEMA_VERSION)"
proof -
  have "store_step (schema_at 2, replicate 1 Opening) (schema_at 2, [Killed])"
    using store_step.kill [of 0 "[Opening]" "schema_at 2"] by (simp del: schema_at.simps)
  then have run: "store_step\<^sup>*\<^sup>* (schema_at 2, replicate 1 Opening) (schema_at 2, [Killed])" ..
  from no_half_built_schema [OF _ run] run show ?thesis by auto
qed

section \<open>A store of a newer build\<close>

text \<open>
  A store written by a newer build is refused and left as it is, whatever it holds; a store of this
  build is left as it is and opened.
\<close>

theorem newer_store_is_untouched:
  "apply_migrations (c\<lparr>ct_version := 4 + n\<rparr>) =
     (Inl (SchemaTooNew (4 + n) SCHEMA_VERSION), c\<lparr>ct_version := 4 + n\<rparr>) \<and>
   apply_migrations (c\<lparr>ct_version := SCHEMA_VERSION\<rparr>) = (Inr SCHEMA_VERSION, c\<lparr>ct_version := SCHEMA_VERSION\<rparr>)"
  by (simp add: apply_migrations_def SCHEMA_VERSION_def Let_def)

end
