(* ===== verification/Cli_Output.thy ===== *)
theory Cli_Output
  imports Cli
begin

text \<open>
  What \<open>ingest\<close>, \<open>policy\<close> and \<open>stats\<close> print for a person (\<open>cli.py\<close>): the lines and tables given to the
  Rich consoles of the standard output and the error output, in the order they are written.
\<close>

section \<open>The program\<close>

datatype printed =
    Out shown
  | Err string

definition ingest_table :: "run_metadata \<Rightarrow> nat \<Rightarrow> ingest_summary \<Rightarrow> shown" where
  "ingest_table md files s =
     Grid (Some (''Ingested '' @ take 12 (md_commit_sha md) @ '' (run '' @ md_run_id md @ '', attempt '' @
             show_int (md_attempt md) @ '')''))
       [col ''metric'', right_col ''value'']
       [[''result files'', show_nat files], [''executions recorded'', show_nat (su_cases_ingested s)],
        [''duplicates skipped'', show_nat (su_cases_skipped_duplicate s)],
        [''new test identities'', show_nat (su_new_identities s)],
        [''renames merged'', show_nat (su_aliases_recorded s)], [''diff files'', show_nat (su_diff_files s)],
        [''parse warnings'', show_nat (length (su_warnings s))]]"

definition ingest_output :: "run_metadata \<Rightarrow> nat \<Rightarrow> ingest_summary \<Rightarrow> printed list" where
  "ingest_output md files s =
     [Out (ingest_table md files s)] @
     (if su_uncertain_aliases s \<noteq> 0
      then [Err (''[yellow]merged_uncertain[/yellow] '' @ show_nat (su_uncertain_aliases s) @
              '' rename(s) were inferred from name similarity rather than observed.'')] else []) @
     map (\<lambda>w. Err (''[yellow]warning[/yellow] '' @ pw_reason w @ '': '' @ pw_origin w)) (su_warnings s)"

definition recommendation_row :: "recommendation \<Rightarrow> string list" where
  "recommendation_row r =
     [qr_test r, fmt_pct 0 (qr_flake_rate r), show_nat (qr_observations r),
      (if qr_owner r \<noteq> [] then qr_owner r else ''[red]unresolved[/red]'') @
      (if owner_is_a_guess r then '' [dim](last committer)[/dim]'' else []),
      take 10 (qr_expires_at r)]"

definition recommendation_table :: "recommendation list \<Rightarrow> shown" where
  "recommendation_table proposed =
     Grid (Some ''Quarantine recommendations'')
       [fold_col ''test'', right_col ''rate'', right_col ''obs'', col ''owner'', col ''expires'']
       (map recommendation_row proposed)"

definition recommendation_output :: "recommendation list \<Rightarrow> printed list" where
  "recommendation_output rs =
     (let proposed = filter qr_recommended rs in
      (if proposed \<noteq> [] then [Out (recommendation_table proposed)]
       else [Out (Line ''[green]No new quarantine recommendations.[/green]'')]) @
      (if notable rs \<noteq> []
       then [Out (Line []), Out (Line ''[dim]Not recommended:[/dim]'')] @
         map (\<lambda>r. Out (Line (''  [dim]'' @ qr_test r @ '': '' @ refusal_value (qr_refusal r) @ ''[/dim]''))) (notable rs)
       else []))"

text \<open>The row of a record; \<open>None\<close> when the clock leaves no room for the look ahead.\<close>

definition quarantine_row_cells :: "moment \<Rightarrow> quarantine_record \<Rightarrow> string list option" where
  "quarantine_row_cells now r =
     map_option (\<lambda>expiring.
       [qc_test r, quarantine_state_value (q_state (qc_row r)), cause_value (q_cause (qc_row r)),
        if q_owner (qc_row r) \<noteq> [] then q_owner (qc_row r) else ''unresolved'',
        if expiring then ''[yellow]'' @ take 10 (q_expires_at (qc_row r)) @ ''[/yellow]''
        else take 10 (q_expires_at (qc_row r))])
       (record_expiring EXPIRING_DAYS now (qc_row r))"

definition quarantine_table :: "string list list \<Rightarrow> shown" where
  "quarantine_table cells =
     Grid (Some ''Open quarantines'')
       [fold_col ''test'', col ''state'', col ''cause'', col ''owner'', col ''expires''] cells"

definition closing_notes :: "quarantine_record list \<Rightarrow> string list \<Rightarrow> bool \<Rightarrow> printed list" where
  "closing_notes expired released applied =
     (if expired \<noteq> []
      then [Err (''[yellow]'' @ show_nat (length expired) @ '' quarantine(s) expired[/yellow] with the test still '' @
              ''unstable; they need a decision rather than another TTL.'')] else []) @
     (if released \<noteq> []
      then [Err (''[green]'' @ show_nat (length released) @ '' test(s) returned to blocking[/green] after enough '' @
              ''clean executions.'')] else []) @
     (if \<not> applied then [Err ''[dim]Read-only; pass --apply to record these decisions.[/dim]''] else [])"

text \<open>What is on the consoles when it ends, and whether it ended by an exception.\<close>

definition render_policy ::
  "moment \<Rightarrow> recommendation list \<Rightarrow> quarantine_record list \<Rightarrow> quarantine_record list \<Rightarrow> string list \<Rightarrow>
   bool \<Rightarrow> bool \<Rightarrow> printed list \<times> command_failure option" where
  "render_policy now rs records expired released applied show_quarantine =
     (let before = (if show_quarantine then [] else recommendation_output rs) in
      if show_quarantine \<or> records \<noteq> []
      then
        (if records = []
         then (before @ [Out (Line []), Out (Line ''[green]No open quarantines.[/green]'')] @
                closing_notes expired released applied, None)
         else
           (case those (map (quarantine_row_cells now) records) of
              None \<Rightarrow> (before @ [Out (Line [])], Some UncaughtOverflow)
            | Some cells \<Rightarrow> (before @ [Out (Line []), Out (quarantine_table cells)] @
                closing_notes expired released applied, None)))
      else (before @ closing_notes expired released applied, None))"

definition policy_terminal ::
  "moment \<Rightarrow> bool \<Rightarrow> bool \<Rightarrow> bool \<Rightarrow> policy_outcome \<Rightarrow> printed list \<times> command_failure option" where
  "policy_terminal now expiring show_quarantine applied out =
     (case shown_records now expiring (po_records out) of
        None \<Rightarrow> ([], Some UncaughtOverflow)
      | Some records \<Rightarrow>
          render_policy now (po_recommendations out) records (po_expired out) (po_released out) applied show_quarantine)"

definition by_count :: "(string \<times> nat) list \<Rightarrow> (string \<times> nat) list" where
  "by_count counts = sort_key (\<lambda>(k, n). - int n) counts"

definition count_table :: "string \<Rightarrow> string \<Rightarrow> (string \<times> nat) list \<Rightarrow> printed list" where
  "count_table title header counts =
     (if counts \<noteq> []
      then [Out (Line []), Out (Grid (Some title) [col header, right_col ''n'']
              (map (\<lambda>(k, n). [k, show_nat n]) (by_count counts)))]
      else [])"

definition stats_table :: "string \<Rightarrow> metrics_summary \<Rightarrow> shown" where
  "stats_table since s =
     Grid (Some (''flaketriage metrics, last '' @ since)) [col ''metric'', right_col ''value'']
       [[''runs ingested'', show_nat (ms_runs s)], [''classifications'', show_nat (ms_classifications s)],
        [''abstentions'', show_nat (ms_abstentions s) @ '' ('' @ fmt_pct 1 (abstention_rate s) @ '')''],
        [''cache hit rate'', fmt_pct 1 (summary_cache_hit_rate s)],
        [''API calls'', show_nat (ms_api_calls s)], [''failed API calls'', show_nat (ms_errors s)],
        [''total cost'', CHR 0x24 # fmt_fixed 4 (ms_total_cost_usd s)],
        [''cost per classification'', CHR 0x24 # fmt_fixed 4 (cost_per_classification_usd s)],
        [''tokens in / out'', show_nat (ms_total_input_tokens s) @ '' / '' @ show_nat (ms_total_output_tokens s)],
        [''classify latency P50'', fmt_fixed 0 (ms_latency_p50_ms s) @ '' ms''],
        [''classify latency P95'', fmt_fixed 0 (ms_latency_p95_ms s) @ '' ms'']]"

definition stats_output :: "string \<Rightarrow> metrics_summary \<Rightarrow> printed list" where
  "stats_output since s =
     [Out (stats_table since s)] @
     count_table ''classifications by cause'' ''cause'' (ms_by_cause s) @
     count_table ''abstentions by reason'' ''reason'' (ms_by_downgrade_reason s) @
     (if ms_classifications s = 0 \<and> ms_api_calls s = 0
      then [Err (''[dim]No model activity recorded in this window. Run '' @ quoted ''flaketriage triage'' @
              '' with an API key to populate it.[/dim]'')] else [])"

text \<open>The line after a batch of \<open>triage\<close>.\<close>

definition classified_line :: "nat \<Rightarrow> classifier_state \<Rightarrow> string" where
  "classified_line tests s =
     ''[dim]classified '' @ show_nat tests @ '' test(s): '' @ show_nat (api_calls s) @ '' API call(s), '' @
     show_nat (cs_cache_hits s) @ '' cache hit(s), '' @ show_nat (cs_prefiltered s) @ '' prefiltered, '' @
     CHR 0x24 # fmt_fixed 4 (total_cost_usd s) @ ''[/dim]''"

section \<open>The commands with their output\<close>

text \<open>\<open>policy\<close> up to its output; the rows of the quarantine table are the state.\<close>

definition policy_command ::
  "policy_env \<Rightarrow> detect_config \<Rightarrow> db option \<Rightarrow> metrics_db \<Rightarrow> string \<Rightarrow> bool \<Rightarrow> quarantine_row list \<Rightarrow>
   command_failure + policy_outcome" where
  "policy_command env settings store m since apply_changes qs =
     (case store of
        None \<Rightarrow> Inl (Exit 1)
      | Some d \<Rightarrow>
          (case run_detection settings (pe_now env) store since None of
             Inl e \<Rightarrow> Inl e
           | Inr dets \<Rightarrow> policy_run env d m apply_changes dets qs))"

text \<open>\<open>eval\<close>: the exit status is that of the harness.\<close>

definition eval_command ::
  "string \<Rightarrow> string option \<Rightarrow> (string list \<Rightarrow> nat) \<Rightarrow> string option \<Rightarrow> bool \<Rightarrow> nat" where
  "eval_command python script run only no_llm =
     (case script of None \<Rightarrow> 1 | Some path \<Rightarrow> run (evaluation_argv python path only no_llm))"

text \<open>
  The start time of a run: \<open>parse\<close> is Python's ISO parser, which gives the moment written and the
  offset from UTC in microseconds when there is one. A moment before the first year is an overflow.
\<close>

definition as_utc ::
  "(string \<Rightarrow> (moment \<times> int option) option) \<Rightarrow> moment \<Rightarrow> string option \<Rightarrow> command_failure + moment" where
  "as_utc parse now value =
     (case value of
        None \<Rightarrow> Inr now
      | Some s \<Rightarrow>
          (case parse (strip s) of
             None \<Rightarrow> Inl (Exit 1)
           | Some (t, None) \<Rightarrow> Inr t
           | Some (t, Some offset) \<Rightarrow>
               let u = int t - offset
               in if 0 \<le> u \<and> u < int MAX_MOMENT then Inr (nat u) else Inl UncaughtOverflow))"

text \<open>The tables of counts list every count once, the largest first.\<close>

lemma by_count_sorts: "mset (by_count cs) = mset cs \<and> sorted (rev (map snd (by_count cs)))"
proof
  have "sorted_wrt (\<lambda>a b. snd b \<le> snd a) (by_count cs)"
    using sorted_sort_key [of "\<lambda>(k, n). - int n" cs] unfolding sorted_map by_count_def
    by (rule sorted_wrt_mono_rel [rotated]) auto
  then show "sorted (rev (map snd (by_count cs)))"
    by (simp add: sorted_wrt_rev sorted_wrt_map)
qed (simp add: by_count_def)

text \<open>Two spellings of one instant give the same moment, whatever their offsets.\<close>

lemma as_utc_instant:
  assumes "parse (strip a) = Some (s, Some u)" and "parse (strip b) = Some (t, Some v)"
    and "int s - u = int t - v"
  shows "as_utc parse now (Some a) = as_utc parse now (Some b)"
  by (simp only: as_utc_def assms option.case prod.case)

section \<open>Reading the policy output\<close>

text \<open>The first column of the tables with a title, and the names listed under a key of the JSON value.\<close>

definition table_tests :: "string \<Rightarrow> printed list \<Rightarrow> string list" where
  "table_tests title out =
     concat (map (\<lambda>p. case p of
         Out (Grid (Some t) _ cells) \<Rightarrow> if t = title then map hd cells else []
       | _ \<Rightarrow> []) out)"

definition json_tests :: "string \<Rightarrow> json \<Rightarrow> string list" where
  "json_tests key j = map (\<lambda>r. string_of (member ''test'' r)) (elements (member key j))"

text \<open>The refusals worth a line, read off the JSON value.\<close>

definition json_refusals :: "json \<Rightarrow> (string \<times> string) list" where
  "json_refusals j =
     filter (\<lambda>(t, reason). reason \<notin> {''not_flaky'', ''verdict_ineligible''})
       (map (\<lambda>r. (string_of (member ''test'' r), string_of (member ''refusal'' r))) (elements (member ''refusals'' j)))"

definition refusal_line :: "string \<times> string \<Rightarrow> printed" where
  "refusal_line f = Out (Line (''  [dim]'' @ fst f @ '': '' @ snd f @ ''[/dim]''))"

definition is_refusal_line :: "printed \<Rightarrow> bool" where
  "is_refusal_line p = (case p of Out (Line l) \<Rightarrow> prefix ''  [dim]'' l | _ \<Rightarrow> False)"

definition READ_ONLY :: printed where
  "READ_ONLY = Err ''[dim]Read-only; pass --apply to record these decisions.[/dim]''"

lemma table_tests_append [simp]: "table_tests t (xs @ ys) = table_tests t xs @ table_tests t ys"
  by (simp add: table_tests_def)

lemma table_tests_simps [simp]:
  "table_tests t [] = []"
  "table_tests t (Out (Line l) # ps) = table_tests t ps"
  "table_tests t (Err e # ps) = table_tests t ps"
  "table_tests t (Out (Grid None cs cells) # ps) = table_tests t ps"
  "table_tests t (Out (Grid (Some t') cs cells) # ps) = (if t' = t then map hd cells else []) @ table_tests t ps"
  by (simp_all add: table_tests_def)

lemma is_refusal_line_simps [simp]:
  "is_refusal_line (Out (Line l)) = prefix ''  [dim]'' l" "\<not> is_refusal_line (Err e)"
  "\<not> is_refusal_line (Out (Grid t cs cells))" "is_refusal_line (refusal_line f)"
  by (simp_all add: is_refusal_line_def refusal_line_def)

lemma table_tests_lines [simp]:
  "table_tests t (map (\<lambda>x. Out (Line (f x))) xs) = []" "table_tests t (map refusal_line fs) = []"
  by (induction xs) (simp_all add: refusal_line_def table_tests_def concat_eq_Nil_conv)

lemma closing_notes_facts:
  "table_tests t (closing_notes e r a) = []" "filter is_refusal_line (closing_notes e r a) = []"
  "READ_ONLY \<in> set (closing_notes e r a) \<longleftrightarrow> \<not> a"
  by (simp_all add: closing_notes_def READ_ONLY_def)

lemma notable_refusals:
  "filter (\<lambda>(t, reason). reason \<notin> {''not_flaky'', ''verdict_ineligible''})
     (map (\<lambda>r. (qr_test r, refusal_value (qr_refusal r))) (filter (\<lambda>r. \<not> qr_recommended r) rs)) =
   map (\<lambda>r. (qr_test r, refusal_value (qr_refusal r))) (notable rs)"
proof -
  have "refusal_value x \<in> {''not_flaky'', ''verdict_ineligible''} \<longleftrightarrow> x \<in> {NOT_FLAKY, VERDICT_INELIGIBLE}" for x
    by (cases x) simp_all
  then show ?thesis
    by (induction rs) (simp_all add: notable_def)
qed

lemma recommendation_output_facts:
  "table_tests ''Quarantine recommendations'' (recommendation_output rs) = map qr_test (filter qr_recommended rs)"
  "table_tests ''Open quarantines'' (recommendation_output rs) = []"
  "filter is_refusal_line (recommendation_output rs) =
     map refusal_line (map (\<lambda>r. (qr_test r, refusal_value (qr_refusal r))) (notable rs))"
  "READ_ONLY \<notin> set (recommendation_output rs)"
proof -
  define lines where "lines = map refusal_line (map (\<lambda>r. (qr_test r, refusal_value (qr_refusal r))) (notable rs))"
  have lines: "map (\<lambda>r. Out (Line (''  [dim]'' @ qr_test r @ '': '' @ refusal_value (qr_refusal r) @ ''[/dim]''))) (notable rs) = lines"
    by (simp add: lines_def refusal_line_def)
  have none: "lines = [] \<longleftrightarrow> notable rs = []" "table_tests t lines = []" "filter is_refusal_line lines = lines"
    "READ_ONLY \<notin> set lines" for t
    unfolding lines_def by (simp_all add: filter_id_conv del: map_map) (auto simp: READ_ONLY_def refusal_line_def)
  have eq: "recommendation_output rs =
      (if filter qr_recommended rs \<noteq> [] then [Out (recommendation_table (filter qr_recommended rs))]
       else [Out (Line ''[green]No new quarantine recommendations.[/green]'')]) @
      (if notable rs \<noteq> [] then [Out (Line []), Out (Line ''[dim]Not recommended:[/dim]'')] @ lines else [])"
    unfolding recommendation_output_def Let_def lines ..
  show "table_tests ''Quarantine recommendations'' (recommendation_output rs) = map qr_test (filter qr_recommended rs)"
    "table_tests ''Open quarantines'' (recommendation_output rs) = []"
    "filter is_refusal_line (recommendation_output rs) =
       map refusal_line (map (\<lambda>r. (qr_test r, refusal_value (qr_refusal r))) (notable rs))"
    "READ_ONLY \<notin> set (recommendation_output rs)"
    using none unfolding eq lines_def [symmetric]
    by (auto simp: recommendation_table_def recommendation_row_def READ_ONLY_def comp_def)
qed

lemma those_map_option: "those (map (\<lambda>x. map_option (f x) (g x)) xs) =
   map_option (\<lambda>ys. map (\<lambda>(x, y). f x y) (zip xs ys)) (those (map g xs))"
  by (induction xs) (auto split: option.split simp: option.map_comp comp_def)

lemma those_length: "those xs = Some ys \<Longrightarrow> length ys = length xs"
  by (auto simp: those_Some)

text \<open>The rows of the table and the records of the JSON value need the same look-ahead.\<close>

lemma open_quarantines:
  "(those (map (quarantine_row_cells now) rs) = None) = (those (map (record_dict now) rs) = None)"
  "those (map (quarantine_row_cells now) rs) = Some cells \<Longrightarrow> map hd cells = map qc_test rs"
  "those (map (record_dict now) rs) = Some dicts \<Longrightarrow> map (\<lambda>r. string_of (member ''test'' r)) dicts = map qc_test rs"
proof -
  have first: "map h (map (\<lambda>(x, y). f x y) (zip rs ys)) = map qc_test rs"
    if "length ys = length rs" "\<And>x y. h (f x y) = qc_test x" for h ys and f :: "quarantine_record \<Rightarrow> bool \<Rightarrow> 'b"
    using that by (induction ys rs rule: list_induct2) simp_all
  note defs = quarantine_row_cells_def [abs_def] record_dict_def [abs_def] those_map_option
  show "(those (map (quarantine_row_cells now) rs) = None) = (those (map (record_dict now) rs) = None)"
    by (simp add: defs)
  show "those (map (quarantine_row_cells now) rs) = Some cells \<Longrightarrow> map hd cells = map qc_test rs"
    by (auto simp: defs simp del: map_map intro!: first dest: those_length)
  show "those (map (record_dict now) rs) = Some dicts \<Longrightarrow> map (\<lambda>r. string_of (member ''test'' r)) dicts = map qc_test rs"
    by (auto simp: defs simp del: map_map intro!: first dest: those_length)
qed


end
