(* ===== verification/Prompt_Text.thy ===== *)
theory Prompt_Text
  imports Classifier Json_Reading
begin

text \<open>
  The texts the classifier sends (\<open>classify/prompt.py\<close>, \<open>classify/taxonomy.py\<close>, the descriptions in
  \<open>classify/schema.py\<close>), word for word, how they are put together, and the version recorded with
  every answer. They instantiate the \<open>prompt_texts\<close> of the classifier.
\<close>

section \<open>The texts\<close>

definition PROMPT_VERSION :: string where
  "PROMPT_VERSION = ''2026-07-30.1''"

definition SYSTEM_PROMPT_LINES :: "string list" where
  "SYSTEM_PROMPT_LINES =
     [''You classify the likely cause of a failing or flaky software test into a fixed '' @
      ''taxonomy. You are one input to a triage tool; a deterministic policy engine makes every '' @
      ''decision that changes CI state. Your job is to read the evidence accurately, not to be '' @
      ''helpful about it.'',
      [],
      ''Rules, in order of importance:'',
      [],
      ''1. UNKNOWN is a correct and expected answer. Use it whenever the evidence supports two '' @
      ''causes equally well, or supports none specifically. An honest UNKNOWN is more useful '' @
      ''than a plausible guess, because a guess will be read as a finding.'',
      ''2. Every non-UNKNOWN answer must cite concrete evidence: strings quoted or referenced '' @
      ''from the input you were given. If you cannot point at anything, the answer is UNKNOWN. '' @
      ''Do not invent file names, symbols, or log lines.'',
      ''3. Report REAL_REGRESSION when the evidence indicates a genuine defect, even though the '' @
      ''test was flagged as a flake candidate. A real bug dismissed as noise is the most '' @
      ''expensive error this tool can make.'',
      ''4. Report INFRA_FLAKE only when the failure is at the harness or scheduler level with '' @
      ''no test assertion involved. Blaming a test author for a platform outage destroys trust '' @
      ''in the tool.'',
      ''5. Distinguish an assertion failure from a harness error. An assertion failure means '' @
      ''the framework ran the test and the check did not hold, which points at the code under '' @
      ''test. A harness error points at the environment.'',
      [],
      ''Cause codes and the evidence that supports each:'',
      [],
      ''{taxonomy}'',
      [],
      ''Set confidence to how well the evidence supports the cause: above 0.8 only when the '' @
      ''trace or history names the mechanism directly, 0.5-0.8 when the evidence is consistent '' @
      ''with the cause but also with others, below 0.5 when you are guessing -- and if you are '' @
      ''guessing, answer UNKNOWN instead.'']"

definition SYSTEM_PROMPT :: string where
  "SYSTEM_PROMPT = join [LF] SYSTEM_PROMPT_LINES"

definition REPAIR_INSTRUCTION_LINES :: "string list" where
  "REPAIR_INSTRUCTION_LINES =
     [''Your previous response could not be parsed against the required schema. Reason: '' @
      ''{reason}.'',
      [],
      ''Return only a JSON object with exactly these keys: cause (one of the listed codes), '' @
      ''confidence (number 0.0-1.0), reasoning (string), evidence (array of strings), '' @
      ''suggested_action (string), abstained (boolean). No prose, no code fence. If you are '' @
      ''unsure, return cause UNKNOWN with abstained true.'']"

definition REPAIR_INSTRUCTION :: string where
  "REPAIR_INSTRUCTION = join [LF] REPAIR_INSTRUCTION_LINES"

definition PREFILTER_SYSTEM_PROMPT_LINES :: "string list" where
  "PREFILTER_SYSTEM_PROMPT_LINES =
     [''You are a cost gate in front of a more expensive classifier. Your only job is to skip '' @
      ''failures that contain no usable detail at all. You are NOT deciding what caused the '' @
      ''failure, and you are NOT judging whether the cause is obvious.'',
      [],
      ''Set classifiable = true if ANY of these is present:'',
      ''- a named exception or error type (for example ConnectionResetError, AssertionError, '' @
      ''TimeoutError)'',
      ''- a failure message with any specific content, even a generic-sounding one'',
      ''- a stack trace with any file or line reference'',
      ''- a note that failures are confined to particular shards'',
      [],
      ''Set classifiable = false ONLY when the input has none of the above: an empty or missing '' @
      ''message, a bare '' @ [CHR 0x22] @ ''test failed'' @ [CHR 0x22] @ '', or a trace that was truncated away.'',
      [],
      ''A named exception type always counts as usable detail, however ordinary it looks. When '' @
      ''in doubt, set true: a wrong false silently loses a classification, while a wrong true '' @
      ''costs one call.'']"

definition PREFILTER_SYSTEM_PROMPT :: string where
  "PREFILTER_SYSTEM_PROMPT = join [LF] PREFILTER_SYSTEM_PROMPT_LINES"

fun CAUSE_GUIDANCE :: "cause_code \<Rightarrow> string" where
  "CAUSE_GUIDANCE RACE_CONDITION =
     ''Concurrency or ordering nondeterminism inside the code under test. Evidence: '' @
     ''intermittent assertion failures on shared state; thread, executor or goroutine names in '' @
     ''the trace; failures that depend on interleaving rather than on elapsed time.''"
| "CAUSE_GUIDANCE TIMING_DEPENDENCY =
     ''The test depends on wall-clock time, a sleep, or a timeout. Evidence: sleep calls, '' @
     ''timeout exceptions, deadline exceeded, failures correlated with slow runs or loaded '' @
     ''runners.''"
| "CAUSE_GUIDANCE TEST_ORDER_DEPENDENCY =
     ''The test passes alone and fails in a particular suite order. Evidence: failure confined '' @
     ''to one shard; state that a prior test must have set; passes on rerun in isolation.''"
| "CAUSE_GUIDANCE EXTERNAL_DEPENDENCY =
     ''Network, third-party service, DNS, or container startup. Evidence: connection refused '' @
     ''or reset, TLS errors, 5xx from an external host, DNS resolution failure, service not '' @
     ''ready.''"
| "CAUSE_GUIDANCE SHARED_STATE_LEAK =
     ''State not reset between tests: database rows, globals, temp files, caches. Evidence: '' @
     ''unique-constraint violations, stale reads, a value left over from another test, passes '' @
     ''after a cleanup step.''"
| "CAUSE_GUIDANCE RESOURCE_EXHAUSTION =
     ''The test or its environment ran out of something. Evidence: out of memory, too many '' @
     ''open files, port already in use, disk full, process killed for resource use.''"
| "CAUSE_GUIDANCE INFRA_FLAKE =
     ''The platform'' @ [CHR 0x27] @ ''s own fault, not the test'' @ [CHR 0x27] @ ''s: worker preemption, image pull failure, runner '' @
     ''crash. Evidence: no test assertion failure is present at all -- the error is at the '' @
     ''harness or scheduler level.''"
| "CAUSE_GUIDANCE REAL_REGRESSION =
     ''A genuine defect introduced by the change under test. Evidence: the failure is '' @
     ''deterministic rather than intermittent, and it aligns with a diff touching code on the '' @
     ''failing path. Choose this even though the test was reported as a flake candidate, if '' @
     ''the evidence says so -- a real bug dismissed as noise is the costliest possible outcome.''"
| "CAUSE_GUIDANCE UNKNOWN =
     ''Insufficient or contradictory evidence. This is a correct and expected answer, not a '' @
     ''failure. Use it whenever the evidence supports two causes equally well, or supports '' @
     ''none specifically.''"

definition FIELD_DESCRIPTIONS :: "(string \<times> string) list" where
  "FIELD_DESCRIPTIONS =
     [(''cause'',
       ''The single most likely cause, from the fixed taxonomy.''),
      (''confidence'',
       ''How well the evidence supports the chosen cause, between 0.0 and 1.0 inclusive. The '' @
       ''range is stated here rather than as schema bounds because the API does not accept them; '' @
       ''a value outside it is rejected on validation.''),
      (''reasoning'',
       ''At most three sentences explaining the choice.''),
      (''evidence'',
       ''Concrete observations quoted or referenced from the input. Must be non-empty unless '' @
       ''cause is UNKNOWN.''),
      (''suggested_action'',
       ''At most two sentences of remediation advice.''),
      (''abstained'',
       ''True when declining to assign a cause.''),
      (''classifiable'',
       ''True if the input contains any usable failure detail.'')]"

section \<open>Putting them together\<close>

text \<open>
  \<open>str.format\<close> with named fields: doubled braces stand for themselves, a field without a value, an
  open field and a lone closing brace raise. Conversions and format specifications do not occur.
\<close>

function format_with :: "(string \<times> string) list \<Rightarrow> string \<Rightarrow> string option" where
  "format_with env [] = Some []"
| "format_with env (c # s) =
     (if c = CHR ''{'' then
        (if prefix ''{'' s then map_option (\<lambda>r. c # r) (format_with env (tl s))
         else
           (case dropWhile (\<lambda>x. x \<noteq> CHR ''}'') s of
              [] \<Rightarrow> None
            | _ # rest \<Rightarrow>
                (case map_of env (takeWhile (\<lambda>x. x \<noteq> CHR ''}'') s) of
                   None \<Rightarrow> None
                 | Some v \<Rightarrow> map_option (\<lambda>r. v @ r) (format_with env rest))))
      else if c = CHR ''}'' then
        (if prefix ''}'' s then map_option (\<lambda>r. c # r) (format_with env (tl s)) else None)
      else map_option (\<lambda>r. c # r) (format_with env s))"
  by pat_completeness auto
termination
proof (relation "measure (length \<circ> snd)", goal_cases)
  case (3 env c s x21 x22 x2)
  then have "length (x21 # x22) \<le> length s"
    using length_dropWhile_le [of "\<lambda>x. x \<noteq> CHR ''}''" s] by simp
  then show ?case by simp
qed auto

definition taxonomy_lines :: "string list" where
  "taxonomy_lines = map (\<lambda>c. ''- '' @ cause_value c @ '': '' @ CAUSE_GUIDANCE c) all_causes"

definition taxonomy :: string where
  "taxonomy = join [LF] taxonomy_lines"

definition system_prompt :: "string option" where
  "system_prompt = format_with [(''taxonomy'', taxonomy)] SYSTEM_PROMPT"

definition repair_text :: "string \<Rightarrow> string option" where
  "repair_text reason = format_with [(''reason'', reason)] REPAIR_INSTRUCTION"

definition prompt_version_hash :: "(string \<Rightarrow> string) \<Rightarrow> string option" where
  "prompt_version_hash sha256 =
     map_option (\<lambda>system. PROMPT_VERSION @ ''+'' @
       take 12 (sha256 (PROMPT_VERSION @ system @ REPAIR_INSTRUCTION @ PREFILTER_SYSTEM_PROMPT)))
       system_prompt"

definition describe :: "string \<Rightarrow> string" where
  "describe f = text_of (map_of FIELD_DESCRIPTIONS f)"

text \<open>The texts of a classifier, as far as the formatting succeeds.\<close>

definition shipped_texts :: "(string \<Rightarrow> string) \<Rightarrow> prompt_texts option" where
  "shipped_texts sha256 =
     (case (prompt_version_hash sha256, system_prompt) of
        (Some version, Some system) \<Rightarrow>
          Some \<lparr>pt_version = version, pt_system = system, pt_prefilter_system = PREFILTER_SYSTEM_PROMPT,
            pt_repair = (\<lambda>reason. text_of (repair_text reason)),
            pt_description = describe\<rparr>
      | _ \<Rightarrow> None)"

section \<open>The prompt offers what the schema accepts\<close>

definition plain_text :: "string \<Rightarrow> bool" where
  "plain_text s \<longleftrightarrow> list_all (\<lambda>c. c \<noteq> CHR ''{'' \<and> c \<noteq> CHR ''}'') s"

lemma format_plain: "plain_text a \<Longrightarrow> format_with env (a @ s) = map_option (\<lambda>r. a @ r) (format_with env s)"
proof (induction a)
  case Nil
  then show ?case by (cases "format_with env s") simp_all
next
  case (Cons c a)
  then show ?case by (cases "format_with env s") (auto simp: plain_text_def)
qed

lemma format_field:
  assumes "plain_text k" and "map_of env k = Some v"
  shows "format_with env (CHR ''{'' # k @ CHR ''}'' # s) = map_option (\<lambda>r. v @ r) (format_with env s)"
proof -
  have "takeWhile (\<lambda>x. x \<noteq> CHR ''}'') (k @ CHR ''}'' # s) = k" "dropWhile (\<lambda>x. x \<noteq> CHR ''}'') (k @ CHR ''}'' # s) = CHR ''}'' # s"
    using assms(1) by (induction k) (simp_all add: plain_text_def)
  moreover have "\<not> prefix ''{'' (k @ CHR ''}'' # s)"
    using assms(1) by (cases k) (auto simp: plain_text_def)
  ultimately show ?thesis using assms(2) by simp
qed

text \<open>A template with one field.\<close>

lemma format_one_field:
  assumes "template = a @ CHR ''{'' # k @ CHR ''}'' # b" and "plain_text a" and "plain_text k" and "plain_text b"
  shows "format_with [(k, v)] template = Some (a @ v @ b)"
proof -
  have "format_with [(k, v)] b = Some b"
    using format_plain [OF assms(4), of "[(k, v)]" "[]"] by simp
  then show ?thesis
    unfolding assms(1) by (simp only: format_plain [OF assms(2)] format_field [OF assms(3)] map_of.simps fst_conv snd_conv
        fun_upd_same option.map)
qed

lemma plain_join: "list_all plain_text ls \<Longrightarrow> plain_text (join [LF] ls)"
  by (induction ls rule: induct_list012) (simp_all add: plain_text_def)

lemma join_split_line: "join sep (us @ (p @ f @ q) # vs) = join sep (us @ [p]) @ f @ join sep (q # vs)"
proof (induction us)
  case Nil
  then show ?case by (cases vs) simp_all
next
  case (Cons u us)
  then show ?case by (simp add: join_starts)
qed

text \<open>A template of lines with one field in one of them.\<close>

lemma format_lines:
  assumes "ls = us @ (p @ (CHR ''{'' # k @ ''}'') @ q) # vs"
    and "list_all plain_text (us @ [p])" and "plain_text k" and "list_all plain_text (q # vs)"
  shows "format_with [(k, v)] (join [LF] ls) = Some (join [LF] (us @ (p @ v @ q) # vs))"
proof -
  have "format_with [(k, v)] (join [LF] ls) = Some (join [LF] (us @ [p]) @ v @ join [LF] (q # vs))"
    unfolding assms(1) join_split_line
    by (rule format_one_field [OF _ plain_join [OF assms(2)] assms(3) plain_join [OF assms(4)]]) simp
  then show ?thesis by (simp only: join_split_line)
qed

lemma system_prompt_eq:
  "system_prompt = Some (join [LF] (take 12 SYSTEM_PROMPT_LINES @ taxonomy # drop 13 SYSTEM_PROMPT_LINES))"
proof -
  have "SYSTEM_PROMPT_LINES = take 12 SYSTEM_PROMPT_LINES @ ([] @ (CHR ''{'' # ''taxonomy'' @ ''}'') @ []) # drop 13 SYSTEM_PROMPT_LINES"
    by (simp add: SYSTEM_PROMPT_LINES_def)
  moreover have "list_all plain_text (take 12 SYSTEM_PROMPT_LINES @ [[]])" "plain_text ''taxonomy''"
    "list_all plain_text ([] # drop 13 SYSTEM_PROMPT_LINES)"
    by (simp_all add: SYSTEM_PROMPT_LINES_def plain_text_def)
  ultimately show ?thesis
    unfolding system_prompt_def SYSTEM_PROMPT_def
    using format_lines [of SYSTEM_PROMPT_LINES "take 12 SYSTEM_PROMPT_LINES" "[]" "''taxonomy''" "[]"] by simp
qed

lemma repair_text_eq:
  "\<exists>before after. repair_text reason = Some (before @ reason @ after)"
proof -
  have lines: "REPAIR_INSTRUCTION_LINES =
      [] @ (takeWhile (\<lambda>c. c \<noteq> CHR ''{'') (hd REPAIR_INSTRUCTION_LINES) @ (CHR ''{'' # ''reason'' @ ''}'') @ ''.'') #
      tl REPAIR_INSTRUCTION_LINES"
    by (simp add: REPAIR_INSTRUCTION_LINES_def)
  have "list_all plain_text ([] @ [takeWhile (\<lambda>c. c \<noteq> CHR ''{'') (hd REPAIR_INSTRUCTION_LINES)])" "plain_text ''reason''"
    "list_all plain_text (''.'' # tl REPAIR_INSTRUCTION_LINES)"
    by (simp_all add: REPAIR_INSTRUCTION_LINES_def plain_text_def)
  from format_lines [OF lines this] show ?thesis
    unfolding repair_text_def REPAIR_INSTRUCTION_def join_split_line by auto
qed

text \<open>The codes of a prompt: what stands before the colon in the lines that begin with a dash.\<close>

definition bulleted :: "string \<Rightarrow> string list" where
  "bulleted t = map (\<lambda>l. takeWhile (\<lambda>c. c \<noteq> CHR '':'') (drop 2 l)) (filter (prefix ''- '') (split_on LF t))"

lemma split_on_none: "c \<notin> set s \<Longrightarrow> split_on c s = [s]"
  by (induction s) auto

lemma split_join: "list_all (\<lambda>l. c \<notin> set l) ls \<Longrightarrow> ls \<noteq> [] \<Longrightarrow> split_on c (join [c] ls) = ls"
  by (induction ls rule: induct_list012) (simp_all add: split_on_none split_on_append)

lemma join_flatten: "ts \<noteq> [] \<Longrightarrow> join [c] (us @ join [c] ts # vs) = join [c] (us @ ts @ vs)"
proof (induction us)
  case Nil
  then show ?case
    by (cases "vs = []") (simp_all add: join_starts join_append)
next
  case (Cons u us)
  then show ?case by (simp add: join_starts)
qed

lemma guidance_one_line: "LF \<notin> set (CAUSE_GUIDANCE c)"
  by (cases c) simp_all

lemma prompt_lines:
  "map_option (split_on LF) system_prompt =
     Some (take 12 SYSTEM_PROMPT_LINES @ taxonomy_lines @ drop 13 SYSTEM_PROMPT_LINES)"
proof -
  have "LF \<notin> set (cause_value c)" for c by (cases c) simp_all
  then have "list_all (\<lambda>l. LF \<notin> set l) taxonomy_lines"
    by (simp add: taxonomy_lines_def list_all_iff guidance_one_line)
  moreover have "list_all (\<lambda>l. LF \<notin> set l) (take 12 SYSTEM_PROMPT_LINES)" "list_all (\<lambda>l. LF \<notin> set l) (drop 13 SYSTEM_PROMPT_LINES)"
    by (simp_all add: SYSTEM_PROMPT_LINES_def)
  moreover have "taxonomy_lines \<noteq> []" by (simp add: taxonomy_lines_def all_causes_def)
  ultimately show ?thesis
    by (simp add: system_prompt_eq taxonomy_def join_flatten split_join)
qed

lemma bulleted_system: "map_option bulleted system_prompt = Some (map cause_value all_causes)"
proof -
  obtain t where t: "system_prompt = Some t" using system_prompt_eq by blast
  then have ls: "split_on LF t = take 12 SYSTEM_PROMPT_LINES @ taxonomy_lines @ drop 13 SYSTEM_PROMPT_LINES"
    using prompt_lines by (metis option.map(2) option.inject)
  have "filter (prefix ''- '') (take 12 SYSTEM_PROMPT_LINES) = []" "filter (prefix ''- '') (drop 13 SYSTEM_PROMPT_LINES) = []"
    by (simp_all add: SYSTEM_PROMPT_LINES_def)
  moreover have "filter (prefix ''- '') taxonomy_lines = taxonomy_lines"
    by (simp add: taxonomy_lines_def filter_id_conv)
  moreover have "takeWhile (\<lambda>c. c \<noteq> CHR '':'') (cause_value c @ '': '' @ g) = cause_value c" for c g
    by (cases c) simp_all
  ultimately show ?thesis
    by (simp add: t bulleted_def ls) (simp add: taxonomy_lines_def)
qed

definition offered_causes :: "json \<Rightarrow> string list" where
  "offered_causes schema =
     (case member ''properties'' schema of
        Some ps \<Rightarrow> (case member ''cause'' ps of
           Some c \<Rightarrow> map (\<lambda>j. string_of (Some j)) (elements (member ''enum'' c))
         | None \<Rightarrow> [])
      | None \<Rightarrow> [])"

text \<open>
  C9. The prompt, the schema and the validation speak of the same causes: formatting the system
  prompt never fails, the codes it explains, one line each, are in number and order those the
  schema sent with it allows, every one of them and nothing else is accepted when the answer is
  read back, and the text asking for a repair names the reason it is given, whatever it is.
\<close>

theorem prompt_and_schema_agree:
  "\<exists>system texts. system_prompt = Some system \<and> shipped_texts sha256 = Some texts \<and> pt_system texts = system \<and>
     bulleted system = offered_causes (json_schema (pt_description texts)) \<and> distinct (bulleted system) \<and>
     (\<forall>v. v \<in> set (bulleted system) \<longleftrightarrow> as_cause (JStr v) \<noteq> None) \<and>
     (\<forall>reason. sublist reason (pt_repair texts reason))"
proof -
  obtain t where t: "system_prompt = Some t" using system_prompt_eq by blast
  obtain texts where texts: "shipped_texts sha256 = Some texts" "pt_system texts = t"
    "pt_repair texts = (\<lambda>reason. text_of (repair_text reason))"
    unfolding shipped_texts_def prompt_version_hash_def t by simp
  have b: "bulleted t = map cause_value all_causes" using bulleted_system t by (metis option.map(2) option.inject)
  have "offered_causes (json_schema d) = map cause_value all_causes" for d
    by (simp add: offered_causes_def json_schema_def comp_def)
  moreover have "distinct (map cause_value all_causes)"
    by (simp add: all_causes_def)
  moreover have "v \<in> set (map cause_value all_causes) \<longleftrightarrow> as_cause (JStr v) \<noteq> None" for v
    by (auto simp: as_cause_def find_None_iff)
  moreover have "sublist reason (pt_repair texts reason)" for reason
    using repair_text_eq [of reason] by (auto simp: texts(3))
  ultimately show ?thesis using t texts(1,2) b by auto
qed

end
