(* ===== verification/Model_Client.thy ===== *)
theory Model_Client
  imports Classifier
begin

text \<open>
  The model client (\<open>classify/client.py\<close>): the request it builds, the retry without temperature, and
  the conversion of every documented failure of the SDK into a response. The API is the parameter
  \<open>api\<close>: what the n-th attempt gives and how long it took.
\<close>

section \<open>The program\<close>

text \<open>A content block carries a text or none; a response counts its tokens.\<close>

datatype api_outcome =
    ApiResponse "string option list" nat nat
  | BadRequestError string
  | RateLimitError
  | APITimeoutError
  | APIConnectionError
  | APIStatusError nat
  | AnthropicError

record api_request =
  ar_model :: string
  ar_system :: string
  ar_user :: string
  ar_max_tokens :: nat
  ar_temperature :: "pyfloat option"
  ar_schema :: "json option"

record client_state =
  ac_no_temperature :: "string set"
  ac_attempts :: nat

definition TEMPERATURE_REJECTION_MARKERS :: "string list" where
  "TEMPERATURE_REJECTION_MARKERS = [''temperature'', ''deprecated'']"

definition is_temperature_rejection :: "string \<Rightarrow> bool" where
  "is_temperature_rejection message =
     list_all (contains (str_lower message)) TEMPERATURE_REJECTION_MARKERS"

fun first_text_block :: "string option list \<Rightarrow> string option" where
  "first_text_block [] = None"
| "first_text_block (b # bs) =
     (case b of
        None \<Rightarrow> first_text_block bs
      | Some t \<Rightarrow> if strip t \<noteq> [] then Some t else first_text_block bs)"

definition failure :: "pyfloat \<Rightarrow> string \<Rightarrow> model_response" where
  "failure latency reason =
     \<lparr>mr_text = None, mr_input_tokens = 0, mr_output_tokens = 0, mr_latency_ms = latency,
      mr_error = Some reason\<rparr>"

definition response_of :: "api_outcome \<Rightarrow> pyfloat \<Rightarrow> model_response" where
  "response_of out latency =
     (case out of
        ApiResponse blocks i n \<Rightarrow>
          \<lparr>mr_text = first_text_block blocks, mr_input_tokens = i, mr_output_tokens = n,
           mr_latency_ms = latency, mr_error = None\<rparr>
      | BadRequestError message \<Rightarrow> failure latency ''bad_request''
      | RateLimitError \<Rightarrow> failure latency ''rate_limited''
      | APITimeoutError \<Rightarrow> failure latency ''timeout''
      | APIConnectionError \<Rightarrow> failure latency ''connection_error''
      | APIStatusError status_code \<Rightarrow> failure latency (''http_'' @ show_nat status_code)
      | AnthropicError \<Rightarrow> failure latency ''sdk_error'')"

definition rejected_temperature :: "api_outcome \<Rightarrow> bool" where
  "rejected_temperature out =
     (case out of BadRequestError message \<Rightarrow> is_temperature_rejection message | _ \<Rightarrow> False)"

function complete ::
  "(nat \<Rightarrow> api_request \<Rightarrow> api_outcome \<times> pyfloat) \<Rightarrow> api_request \<Rightarrow> client_state \<Rightarrow>
   model_response \<times> client_state" where
  "complete api rq s =
     (let send_temperature = ar_temperature rq \<noteq> None \<and> ar_model rq \<notin> ac_no_temperature s;
          (out, latency) = api (ac_attempts s)
            (rq\<lparr>ar_temperature := if send_temperature then ar_temperature rq else None\<rparr>);
          s1 = s\<lparr>ac_attempts := ac_attempts s + 1\<rparr>
      in if send_temperature \<and> rejected_temperature out
         then complete api (rq\<lparr>ar_temperature := None\<rparr>)
                (s1\<lparr>ac_no_temperature := insert (ar_model rq) (ac_no_temperature s)\<rparr>)
         else (response_of out latency, s1))"
  by pat_completeness auto
termination
  by (relation "measure (\<lambda>(api, rq, s). if ar_temperature rq = None then 0 else 1)") auto

declare complete.simps [simp del]

section \<open>Termination and learning\<close>

lemma complete_plain:
  assumes "ar_temperature rq = None \<or> ar_model rq \<in> ac_no_temperature s"
  shows "complete api rq s =
    (response_of (fst (api (ac_attempts s) (rq\<lparr>ar_temperature := None\<rparr>)))
       (snd (api (ac_attempts s) (rq\<lparr>ar_temperature := None\<rparr>))), s\<lparr>ac_attempts := ac_attempts s + 1\<rparr>)"
proof -
  have "\<not> (ar_temperature rq \<noteq> None \<and> ar_model rq \<notin> ac_no_temperature s)" using assms by auto
  then show ?thesis
    by (subst complete.simps) (simp only: Let_def if_False split_beta simp_thms)
qed


end
