(* ===== verification/Eval_Metrics.thy ===== *)
theory Eval_Metrics
  imports Models Regex "HOL-Library.Multiset"
begin

text \<open>
  Scoring a classifier against labels, and the keyword baseline it is compared with
  (\<open>eval/metrics.py\<close>, \<open>eval/baseline.py\<close>). The counters a score updates in place are the fields of a
  record; its dictionaries are association lists in insertion order.
\<close>

section \<open>The score\<close>

record class_metrics =
  cx_support :: nat
  cx_predicted :: nat
  cx_true_positive :: nat

definition rate_of :: "nat \<Rightarrow> nat \<Rightarrow> pyfloat" where
  "rate_of a b = (if b \<noteq> 0 then of_nat a / of_nat b else 0)"

definition precision :: "class_metrics \<Rightarrow> pyfloat" where
  "precision c = rate_of (cx_true_positive c) (cx_predicted c)"

definition recall :: "class_metrics \<Rightarrow> pyfloat" where
  "recall c = rate_of (cx_true_positive c) (cx_support c)"

definition f1 :: "class_metrics \<Rightarrow> pyfloat" where
  "f1 c = (let denominator = precision c + recall c in
     if denominator = 0 then 0 else 2 * precision c * recall c / denominator)"

record eval_report =
  ev_name :: string
  ev_total :: nat
  ev_correct :: nat
  ev_abstentions :: nat
  ev_dangerous_errors :: nat
  ev_regression_support :: nat
  ev_adversarial_total :: nat
  ev_adversarial_correct :: nat
  ev_per_class :: "(cause_code \<times> class_metrics) list"
  ev_confusion :: "((cause_code \<times> cause_code) \<times> nat) list"
  ev_downgrade_reasons :: "(string \<times> nat) list"

definition accuracy :: "eval_report \<Rightarrow> pyfloat" where
  "accuracy r = rate_of (ev_correct r) (ev_total r)"

definition eval_abstention_rate :: "eval_report \<Rightarrow> pyfloat" where
  "eval_abstention_rate r = rate_of (ev_abstentions r) (ev_total r)"

definition answered :: "eval_report \<Rightarrow> nat" where
  "answered r = ev_total r - ev_abstentions r"

definition answered_correct :: "eval_report \<Rightarrow> nat" where
  "answered_correct r =
     sum_list (map snd (filter (\<lambda>((truth, predicted), n). truth = predicted \<and> predicted \<noteq> UNKNOWN) (ev_confusion r)))"

definition accuracy_when_answering :: "eval_report \<Rightarrow> pyfloat" where
  "accuracy_when_answering r = rate_of (answered_correct r) (answered r)"

definition dangerous_error_rate :: "eval_report \<Rightarrow> pyfloat" where
  "dangerous_error_rate r = rate_of (ev_dangerous_errors r) (ev_regression_support r)"

definition adversarial_accuracy :: "eval_report \<Rightarrow> pyfloat" where
  "adversarial_accuracy r = rate_of (ev_adversarial_correct r) (ev_adversarial_total r)"

definition macro_f1 :: "eval_report \<Rightarrow> pyfloat" where
  "macro_f1 r =
     (let scored = map (f1 \<circ> snd) (filter (\<lambda>(c, m). cx_support m \<noteq> 0) (ev_per_class r))
      in if scored \<noteq> [] then sum_list scored / of_nat (length scored) else 0)"

text \<open>\<open>d[k] = d.get(k, 0) + 1\<close>, and an update of a key that is present.\<close>

fun bump :: "'k \<Rightarrow> ('k \<times> nat) list \<Rightarrow> ('k \<times> nat) list" where
  "bump k [] = [(k, 1)]"
| "bump k ((k', n) # al) = (if k' = k then (k', n + 1) # al else (k', n) # bump k al)"

definition at_key :: "'k \<Rightarrow> ('v \<Rightarrow> 'v) \<Rightarrow> ('k \<times> 'v) list \<Rightarrow> ('k \<times> 'v) list" where
  "at_key k f al = map (\<lambda>(k', v). (k', if k' = k then f v else v)) al"

definition one_if :: "bool \<Rightarrow> nat" where
  "one_if b = (if b then 1 else 0)"

datatype eval_error = ValueError | IndexError

text \<open>One pass of the loop: label, prediction, adversarial flag and downgrade reason.\<close>

definition score_step ::
  "cause_code \<Rightarrow> cause_code \<Rightarrow> bool \<Rightarrow> string \<Rightarrow> eval_report \<Rightarrow> eval_report" where
  "score_step truth predicted flag reason r =
     r\<lparr>ev_per_class :=
         (let c1 = at_key truth (\<lambda>m. m\<lparr>cx_support := cx_support m + 1\<rparr>) (ev_per_class r);
              c2 = at_key predicted (\<lambda>m. m\<lparr>cx_predicted := cx_predicted m + 1\<rparr>) c1
          in if truth = predicted
             then at_key truth (\<lambda>m. m\<lparr>cx_true_positive := cx_true_positive m + 1\<rparr>) c2 else c2),
       ev_confusion := bump (truth, predicted) (ev_confusion r),
       ev_correct := ev_correct r + one_if (truth = predicted),
       ev_abstentions := ev_abstentions r + one_if (predicted = UNKNOWN),
       ev_regression_support := ev_regression_support r + one_if (truth = REAL_REGRESSION),
       ev_dangerous_errors :=
         ev_dangerous_errors r + one_if (truth = REAL_REGRESSION \<and> is_flake_category predicted),
       ev_adversarial_total := ev_adversarial_total r + one_if flag,
       ev_adversarial_correct := ev_adversarial_correct r + one_if (flag \<and> truth = predicted),
       ev_downgrade_reasons :=
         (if reason \<noteq> [] \<and> reason \<noteq> ''none'' then bump reason (ev_downgrade_reasons r)
          else ev_downgrade_reasons r)\<rparr>"

fun score_loop ::
  "(cause_code \<times> cause_code) list \<Rightarrow> bool list \<Rightarrow> string list \<Rightarrow> eval_report \<Rightarrow> eval_error + eval_report" where
  "score_loop [] flags reasons r = Inr r"
| "score_loop ((truth, predicted) # ps) (flag # flags) (reason # reasons) r =
     score_loop ps flags reasons (score_step truth predicted flag reason r)"
| "score_loop (p # ps) _ _ r = Inl IndexError"

definition empty_report :: "string \<Rightarrow> nat \<Rightarrow> eval_report" where
  "empty_report name n =
     \<lparr>ev_name = name, ev_total = n, ev_correct = 0, ev_abstentions = 0, ev_dangerous_errors = 0,
      ev_regression_support = 0, ev_adversarial_total = 0, ev_adversarial_correct = 0,
      ev_per_class = map (\<lambda>c. (c, \<lparr>cx_support = 0, cx_predicted = 0, cx_true_positive = 0\<rparr>)) all_causes,
      ev_confusion = [], ev_downgrade_reasons = []\<rparr>"

text \<open>An argument that is absent or empty is replaced by the default of the right length.\<close>

definition or_default :: "'a list option \<Rightarrow> 'a list \<Rightarrow> 'a list" where
  "or_default given fallback = (case given of None \<Rightarrow> fallback | Some xs \<Rightarrow> if xs = [] then fallback else xs)"

definition score ::
  "string \<Rightarrow> cause_code list \<Rightarrow> cause_code list \<Rightarrow> bool list option \<Rightarrow> string list option \<Rightarrow>
   eval_error + eval_report" where
  "score name labels predictions adversarial downgrade_reasons =
     (if length labels \<noteq> length predictions then Inl ValueError
      else score_loop (zip labels predictions)
             (or_default adversarial (replicate (length labels) False))
             (or_default downgrade_reasons (replicate (length labels) []))
             (empty_report name (length labels)))"

section \<open>The score counts pairs\<close>

lemma at_key_keys [simp]: "map fst (at_key k f al) = map fst al"
  by (simp add: at_key_def comp_def split_beta)

lemma map_of_at_key [simp]: "map_of (at_key k f al) = (map_of al)(k := map_option f (map_of al k))"
  by (induction al) (auto simp: at_key_def)

lemma map_of_bump: "map_of (bump k al) = (map_of al)(k \<mapsto> (case map_of al k of None \<Rightarrow> 1 | Some n \<Rightarrow> n + 1))"
  by (induction k al rule: bump.induct) (auto split: option.split)

lemma bump_keys: "fst ` set (bump k al) = insert k (fst ` set al)" "distinct (map fst al) \<Longrightarrow> distinct (map fst (bump k al))"
  by (induction k al rule: bump.induct) auto

definition count_if :: "('a \<Rightarrow> bool) \<Rightarrow> 'a list \<Rightarrow> nat" where
  "count_if P xs = length (filter P xs)"

lemma count_if_simps [simp]:
  "count_if P [] = 0" "count_if P (x # xs) = one_if (P x) + count_if P xs"
  by (simp_all add: count_if_def one_if_def)

lemma count_if_le: "(\<And>x. P x \<Longrightarrow> Q x) \<Longrightarrow> count_if P xs \<le> count_if Q xs"
  unfolding count_if_def by (rule length_filter_mono)

lemma count_if_disjoint: "(\<And>x. P x \<Longrightarrow> \<not> Q x) \<Longrightarrow> count_if P xs + count_if Q xs = count_if (\<lambda>x. P x \<or> Q x) xs"
  by (induction xs) (auto simp: one_if_def)

lemma count_if_length: "count_if P xs \<le> length xs"
  by (simp add: count_if_def)

definition tally :: "('k \<times> nat) list \<Rightarrow> 'k \<Rightarrow> nat" where
  "tally al k = (case map_of al k of None \<Rightarrow> 0 | Some n \<Rightarrow> n)"

lemma tally_Nil: "tally [] k = 0"
  by (simp add: tally_def)

lemma tally_bump: "tally (bump k al) k' = tally al k' + one_if (k = k')"
  by (simp add: tally_def map_of_bump one_if_def split: option.split)

lemma answered_correct_bump:
  "sum_list (map snd (filter (P \<circ> fst) (bump k al))) = sum_list (map snd (filter (P \<circ> fst) al)) + one_if (P k)"
  by (induction k al rule: bump.induct) (auto simp: one_if_def)

lemma score_step_counters [simp]:
  "ev_name (score_step t p f s r) = ev_name r" "ev_total (score_step t p f s r) = ev_total r"
  "ev_correct (score_step t p f s r) = ev_correct r + one_if (t = p)"
  "ev_abstentions (score_step t p f s r) = ev_abstentions r + one_if (p = UNKNOWN)"
  "ev_regression_support (score_step t p f s r) = ev_regression_support r + one_if (t = REAL_REGRESSION)"
  "ev_dangerous_errors (score_step t p f s r) =
     ev_dangerous_errors r + one_if (t = REAL_REGRESSION \<and> is_flake_category p)"
  "ev_adversarial_total (score_step t p f s r) = ev_adversarial_total r + one_if f"
  "ev_adversarial_correct (score_step t p f s r) = ev_adversarial_correct r + one_if (f \<and> t = p)"
  "ev_confusion (score_step t p f s r) = bump (t, p) (ev_confusion r)"
  by (simp_all add: score_step_def)

lemma answered_correct_step:
  "answered_correct (score_step t p f s r) = answered_correct r + one_if (t = p \<and> p \<noteq> UNKNOWN)"
proof -
  have "(\<lambda>((t, p), n). t = p \<and> p \<noteq> UNKNOWN) = (\<lambda>(t, p). t = p \<and> p \<noteq> UNKNOWN) \<circ> (fst :: _ \<times> nat \<Rightarrow> _)"
    by auto
  then show ?thesis by (simp add: answered_correct_def answered_correct_bump)
qed

text \<open>The counts of one class.\<close>

definition class_counts :: "cause_code \<Rightarrow> (cause_code \<times> cause_code) list \<Rightarrow> class_metrics" where
  "class_counts c ps =
     \<lparr>cx_support = count_if (\<lambda>(t, p). t = c) ps, cx_predicted = count_if (\<lambda>(t, p). p = c) ps,
      cx_true_positive = count_if (\<lambda>(t, p). t = c \<and> p = c) ps\<rparr>"

definition plus_metrics :: "class_metrics \<Rightarrow> class_metrics \<Rightarrow> class_metrics" where
  "plus_metrics a b =
     \<lparr>cx_support = cx_support a + cx_support b, cx_predicted = cx_predicted a + cx_predicted b,
      cx_true_positive = cx_true_positive a + cx_true_positive b\<rparr>"

lemma per_class_step:
  "map_of (ev_per_class (score_step t p f s r)) c =
   map_option (\<lambda>m. plus_metrics m (class_counts c [(t, p)])) (map_of (ev_per_class r) c)"
  by (cases "map_of (ev_per_class r) c")
    (auto simp: score_step_def plus_metrics_def class_counts_def one_if_def Let_def)

lemma plus_metrics_none: "plus_metrics m (class_counts c []) = m"
  by (cases m) (simp add: plus_metrics_def class_counts_def)

lemma plus_metrics_counts:
  "plus_metrics (plus_metrics m (class_counts c [p])) (class_counts c ps) = plus_metrics m (class_counts c (p # ps))"
  by (simp add: plus_metrics_def class_counts_def)

lemma score_loop_counts:
  "score_loop ps flags reasons r = Inr r' \<Longrightarrow>
   ev_total r' = ev_total r \<and>
   ev_correct r' = ev_correct r + count_if (\<lambda>(t, p). t = p) ps \<and>
   ev_abstentions r' = ev_abstentions r + count_if (\<lambda>(t, p). p = UNKNOWN) ps \<and>
   ev_regression_support r' = ev_regression_support r + count_if (\<lambda>(t, p). t = REAL_REGRESSION) ps \<and>
   ev_dangerous_errors r' =
     ev_dangerous_errors r + count_if (\<lambda>(t, p). t = REAL_REGRESSION \<and> is_flake_category p) ps \<and>
   answered_correct r' = answered_correct r + count_if (\<lambda>(t, p). t = p \<and> p \<noteq> UNKNOWN) ps \<and>
   (\<forall>k. tally (ev_confusion r') k = tally (ev_confusion r) k + count_if (\<lambda>x. x = k) ps) \<and>
   (\<forall>c. map_of (ev_per_class r') c =
      map_option (\<lambda>m. plus_metrics m (class_counts c ps)) (map_of (ev_per_class r) c))"
proof (induction ps flags reasons r rule: score_loop.induct)
  case (1 flags reasons r)
  then show ?case by (simp add: plus_metrics_none option.map_ident)
next
  case (2 truth predicted ps flag flags reason reasons r)
  note IH = "2.IH" [OF "2.prems" [simplified]]
  have "map_of (ev_per_class r') c =
      map_option (\<lambda>m. plus_metrics m (class_counts c ((truth, predicted) # ps))) (map_of (ev_per_class r) c)" for c
    using IH by (simp add: per_class_step option.map_comp comp_def plus_metrics_counts)
  then show ?case
    using IH by (simp add: tally_bump answered_correct_step)
qed simp_all

lemma map_of_all_causes: "map_of (map (\<lambda>c. (c, f c)) all_causes) c = Some (f c)"
  by (cases c) (simp_all add: all_causes_def)

lemma score_loop_keys: "score_loop ps flags reasons r = Inr r' \<Longrightarrow> map fst (ev_per_class r') = map fst (ev_per_class r)"
  by (induction ps flags reasons r rule: score_loop.induct) (simp_all add: score_step_def Let_def)

lemma score_loop_adversarial:
  "score_loop ps flags reasons r = Inr r' \<Longrightarrow> ev_adversarial_correct r \<le> ev_adversarial_total r \<Longrightarrow>
   ev_adversarial_correct r' \<le> ev_adversarial_total r'"
  by (induction ps flags reasons r rule: score_loop.induct) (simp_all add: one_if_def split: if_splits)

text \<open>Everything the two theorems below need of a score, over the list of pairs.\<close>

lemma score_result:
  assumes "score name labels predictions adversarial reasons = Inr r"
  obtains ps where "length labels = length predictions" and "ps = zip labels predictions"
    and "ev_total r = length ps" and "ev_correct r = count_if (\<lambda>(t, p). t = p) ps"
    and "ev_abstentions r = count_if (\<lambda>(t, p). p = UNKNOWN) ps"
    and "ev_dangerous_errors r = count_if (\<lambda>(t, p). t = REAL_REGRESSION \<and> is_flake_category p) ps"
    and "ev_regression_support r = count_if (\<lambda>(t, p). t = REAL_REGRESSION) ps"
    and "answered_correct r = count_if (\<lambda>(t, p). t = p \<and> p \<noteq> UNKNOWN) ps"
    and "\<And>c. map_of (ev_per_class r) c = Some (class_counts c ps)"
    and "\<And>k. tally (ev_confusion r) k = count_if (\<lambda>x. x = k) ps"
    and "distinct (map fst (ev_per_class r))" and "ev_adversarial_correct r \<le> ev_adversarial_total r"
proof -
  have len: "length labels = length predictions"
    using assms by (auto simp: score_def split: if_splits)
  then have loop: "score_loop (zip labels predictions) (or_default adversarial (replicate (length labels) False))
      (or_default reasons (replicate (length labels) [])) (empty_report name (length labels)) = Inr r"
    using assms by (simp add: score_def)
  have "distinct (map fst (ev_per_class r))"
    using score_loop_keys [OF loop] by (simp add: empty_report_def comp_def all_causes_def)
  moreover have "ev_adversarial_correct r \<le> ev_adversarial_total r"
    by (rule score_loop_adversarial [OF loop]) (simp add: empty_report_def)
  ultimately show thesis
    using score_loop_counts [OF loop] len
    by (intro that [of "zip labels predictions"])
      (simp_all add: empty_report_def map_of_all_causes tally_Nil plus_metrics_def class_counts_def answered_correct_def
        del: split_paired_All)
qed


definition sample_labels :: "cause_code list" where
  "sample_labels = [REAL_REGRESSION, REAL_REGRESSION, RACE_CONDITION]"

definition sample_predictions :: "cause_code list" where
  "sample_predictions = [RACE_CONDITION, UNKNOWN, RACE_CONDITION]"


section \<open>Every figure is a rate\<close>

definition is_rate :: "pyfloat \<Rightarrow> bool" where
  "is_rate x \<longleftrightarrow> 0 \<le> x \<and> x \<le> 1"

lemma rate_of_rate: "a \<le> b \<Longrightarrow> is_rate (rate_of a b)"
  by (simp add: rate_of_def is_rate_def)

lemma class_counts_le:
  "cx_true_positive (class_counts c ps) \<le> cx_support (class_counts c ps)"
  "cx_true_positive (class_counts c ps) \<le> cx_predicted (class_counts c ps)"
  by (simp_all add: class_counts_def) (rule count_if_le, auto)+

lemma f1_rate:
  assumes "is_rate (precision m)" and "is_rate (recall m)"
  shows "is_rate (f1 m)"
proof -
  let ?p = "precision m" and ?r = "recall m"
  have "?p * ?r \<le> ?p" "?p * ?r \<le> ?r" "0 \<le> ?p * ?r"
    using assms by (auto simp: is_rate_def mult_left_le mult_left_le_one_le)
  then have "2 * ?p * ?r \<le> ?p + ?r" "0 \<le> ?p + ?r" by linarith+
  then show ?thesis
    using \<open>0 \<le> ?p * ?r\<close> by (auto simp: f1_def is_rate_def Let_def divide_le_eq_1)
qed

lemma mean_rate:
  assumes "\<And>x. x \<in> set xs \<Longrightarrow> is_rate x"
  shows "is_rate (if xs \<noteq> [] then sum_list xs / of_nat (length xs) else 0)"
proof -
  have "0 \<le> sum_list xs \<and> sum_list xs \<le> of_nat (length xs)"
    using assms by (induction xs) (force simp: is_rate_def)+
  then show ?thesis by (auto simp: is_rate_def divide_le_eq_1)
qed

text \<open>
  Every figure of a score is a rate between 0 and 1, and the two readings of a
  regression agree: what share is recognised and what share is called a flake add up to at most one.
\<close>

theorem scores_are_rates:
  assumes "score name labels predictions adversarial reasons = Inr r"
  shows "is_rate (accuracy r) \<and> is_rate (eval_abstention_rate r) \<and> is_rate (accuracy_when_answering r) \<and>
    is_rate (dangerous_error_rate r) \<and> is_rate (adversarial_accuracy r) \<and> is_rate (macro_f1 r) \<and>
    dangerous_error_rate r + recall (the (map_of (ev_per_class r) REAL_REGRESSION)) \<le> 1"
proof (rule score_result [OF assms])
  fix ps
  assume counts: "ev_total r = length ps" "ev_correct r = count_if (\<lambda>(t, p). t = p) ps"
    "ev_abstentions r = count_if (\<lambda>(t, p). p = UNKNOWN) ps"
    "ev_dangerous_errors r = count_if (\<lambda>(t, p). t = REAL_REGRESSION \<and> is_flake_category p) ps"
    "ev_regression_support r = count_if (\<lambda>(t, p). t = REAL_REGRESSION) ps"
    "answered_correct r = count_if (\<lambda>(t, p). t = p \<and> p \<noteq> UNKNOWN) ps"
    and classes: "\<And>c. map_of (ev_per_class r) c = Some (class_counts c ps)" "distinct (map fst (ev_per_class r))"
    and adversarial: "ev_adversarial_correct r \<le> ev_adversarial_total r"
  have "answered_correct r + ev_abstentions r \<le> ev_total r"
    unfolding counts by (subst count_if_disjoint) (auto intro: count_if_length)
  then have answering: "answered_correct r \<le> answered r" by (simp add: answered_def)
  let ?tp = "cx_true_positive (class_counts REAL_REGRESSION ps)"
  have "ev_dangerous_errors r + ?tp = count_if (\<lambda>x. (case x of (t, p) \<Rightarrow> t = REAL_REGRESSION \<and> is_flake_category p) \<or>
      (case x of (t, p) \<Rightarrow> t = REAL_REGRESSION \<and> p = REAL_REGRESSION)) ps"
    unfolding counts class_counts_def by (simp, subst count_if_disjoint) (auto simp: is_flake_category_def)
  also have "\<dots> \<le> ev_regression_support r"
    unfolding counts by (rule count_if_le) auto
  finally have regression: "ev_dangerous_errors r + ?tp \<le> ev_regression_support r" .
  have "cx_support (class_counts REAL_REGRESSION ps) = ev_regression_support r"
    by (simp add: counts class_counts_def)
  then have "dangerous_error_rate r + recall (the (map_of (ev_per_class r) REAL_REGRESSION)) \<le> 1"
    using regression by (auto simp: dangerous_error_rate_def recall_def rate_of_def classes(1)
        add_divide_distrib [symmetric] divide_le_eq_1 simp flip: of_nat_add)
  moreover have "is_rate (macro_f1 r)"
  proof -
    have "is_rate (f1 m)" if "(c, m) \<in> set (ev_per_class r)" for c m
    proof -
      have "m = class_counts c ps" using that classes by (metis map_of_is_SomeI option.inject)
      then show ?thesis
        by (simp add: f1_rate precision_def recall_def rate_of_rate class_counts_le)
    qed
    then show ?thesis
      unfolding macro_f1_def Let_def by (intro mean_rate) auto
  qed
  ultimately show ?thesis
    using answering adversarial regression
    by (auto simp: accuracy_def eval_abstention_rate_def accuracy_when_answering_def dangerous_error_rate_def
        adversarial_accuracy_def counts count_if_length intro!: rate_of_rate)
qed

theorem scores_are_rates_witness:
  "\<exists>r. score ''m'' sample_labels sample_predictions None None = Inr r \<and> is_rate (macro_f1 r)"
proof -
  obtain r where r: "score ''m'' sample_labels sample_predictions None None = Inr r"
    by (simp add: score_def sample_labels_def sample_predictions_def or_default_def numeral_eq_Suc)
  with scores_are_rates [OF r] show ?thesis by simp
qed

end
