(* ===== verification/Eval_Baseline.thy ===== *)
theory Eval_Baseline
  imports Models Regex
begin

text \<open>
  The keyword baseline the model is measured against (\<open>eval/baseline.py\<close>): ordered rules, the first
  whose pattern occurs anywhere in the failure's text decides. The second half computes the same
  answer in one pass over the text with a binary trie of all the rules' words, which is what
  evaluates the baseline on the corpus.
\<close>

section \<open>The baseline\<close>

text \<open>\<open>pattern.search\<close> with \<open>IGNORECASE\<close>; the patterns are written in lower case.\<close>

fun search :: "regex \<Rightarrow> string \<Rightarrow> bool" where
  "search r [] \<longleftrightarrow> re_match r [] \<noteq> None"
| "search r (c # cs) \<longleftrightarrow> re_match r (c # cs) \<noteq> None \<or> search r cs"

definition words :: "string list \<Rightarrow> regex" where
  "words ws = alts (map lit ws)"

text \<open>The alternatives of each rule, split where one of them is not plain text.\<close>

definition INFRA_WORDS :: "string list" where
  "INFRA_WORDS =
     [''no space left on device'', ''imagepullbackoff'', ''error pulling image'', ''manifest unknown'',
      ''shutdown signal'', ''spot instance'', ''received sigkill'', ''exited with code 137'',
      ''lost communication'', ''preempted'', ''agentlost'']"

definition RESOURCE_WORDS :: "string list" where
  "RESOURCE_WORDS =
     [''outofmemoryerror'', ''out of memory'', ''heap space'', ''heap limit'', ''too many open files'',
      ''address already in use'', ''errno 24'', ''errno 98'', ''cannot allocate memory'']"

definition CONNECTION_WORDS :: "string list" where
  "CONNECTION_WORDS =
     [''connectionreset'', ''connection refused'', ''connection reset'', ''unknownhost'',
      ''name or service not known'', ''sslerror'', ''tlsv1'']"

definition SERVICE_WORDS :: "string list" where
  "SERVICE_WORDS =
     [''service unavailable'', ''econnrefused'', ''dial tcp'', ''i/o timeout'', ''did not become healthy'',
      ''containernotready'']"

definition STATE_WORDS :: "string list" where
  "STATE_WORDS =
     [''uniqueviolation'', ''duplicate key'', ''unique constraint'', ''fileexistserror'', ''already exists'',
      ''stale'', ''never reset'', ''module-level'']"

definition RACE_WORDS :: "string list" where
  "RACE_WORDS =
     [''data race'', ''threadpoolexecutor'', ''goroutine'', ''concurrent.futures'', ''race condition'',
      ''interleav'', ''same instance'']"

definition TIMING_WORDS :: "string list" where
  "TIMING_WORDS =
     [''timeout'', ''timed out'', ''deadline exceeded'', ''time.sleep'', ''jest.settimeout'', ''waiting for'',
      ''date.today'', ''monotonic'']"

definition ORDER_WORDS :: "string list" where
  "ORDER_WORDS =
     [''passes when run with'', ''only fails when scheduled'', ''still installed'', ''set by a prior test'',
      ''keyerror'']"

definition status_5xx :: regex where
  "status_5xx = Seq (lit ''status code 5'') (Seq (Cls is_digit) (Cls is_digit))"

definition RULES :: "(cause_code \<times> regex) list" where
  "RULES =
     [(INFRA_FLAKE, words INFRA_WORDS),
      (RESOURCE_EXHAUSTION, words RESOURCE_WORDS),
      (EXTERNAL_DEPENDENCY, alts (map lit CONNECTION_WORDS @ [status_5xx] @ map lit SERVICE_WORDS)),
      (SHARED_STATE_LEAK, words STATE_WORDS),
      (RACE_CONDITION, words RACE_WORDS),
      (TIMING_DEPENDENCY, words TIMING_WORDS),
      (TEST_ORDER_DEPENDENCY, words ORDER_WORDS)]"

definition haystack :: "string option \<Rightarrow> string option \<Rightarrow> string option \<Rightarrow> string" where
  "haystack failure_type failure_message stack_trace =
     join [LF] (filter (\<lambda>p. p \<noteq> []) (List.map_filter id [failure_type, failure_message, stack_trace]))"

definition baseline_classify ::
  "string option \<Rightarrow> string option \<Rightarrow> string option \<Rightarrow> string list \<Rightarrow> cause_code" where
  "baseline_classify failure_type failure_message stack_trace failing_shards =
     (let h = haystack failure_type failure_message stack_trace in
      if strip h = [] then UNKNOWN
      else case List.find (\<lambda>(cause, pattern). search pattern (str_lower h)) RULES of
             Some (cause, pattern) \<Rightarrow> cause
           | None \<Rightarrow> if length failing_shards = 1 then TEST_ORDER_DEPENDENCY else UNKNOWN)"

section \<open>The rules of the baseline\<close>

lemma matches_lit: "matches (lit w) s = (if prefix w s then [(w, drop (length w) s)] else [])"
proof (induction w arbitrary: s)
  case (Cons c w)
  then show ?case by (cases s) (auto simp: lit_def Regex.extend_def)
qed (simp add: lit_def)

lemma matches_alts: "rs \<noteq> [] \<Longrightarrow> matches (alts rs) s = concat (map (\<lambda>r. matches r s) rs)"
proof -
  have fold: "matches (foldr Alt qs r) s = concat (map (\<lambda>r. matches r s) (qs @ [r]))" for qs r
    by (induction qs) simp_all
  assume "rs \<noteq> []"
  then obtain qs r where "rs = qs @ [r]" by (metis append_butlast_last_id)
  then show ?thesis by (simp add: alts_def fold)
qed

lemma search_iff: "search r s \<longleftrightarrow> (\<exists>t. suffix t s \<and> matches r t \<noteq> [])"
proof (induction s)
  case (Cons c s)
  then show ?case by (auto simp: re_match_def suffix_Cons split: list.splits)
qed (simp add: re_match_def split: list.splits)

lemma search_words: "ws \<noteq> [] \<Longrightarrow> search (words ws) s \<longleftrightarrow> list_ex (contains s) ws"
  by (auto simp: search_iff words_def matches_alts matches_lit list_ex_iff contains_def sublist_def suffix_def
      prefix_def)

text \<open>
  Platform signatures come first and a regression never: the baseline answers with an
  infrastructure failure exactly when one of the platform's signatures occurs in the text, in any
  case and whatever else it says; and it never answers \<open>REAL_REGRESSION\<close>, so it has no recall there.
\<close>

theorem baseline_puts_the_platform_first:
  "(baseline_classify t m s shards = INFRA_FLAKE \<longleftrightarrow> strip (haystack t m s) \<noteq> [] \<and>
      list_ex (contains (str_lower (haystack t m s))) INFRA_WORDS) \<and>
   baseline_classify t m s shards \<noteq> REAL_REGRESSION"
proof -
  have "search (words INFRA_WORDS) x \<longleftrightarrow> list_ex (contains x) INFRA_WORDS" for x
    by (rule search_words) (simp add: INFRA_WORDS_def)
  moreover obtain rest where rules: "RULES = (INFRA_FLAKE, words INFRA_WORDS) # rest" and
    rest: "INFRA_FLAKE \<notin> fst ` set rest" "REAL_REGRESSION \<notin> fst ` set rest"
    by (simp add: RULES_def INFRA_WORDS_def)
  moreover have "c \<noteq> INFRA_FLAKE \<and> c \<noteq> REAL_REGRESSION" if "List.find P rest = Some (c, pattern)" for P c pattern
  proof -
    have "(c, pattern) \<in> set rest" using that by (auto simp: find_Some_iff)
    then show ?thesis using rest by (force simp: image_iff)
  qed
  ultimately show ?thesis
    unfolding baseline_classify_def Let_def rules by (auto split: option.splits if_splits)
qed

section \<open>The rules as word lists\<close>

text \<open>Every pattern of the baseline has finitely many instances.\<close>

definition DIGITS :: string where
  "DIGITS = ''0123456789''"

definition STATUS_WORDS :: "string list" where
  "STATUS_WORDS = map (\<lambda>(a, b). ''status code 5'' @ [a, b]) (List.product DIGITS DIGITS)"

definition RULE_WORDS :: "string list list" where
  "RULE_WORDS =
     [INFRA_WORDS, RESOURCE_WORDS, CONNECTION_WORDS @ STATUS_WORDS @ SERVICE_WORDS, STATE_WORDS, RACE_WORDS,
      TIMING_WORDS, ORDER_WORDS]"

lemma is_digit_DIGITS: "is_digit c \<longleftrightarrow> c \<in> set DIGITS"
proof -
  have "c \<in> set DIGITS \<longleftrightarrow> of_char c \<in> (of_char ` set DIGITS :: nat set)"
    by (auto simp: inj_image_mem_iff)
  also have "(of_char ` set DIGITS :: nat set) = {48..57}"
    by (simp add: DIGITS_def set_eq_iff) presburger
  finally show ?thesis by (simp add: is_digit_def)
qed

lemma search_alts: "rs \<noteq> [] \<Longrightarrow> search (alts rs) s \<longleftrightarrow> list_ex (\<lambda>r. search r s) rs"
  by (auto simp: search_iff matches_alts list_ex_iff)

lemma search_lit: "search (lit w) s \<longleftrightarrow> contains s w"
  using search_words [of "[w]" s] by (simp add: words_def alts_def)

lemma contains_iff: "contains s w \<longleftrightarrow> (\<exists>t. suffix t s \<and> prefix w t)"
  by (auto simp: contains_def sublist_altdef')

lemma search_two_more:
  "search (Seq (lit w) (Seq (Cls p) (Cls q))) s \<longleftrightarrow> (\<exists>a b. p a \<and> q b \<and> contains s (w @ [a, b]))"
proof -
  have "matches (Seq (lit w) (Seq (Cls p) (Cls q))) t \<noteq> [] \<longleftrightarrow>
      prefix w t \<and> (case drop (length w) t of a # b # _ \<Rightarrow> p a \<and> q b | _ \<Rightarrow> False)" for t
    by (auto simp: matches_lit Regex.extend_def split: list.split)
  moreover have "prefix w t \<and> (case drop (length w) t of a # b # _ \<Rightarrow> p a \<and> q b | _ \<Rightarrow> False) \<longleftrightarrow>
      (\<exists>a b. p a \<and> q b \<and> prefix (w @ [a, b]) t)" for t
    by (auto simp: prefix_def split: list.split)
  ultimately show ?thesis unfolding search_iff contains_iff by blast
qed

lemma search_status: "search status_5xx s \<longleftrightarrow> list_ex (contains s) STATUS_WORDS"
  unfolding status_5xx_def search_two_more STATUS_WORDS_def is_digit_DIGITS list_ex_iff
  by (simp only: set_map set_product bex_simps) (simp only: Bex_def split_paired_Ex mem_Sigma_iff case_prod_conv conj_assoc)

section \<open>One pass over the text\<close>

text \<open>
  A binary trie: each word is entered bit by bit with the number of its rule, and a node holds the
  least number of the words that end there.
\<close>

datatype trie = Dead | Node "nat option" trie trie

fun bits :: "string \<Rightarrow> bool list" where
  "bits [] = []"
| "bits (Char a b c d e f g h # cs) = a # b # c # d # e # f # g # h # bits cs"

fun better :: "nat option \<Rightarrow> nat option \<Rightarrow> nat option" where
  "better None y = y"
| "better (Some i) None = Some i"
| "better (Some i) (Some j) = Some (min i j)"

fun enter :: "bool list \<Rightarrow> nat \<Rightarrow> trie \<Rightarrow> trie" where
  "enter [] i Dead = Node (Some i) Dead Dead"
| "enter [] i (Node v l r) = Node (better (Some i) v) l r"
| "enter (True # bs) i Dead = Node None Dead (enter bs i Dead)"
| "enter (False # bs) i Dead = Node None (enter bs i Dead) Dead"
| "enter (True # bs) i (Node v l r) = Node v l (enter bs i r)"
| "enter (False # bs) i (Node v l r) = Node v (enter bs i l) r"

text \<open>The least rule with a word that is a prefix of the text, and of some suffix of it.\<close>

fun walk :: "trie \<Rightarrow> bool list \<Rightarrow> nat option" where
  "walk Dead bs = None"
| "walk (Node v l r) [] = v"
| "walk (Node v l r) (True # bs) = better v (walk r bs)"
| "walk (Node v l r) (False # bs) = better v (walk l bs)"

text \<open>The same with the bits of the text produced as they are read.\<close>

definition walk_rest :: "trie \<Rightarrow> bool list \<Rightarrow> string \<Rightarrow> nat option" where
  "walk_rest t bs cs = walk t (bs @ bits cs)"

lemma walk_rest_code [code]:
  "walk_rest Dead bs cs = None"
  "walk_rest (Node v l r) (True # bs) cs = better v (walk_rest r bs cs)"
  "walk_rest (Node v l r) (False # bs) cs = better v (walk_rest l bs cs)"
  "walk_rest (Node v l r) [] [] = v"
  "walk_rest (Node v l r) [] (Char b0 b1 b2 b3 b4 b5 b6 b7 # cs) =
     walk_rest (Node v l r) [b0, b1, b2, b3, b4, b5, b6, b7] cs"
  by (simp_all add: walk_rest_def)

fun sweep :: "trie \<Rightarrow> string \<Rightarrow> nat option" where
  "sweep t [] = None"
| "sweep t (c # cs) = better (walk_rest t [] (c # cs)) (sweep t cs)"

definition trie_of :: "(string \<times> nat) list \<Rightarrow> trie" where
  "trie_of ws = foldr (\<lambda>(w, i). enter (bits w) i) ws Dead"

definition least_of :: "nat set \<Rightarrow> nat option \<Rightarrow> bool" where
  "least_of A r \<longleftrightarrow> (case r of None \<Rightarrow> A = {} | Some i \<Rightarrow> i \<in> A \<and> (\<forall>j\<in>A. i \<le> j))"

lemma least_of_better:
  assumes "least_of A r" "least_of B q"
  shows "least_of (A \<union> B) (better r q)"
  using assms by (cases r; cases q) (auto simp: least_of_def min_def intro: order_trans)

lemma least_of_empty: "least_of {} None"
  by (simp add: least_of_def)

lemma prefix_bits [simp]: "prefix (bits w) (bits s) \<longleftrightarrow> prefix w s"
proof (induction w arbitrary: s)
  case (Cons c w)
  then show ?case
  proof (cases s)
    case (Cons d t)
    with Cons.IH show ?thesis by (cases c; cases d) simp
  qed (cases c; simp)
qed simp

lemma better_comm: "better x (better y z) = better y (better x z)"
  by (cases x; cases y; cases z) auto

lemma better_assoc: "better (better x y) z = better x (better y z)"
  by (cases x; cases y; cases z) auto

lemma bits_cases:
  obtains "bs = []" | bs' where "bs = True # bs'" | bs' where "bs = False # bs'"
  by (metis (full_types) neq_Nil_conv)

lemma walk_enter:
  "walk (enter ws i t) bs = (if prefix ws bs then better (Some i) (walk t bs) else walk t bs)"
proof (induction ws i t arbitrary: bs rule: enter.induct)
  case (2 i v l r)
  show ?case
  proof (cases bs)
    case (Cons b bs')
    then show ?thesis by (cases b) (simp_all add: better_assoc del: better.simps)
  qed simp
next
  case (3 ws i)
  then show ?case by (cases bs rule: bits_cases) auto
next
  case (4 ws i)
  then show ?case by (cases bs rule: bits_cases) auto
next
  case (5 ws i v l r)
  then show ?case by (cases bs rule: bits_cases) (auto simp: better_comm [of "Some i"])
next
  case (6 ws i v l r)
  then show ?case by (cases bs rule: bits_cases) (auto simp: better_comm [of "Some i"])
next
  case (1 i)
  show ?case by (cases bs rule: bits_cases) simp_all
qed

lemma walk_trie:
  "least_of {i. \<exists>w. (w, i) \<in> set ws \<and> prefix w s} (walk (trie_of ws) (bits s))"
proof (induction ws)
  case (Cons x ws)
  obtain w i where x: "x = (w, i)" by force
  have "{j. \<exists>u. (u, j) \<in> set (x # ws) \<and> prefix u s} =
      (if prefix w s then {i} else {}) \<union> {j. \<exists>u. (u, j) \<in> set ws \<and> prefix u s}"
    by (auto simp: x)
  with least_of_better [OF _ Cons, of "{i}" "Some i"] Cons show ?case
    by (auto simp: x trie_of_def walk_enter least_of_def [of "{i}"])
qed (simp add: trie_of_def least_of_def)

lemma sweep_trie:
  assumes "\<And>w i. (w, i) \<in> set ws \<Longrightarrow> w \<noteq> []"
  shows "least_of {i. \<exists>w. (w, i) \<in> set ws \<and> contains s w} (sweep (trie_of ws) s)"
proof (induction s)
  case Nil
  have "{i. \<exists>w. (w, i) \<in> set ws \<and> contains [] w} = {}"
    using assms by (fastforce simp: contains_def)
  then show ?case by (simp only: least_of_empty sweep.simps)
next
  case (Cons c s)
  have "{i. \<exists>w. (w, i) \<in> set ws \<and> contains (c # s) w} =
      {i. \<exists>w. (w, i) \<in> set ws \<and> prefix w (c # s)} \<union> {i. \<exists>w. (w, i) \<in> set ws \<and> contains s w}"
    by (auto simp: contains_def sublist_Cons_right)
  with least_of_better [OF walk_trie [of ws "c # s"] Cons] show ?case by (simp add: walk_rest_def)
qed

lemma find_least:
  assumes "least_of {i. i < length xs \<and> P (xs ! i)} r"
  shows "List.find P xs = map_option ((!) xs) r"
proof (cases r)
  case None
  with assms show ?thesis by (auto simp: least_of_def find_None_iff in_set_conv_nth)
next
  case (Some i)
  with assms have "i < length xs" "P (xs ! i)" "\<forall>j<i. \<not> P (xs ! j)"
    by (auto simp: least_of_def) (metis leD order.strict_trans)
  with Some show ?thesis by (auto simp: find_Some_iff)
qed

definition RULE_TRIE :: trie where
  "RULE_TRIE = trie_of (concat (map (\<lambda>(i, ws). map (\<lambda>w. (w, i)) ws) (zip [0..<7] RULE_WORDS)))"

lemma rule_words_nonempty: "i < 7 \<Longrightarrow> w \<in> set (RULE_WORDS ! i) \<Longrightarrow> w \<noteq> []"
  by (auto simp: less_Suc_eq numeral_eq_Suc RULE_WORDS_def INFRA_WORDS_def RESOURCE_WORDS_def
      CONNECTION_WORDS_def STATUS_WORDS_def SERVICE_WORDS_def STATE_WORDS_def RACE_WORDS_def TIMING_WORDS_def
      ORDER_WORDS_def)

lemma search_rule: "i < 7 \<Longrightarrow> search (snd (RULES ! i)) s \<longleftrightarrow> list_ex (contains s) (RULE_WORDS ! i)"
proof -
  have ne: "INFRA_WORDS \<noteq> []" "RESOURCE_WORDS \<noteq> []" "STATE_WORDS \<noteq> []" "RACE_WORDS \<noteq> []" "TIMING_WORDS \<noteq> []"
    "ORDER_WORDS \<noteq> []"
    by (simp_all add: INFRA_WORDS_def RESOURCE_WORDS_def STATE_WORDS_def RACE_WORDS_def TIMING_WORDS_def
        ORDER_WORDS_def)
  have external: "search (alts (map lit CONNECTION_WORDS @ [status_5xx] @ map lit SERVICE_WORDS)) s \<longleftrightarrow>
      list_ex (contains s) (CONNECTION_WORDS @ STATUS_WORDS @ SERVICE_WORDS)"
    by (simp add: search_alts list_ex_iff bex_Un search_status search_lit del: image_Un) (auto simp: search_lit)
  assume "i < 7"
  then have "i = 0 \<or> i = 1 \<or> i = 2 \<or> i = 3 \<or> i = 4 \<or> i = 5 \<or> i = 6" by arith
  with external show ?thesis
    by (elim disjE) (simp_all add: RULES_def RULE_WORDS_def search_words ne)
qed

text \<open>
  The order of the rules as a minimum: one pass over the text with the trie of all the words gives
  the same answer as trying the patterns one after the other, for every text.
\<close>

lemma baseline_is_one_pass [code]:
  "baseline_classify t m s shards =
     (let h = haystack t m s in
      if strip h = [] then UNKNOWN
      else case sweep RULE_TRIE (str_lower h) of
             Some i \<Rightarrow> fst (RULES ! i)
           | None \<Rightarrow> if length shards = 1 then TEST_ORDER_DEPENDENCY else UNKNOWN)"
proof -
  let ?ws = "concat (map (\<lambda>(i, ws). map (\<lambda>w. (w, i)) ws) (zip [0..<7] RULE_WORDS))"
  have len: "length RULES = 7" "length RULE_WORDS = 7" by (simp_all add: RULES_def RULE_WORDS_def)
  have mem: "(w, i) \<in> set ?ws \<longleftrightarrow> i < 7 \<and> w \<in> set (RULE_WORDS ! i)" for w i
    by (force simp: set_zip len)
  have "{i. \<exists>w. (w, i) \<in> set ?ws \<and> contains x w} = {i. i < length RULES \<and> search (snd (RULES ! i)) x}" for x
    by (auto simp only: mem len search_rule list_ex_iff)
  moreover have "least_of {i. \<exists>w. (w, i) \<in> set ?ws \<and> contains x w} (sweep RULE_TRIE x)" for x
    unfolding RULE_TRIE_def by (rule sweep_trie) (simp only: mem, blast dest: rule_words_nonempty)
  ultimately have "List.find (\<lambda>r. search (snd r) x) RULES = map_option ((!) RULES) (sweep RULE_TRIE x)" for x
    by (intro find_least) simp
  then show ?thesis
    by (simp add: baseline_classify_def Let_def case_prod_unfold split: option.split)
qed

text \<open>\<open>lower_char\<close> on the bits of a character, for evaluation.\<close>

lemma lower_char_bits [code]:
  "lower_char (Char b0 b1 b2 b3 b4 b5 b6 b7) =
     (if b6 \<and> \<not> b5 \<and> (b7 \<and> \<not> (b4 \<and> b3 \<and> b2 \<and> b1 \<and> b0) \<and> \<not> (b4 \<and> \<not> b3 \<and> b2 \<and> b1 \<and> b0) \<or>
        \<not> b7 \<and> (b0 \<or> b1 \<or> b2 \<or> b3 \<or> b4) \<and> \<not> (b4 \<and> b3 \<and> (b2 \<or> b1 \<and> b0)))
      then Char b0 b1 b2 b3 b4 True b6 b7 else Char b0 b1 b2 b3 b4 b5 b6 b7)"
  by (cases b0; cases b1; cases b2; cases b3; cases b4; cases b5; cases b6; cases b7)
    (simp_all add: lower_char_def char_of_def bit_Suc_0_iff)

end
