(* ===== verification/Eval_Corpus.thy ===== *)
theory Eval_Corpus
  imports Eval_Metrics Eval_Baseline
begin

text \<open>
  The labelled corpus of the evaluation (\<open>eval/generate_corpus.py\<close>), example by example in the order
  of the source, and the figures the keyword baseline reaches on it. An example is flat here: the
  keys of its \<open>history\<close> are fields beside the others.
\<close>

section \<open>The corpus\<close>

definition CORPUS_VERSION :: string where
  "CORPUS_VERSION = ''1.0.0''"

record example =
  xm_id :: string
  xm_label :: string
  xm_rationale :: string
  xm_test_name :: string
  xm_suite_path :: string
  xm_outcome :: string
  xm_failure_type :: "string option"
  xm_failure_message :: "string option"
  xm_stack_trace :: "string option"
  xm_observations :: nat
  xm_windows :: nat
  xm_flake_rate :: pyfloat
  xm_divergence_rate :: pyfloat
  xm_intermittency_rate :: pyfloat
  xm_retry_data_available :: bool
  xm_verdict :: string
  xm_detector_confidence :: string
  xm_signals :: "string list"
  xm_failing_shards :: "string list"
  xm_infra_excluded :: nat
  xm_merged_uncertain :: bool
  xm_diff_paths :: "string list"
  xm_adversarial :: bool

definition example :: "string \<Rightarrow> string \<Rightarrow> string \<Rightarrow> string \<Rightarrow> string \<Rightarrow> example" where
  "example identifier label rationale test_name suite_path =
     \<lparr>xm_id = identifier, xm_label = label, xm_rationale = rationale, xm_test_name = test_name,
      xm_suite_path = suite_path,
      xm_outcome = ''fail'',
      xm_failure_type = None,
      xm_failure_message = None,
      xm_stack_trace = None,
      xm_observations = 12,
      xm_windows = 8,
      xm_flake_rate = 3 / 10,
      xm_divergence_rate = 3 / 10,
      xm_intermittency_rate = 1 / 5,
      xm_retry_data_available = True,
      xm_verdict = ''flaky'',
      xm_detector_confidence = ''medium'',
      xm_signals = [''same_sha_divergence'', ''cross_attempt_divergence''],
      xm_failing_shards = [],
      xm_infra_excluded = 0,
      xm_merged_uncertain = False,
      xm_diff_paths = [],
      xm_adversarial = False\<rparr>"

definition race_conditions :: "example list" where
  "race_conditions =
     [(example ''race-001'' ''RACE_CONDITION'' ''Non-atomic increment of shared state from executor threads.''
        ''test_concurrent_reserve'' ''tests/integration/test_inventory.py'')
       \<lparr>xm_failure_type := Some ''AssertionError'',
         xm_failure_message := Some ''assert 2 == 1'',
         xm_stack_trace := Some (''tests/integration/test_inventory.py:88: in test_concurrent_reserve'' @ [LF]
           @ ''    assert inventory.reserved == 1'' @ [LF] @ ''E   AssertionError: assert 2 == 1'' @ [LF] @
           ''src/inventory/store.py:44: in reserve'' @ [LF] @ ''    self.reserved += 1'' @ [LF] @ ''  File ''
           @ [CHR 0x22] @ ''/usr/lib/python3.12/concurrent/futures/thread.py'' @ [CHR 0x22] @
           '', line 58, in run'')\<rparr>,
      (example ''race-002'' ''RACE_CONDITION''
        ''Java assertion on a counter mutated from a thread pool worker.'' ''chargesCardExactlyOnce''
        ''com/example/orders::OrderServiceTest'')
       \<lparr>xm_failure_type := Some ''java.lang.AssertionError'',
         xm_failure_message := Some ''expected:<1> but was:<2>'',
         xm_stack_trace := Some (''java.lang.AssertionError: expected:<1> but was:<2>'' @ [LF, CHR 0x09] @
           ''at com.example.orders.OrderServiceTest.chargesCardExactlyOnce(OrderServiceTest.java:88)'' @ [LF,
           CHR 0x09] @ ''at com.example.orders.PaymentLedger.record(PaymentLedger.java:112)'')\<rparr>,
      (example ''race-003'' ''RACE_CONDITION'' ''Go data race detector output; interleaving, not timing.''
        ''TestCacheWarmParallel'' ''internal/cache/cache_test.go'')
       \<lparr>xm_outcome := ''error'',
         xm_failure_type := Some ''DATA RACE'',
         xm_failure_message := Some ''WARNING: DATA RACE'',
         xm_stack_trace := Some (''WARNING: DATA RACE'' @ [LF] @ ''Write at 0x00c000123456 by goroutine 12:''
           @ [LF] @ ''  internal/cache.(*Cache).Set()'' @ [LF] @ ''      internal/cache/cache.go:71 +0x64'' @
           [LF] @ ''Previous read at 0x00c000123456 by goroutine 9:'' @ [LF] @
           ''  internal/cache.(*Cache).Get()'' @ [LF] @ ''      internal/cache/cache.go:52 +0x3c'')\<rparr>,
      (example ''race-004'' ''RACE_CONDITION'' ''Two callbacks append to one list without synchronisation.''
        ''emits events in order'' ''src/events/bus.test.ts'')
       \<lparr>xm_failure_type := None,
         xm_failure_message := None,
         xm_stack_trace := Some (''Error: expect(received).toEqual(expected)'' @ [LF] @ ''- Expected  - 2'' @
           [LF] @ ''+ Received  + 2'' @ [LF] @ ''  Array ['' @ [LF] @ ''-   '' @ [CHR 0x22] @ ''created'' @
           [CHR 0x22] @ '','' @ [LF] @ ''-   '' @ [CHR 0x22] @ ''updated'' @ [CHR 0x22] @ '','' @ [LF] @
           ''+   '' @ [CHR 0x22] @ ''updated'' @ [CHR 0x22] @ '','' @ [LF] @ ''+   '' @ [CHR 0x22] @
           ''created'' @ [CHR 0x22] @ '','' @ [LF] @ ''  ]'' @ [LF] @ ''    at src/events/bus.test.ts:64:24''),
         xm_flake_rate := 21 / 50,
         xm_divergence_rate := 21 / 50\<rparr>,
      (example ''race-005'' ''RACE_CONDITION''
        ''Adversarial: reads like a timing bug but the mechanism is interleaving.''
        ''test_worker_pool_drains'' ''tests/unit/test_pool.py'')
       \<lparr>xm_failure_type := Some ''AssertionError'',
         xm_failure_message := Some ''assert 0 == 3  # queue not drained'',
         xm_stack_trace := Some (''tests/unit/test_pool.py:120: in test_worker_pool_drains'' @ [LF] @
           ''    assert pool.pending == 3'' @ [LF] @
           ''E   AssertionError: assert 0 == 3  # queue not drained'' @ [LF] @
           ''src/pool/worker.py:88: in _drain'' @ [LF] @
           ''    while self._queue:  # mutated by sibling threads'' @ [LF] @ ''        self._queue.pop()''),
         xm_adversarial := True\<rparr>,
      (example ''race-006'' ''RACE_CONDITION''
        ''Double-checked lock without a memory barrier; classic singleton race.''
        ''returnsOneInstanceUnderLoad'' ''com/example/config::ConfigLoaderTest'')
       \<lparr>xm_failure_type := Some ''java.lang.AssertionError'',
         xm_failure_message := Some ''expected same instance but got two'',
         xm_stack_trace := Some (''java.lang.AssertionError: expected same instance but got two'' @ [LF, CHR
           0x09] @
           ''at com.example.config.ConfigLoaderTest.returnsOneInstanceUnderLoad(ConfigLoaderTest.java:41)'' @
           [LF, CHR 0x09] @ ''at com.example.config.ConfigLoader.getInstance(ConfigLoader.java:29)'')\<rparr>]"

definition timing_dependencies :: "example list" where
  "timing_dependencies =
     [(example ''time-001'' ''TIMING_DEPENDENCY''
        ''Fixed sleep shorter than the debounce interval on a loaded runner.'' ''settles after debounce''
        ''src/checkout/cart.test.ts'')
       \<lparr>xm_failure_message := None,
         xm_failure_type := None,
         xm_stack_trace := Some
           (''Error: Timeout - Async callback was not invoked within the 5000 ms timeout specified by jest.setTimeout.''
           @ [LF] @ ''    at src/checkout/cart.test.ts:74:5'')\<rparr>,
      (example ''time-002'' ''TIMING_DEPENDENCY''
        ''Asserts on wall-clock elapsed time; fails when the runner is slow.''
        ''test_cache_expires_after_ttl'' ''tests/unit/test_cache.py'')
       \<lparr>xm_failure_type := Some ''AssertionError'',
         xm_failure_message := Some ''assert 1.03 < 1.0'',
         xm_stack_trace := Some (''tests/unit/test_cache.py:56: in test_cache_expires_after_ttl'' @ [LF] @
           ''    time.sleep(1.0)'' @ [LF] @ ''    assert time.monotonic() - start < 1.0'' @ [LF] @
           ''E   AssertionError: assert 1.03 < 1.0''),
         xm_observations := 30,
         xm_flake_rate := 3 / 25,
         xm_divergence_rate := 3 / 25\<rparr>,
      (example ''time-003'' ''TIMING_DEPENDENCY''
        ''Playwright locator timeout waiting for an element that arrives late.''
        ''checkout > applies a coupon'' ''e2e/checkout.spec.ts'')
       \<lparr>xm_failure_type := Some ''FAILURE'',
         xm_failure_message := Some ''e2e/checkout.spec.ts:31:5 applies a coupon'',
         xm_stack_trace := Some (''Error: locator.click: Timeout 20000ms exceeded.'' @ [LF] @ ''Call log:'' @
           [LF] @ ''  - waiting for getByRole('' @ [CHR 0x27] @ ''button'' @ [CHR 0x27] @ '', { name: '' @
           [CHR 0x27] @ ''Apply'' @ [CHR 0x27] @ '' })'' @ [LF] @ ''    at e2e/checkout.spec.ts:38:41'')\<rparr>,
      (example ''time-004'' ''TIMING_DEPENDENCY''
        ''Test depends on a date boundary; fails when the run crosses midnight.'' ''test_report_covers_today''
        ''tests/unit/test_reports.py'')
       \<lparr>xm_failure_type := Some ''AssertionError'',
         xm_failure_message := Some ''assert date(2026, 7, 21) == date(2026, 7, 20)'',
         xm_stack_trace := Some (''tests/unit/test_reports.py:33: in test_report_covers_today'' @ [LF] @
           ''    assert report.day == date.today()'' @ [LF] @
           ''E   AssertionError: assert date(2026, 7, 21) == date(2026, 7, 20)''),
         xm_observations := 40,
         xm_flake_rate := 3 / 50,
         xm_divergence_rate := 3 / 50\<rparr>,
      (example ''time-005'' ''TIMING_DEPENDENCY''
        ''Deadline exceeded inside a polling helper with a fixed retry budget.'' ''TestWaitForReady''
        ''internal/health/health_test.go'')
       \<lparr>xm_outcome := ''error'',
         xm_failure_type := Some ''context.DeadlineExceeded'',
         xm_failure_message := Some ''context deadline exceeded after 2s'',
         xm_stack_trace := Some (''    health_test.go:47: context deadline exceeded after 2s'' @ [LF] @
           ''        internal/health/wait.go:22: polling every 100ms, 20 attempts'')\<rparr>]"

definition order_dependencies :: "example list" where
  "order_dependencies =
     [(example ''order-001'' ''TEST_ORDER_DEPENDENCY''
        ''Fails only in shard 3; depends on a fixture another test installs.'' ''test_admin_can_delete_user''
        ''tests/integration/test_admin.py'')
       \<lparr>xm_failure_type := Some ''KeyError'',
         xm_failure_message := Some ([CHR 0x27] @ ''admin_token'' @ [CHR 0x27]),
         xm_stack_trace := Some (''tests/integration/test_admin.py:71: in test_admin_can_delete_user'' @ [LF]
           @ ''    token = session_registry['' @ [CHR 0x27] @ ''admin_token'' @ [CHR 0x27] @ '']'' @ [LF] @
           ''E   KeyError: '' @ [CHR 0x27] @ ''admin_token'' @ [CHR 0x27]),
         xm_failing_shards := [''3''],
         xm_signals := [''same_sha_divergence'', ''historical_instability'']\<rparr>,
      (example ''order-002'' ''TEST_ORDER_DEPENDENCY''
        ''Passes alone, fails after another test mutates a module-level default.''
        ''test_default_currency_is_usd'' ''tests/unit/test_pricing.py'')
       \<lparr>xm_failure_type := Some ''AssertionError'',
         xm_failure_message := Some (''assert '' @ [CHR 0x27] @ ''EUR'' @ [CHR 0x27] @ '' == '' @ [CHR 0x27] @
           ''USD'' @ [CHR 0x27]),
         xm_stack_trace := Some (''tests/unit/test_pricing.py:18: in test_default_currency_is_usd'' @ [LF] @
           ''    assert pricing.DEFAULT_CURRENCY == '' @ [CHR 0x27] @ ''USD'' @ [CHR 0x27, LF] @
           ''E   AssertionError: assert '' @ [CHR 0x27] @ ''EUR'' @ [CHR 0x27] @ '' == '' @ [CHR 0x27] @
           ''USD'' @ [CHR 0x27, LF] @ ''  note: passes when run with -k test_default_currency_is_usd''),
         xm_failing_shards := [''2'']\<rparr>,
      (example ''order-003'' ''TEST_ORDER_DEPENDENCY''
        ''JUnit test relies on static state initialised by an earlier class.'' ''readsCachedSchema''
        ''com/example/schema::SchemaCacheTest'')
       \<lparr>xm_failure_type := Some ''java.lang.NullPointerException'',
         xm_failure_message := Some (''Cannot invoke '' @ [CHR 0x22] @ ''Schema.version()'' @ [CHR 0x22] @
           '' because '' @ [CHR 0x22] @ ''schema'' @ [CHR 0x22] @ '' is null''),
         xm_stack_trace := Some (''java.lang.NullPointerException: Cannot invoke '' @ [CHR 0x22] @
           ''Schema.version()'' @ [CHR 0x22] @ '' because '' @ [CHR 0x22] @ ''schema'' @ [CHR 0x22] @
           '' is null'' @ [LF, CHR 0x09] @
           ''at com.example.schema.SchemaCacheTest.readsCachedSchema(SchemaCacheTest.java:52)''),
         xm_failing_shards := [''1'']\<rparr>,
      (example ''order-004'' ''TEST_ORDER_DEPENDENCY''
        ''Adversarial: shard-confined, but the message suggests shared state.''
        ''test_user_count_is_zero_at_start'' ''tests/integration/test_users.py'')
       \<lparr>xm_failure_type := Some ''AssertionError'',
         xm_failure_message := Some ''assert 4 == 0'',
         xm_stack_trace := Some (''tests/integration/test_users.py:24: in test_user_count_is_zero_at_start'' @
           [LF] @ ''    assert User.objects.count() == 0'' @ [LF] @ ''E   AssertionError: assert 4 == 0'' @
           [LF] @ ''  note: only fails when scheduled after tests/integration/test_signup.py''),
         xm_failing_shards := [''4''],
         xm_adversarial := True\<rparr>,
      (example ''order-005'' ''TEST_ORDER_DEPENDENCY''
        ''Mocha suite where a sibling leaves a stubbed clock installed.'' ''formats relative dates''
        ''test/format.spec.js'')
       \<lparr>xm_failure_type := Some ''AssertionError'',
         xm_failure_message := Some (''expected '' @ [CHR 0x27] @ ''in 3 days'' @ [CHR 0x27] @ '' to equal ''
           @ [CHR 0x27] @ ''in 2 days'' @ [CHR 0x27]),
         xm_stack_trace := Some (''AssertionError: expected '' @ [CHR 0x27] @ ''in 3 days'' @ [CHR 0x27] @
           '' to equal '' @ [CHR 0x27] @ ''in 2 days'' @ [CHR 0x27, LF] @
           ''    at Context.<anonymous> (test/format.spec.js:61:34)'' @ [LF] @
           ''    note: sinon clock still installed by test/timers.spec.js''),
         xm_failing_shards := [''1'']\<rparr>]"

definition external_dependencies :: "example list" where
  "external_dependencies =
     [(example ''ext-001'' ''EXTERNAL_DEPENDENCY''
        ''Connection reset reaching a third-party payments endpoint.'' ''test_payment_capture''
        ''tests/integration/test_checkout.py'')
       \<lparr>xm_outcome := ''error'',
         xm_failure_type := Some ''ConnectionResetError'',
         xm_failure_message := Some ''[Errno 104] Connection reset by peer'',
         xm_stack_trace := Some (''tests/integration/test_checkout.py:120: in test_payment_capture'' @ [LF] @
           ''    resp = session.post(PAYMENTS_URL, json=payload)'' @ [LF] @
           ''E   ConnectionResetError: [Errno 104] Connection reset by peer'')\<rparr>,
      (example ''ext-002'' ''EXTERNAL_DEPENDENCY'' ''DNS resolution failure for a service hostname.''
        ''resolvesCatalogueService'' ''com/example/catalogue::CatalogueClientTest'')
       \<lparr>xm_outcome := ''error'',
         xm_failure_type := Some ''java.net.UnknownHostException'',
         xm_failure_message := Some ''catalogue.internal: Name or service not known'',
         xm_stack_trace := Some
           (''java.net.UnknownHostException: catalogue.internal: Name or service not known'' @ [LF, CHR 0x09]
           @ ''at com.example.catalogue.CatalogueClient.fetch(CatalogueClient.java:66)'')\<rparr>,
      (example ''ext-003'' ''EXTERNAL_DEPENDENCY''
        ''Upstream returned 503; the test asserts on a live third-party API.'' ''fetches exchange rates''
        ''src/fx/rates.test.ts'')
       \<lparr>xm_failure_message := None,
         xm_failure_type := None,
         xm_stack_trace := Some (''Error: Request failed with status code 503'' @ [LF] @
           ''    at createError (src/fx/http.ts:16:15)'' @ [LF] @ ''    at src/fx/rates.test.ts:29:20'' @ [LF]
           @ ''  body: <html>503 Service Temporarily Unavailable</html>'')\<rparr>,
      (example ''ext-004'' ''EXTERNAL_DEPENDENCY'' ''TLS handshake failure against a sandbox endpoint.''
        ''test_webhook_signature_roundtrip'' ''tests/integration/test_webhooks.py'')
       \<lparr>xm_outcome := ''error'',
         xm_failure_type := Some ''ssl.SSLError'',
         xm_failure_message := Some ''[SSL: TLSV1_ALERT_INTERNAL_ERROR] tlsv1 alert internal error'',
         xm_stack_trace := Some
           (''tests/integration/test_webhooks.py:88: in test_webhook_signature_roundtrip'' @ [LF] @
           ''    client.post(SANDBOX_URL, data=body)'' @ [LF] @
           ''E   ssl.SSLError: [SSL: TLSV1_ALERT_INTERNAL_ERROR] tlsv1 alert internal error'')\<rparr>,
      (example ''ext-005'' ''EXTERNAL_DEPENDENCY''
        ''Testcontainers dependency not ready inside the wait window.'' ''test_search_indexes_document''
        ''tests/integration/test_search.py'')
       \<lparr>xm_outcome := ''error'',
         xm_failure_type := Some ''ContainerNotReady'',
         xm_failure_message := Some ''elasticsearch:8.13 did not become healthy within 60s'',
         xm_stack_trace := Some (''tests/integration/test_search.py:31: in test_search_indexes_document'' @
           [LF] @ ''    with ElasticsearchContainer() as es:'' @ [LF] @
           ''E   ContainerNotReady: elasticsearch:8.13 did not become healthy within 60s'')\<rparr>,
      (example ''ext-006'' ''EXTERNAL_DEPENDENCY''
        ''Adversarial: a timeout message, but the cause is an unreachable dependency.'' ''TestFetchProfile''
        ''internal/profile/client_test.go'')
       \<lparr>xm_outcome := ''error'',
         xm_failure_type := Some ''net.Error'',
         xm_failure_message := Some ''dial tcp 10.0.3.14:8080: i/o timeout'',
         xm_stack_trace := Some
           (''    client_test.go:58: Get http://profiles.svc/v1/me: dial tcp 10.0.3.14:8080: i/o timeout'' @
           [LF] @ ''        internal/profile/client.go:34''),
         xm_adversarial := True\<rparr>]"

definition shared_state_leaks :: "example list" where
  "shared_state_leaks =
     [(example ''state-001'' ''SHARED_STATE_LEAK''
        ''Unique constraint violated by a row a previous test left behind.'' ''test_create_organisation''
        ''tests/integration/test_orgs.py'')
       \<lparr>xm_outcome := ''error'',
         xm_failure_type := Some ''psycopg2.errors.UniqueViolation'',
         xm_failure_message := Some (''duplicate key value violates unique constraint '' @ [CHR 0x22] @
           ''orgs_slug_key'' @ [CHR 0x22]),
         xm_stack_trace := Some (''tests/integration/test_orgs.py:44: in test_create_organisation'' @ [LF] @
           ''    Organisation.objects.create(slug='' @ [CHR 0x27] @ ''acme'' @ [CHR 0x27] @ '')'' @ [LF] @
           ''E   psycopg2.errors.UniqueViolation: duplicate key value violates unique constraint '' @ [CHR
           0x22] @ ''orgs_slug_key'' @ [CHR 0x22, LF] @ ''  DETAIL:  Key (slug)=(acme) already exists.'')\<rparr>,
      (example ''state-002'' ''SHARED_STATE_LEAK'' ''A temp file from an earlier run is still present.''
        ''test_export_writes_fresh_file'' ''tests/unit/test_export.py'')
       \<lparr>xm_outcome := ''error'',
         xm_failure_type := Some ''FileExistsError'',
         xm_failure_message := Some (''[Errno 17] File exists: '' @ [CHR 0x27] @ ''/tmp/export.csv'' @ [CHR
           0x27]),
         xm_stack_trace := Some (''tests/unit/test_export.py:29: in test_export_writes_fresh_file'' @ [LF] @
           ''    os.mkdir(EXPORT_DIR)'' @ [LF] @ ''E   FileExistsError: [Errno 17] File exists: '' @ [CHR
           0x27] @ ''/tmp/export.csv'' @ [CHR 0x27])\<rparr>,
      (example ''state-003'' ''SHARED_STATE_LEAK''
        ''A module-level cache is not cleared, so a stale value is read.''
        ''test_feature_flag_reflects_config'' ''tests/unit/test_flags.py'')
       \<lparr>xm_failure_type := Some ''AssertionError'',
         xm_failure_message := Some ''assert False is True'',
         xm_stack_trace := Some (''tests/unit/test_flags.py:52: in test_feature_flag_reflects_config'' @ [LF]
           @ ''    assert flags.enabled('' @ [CHR 0x27] @ ''beta'' @ [CHR 0x27] @ '') is True'' @ [LF] @
           ''E   AssertionError: assert False is True'' @ [LF] @ ''src/flags/registry.py:18: in enabled'' @
           [LF] @ ''    return _CACHE[name]  # populated at import, never reset'')\<rparr>,
      (example ''state-004'' ''SHARED_STATE_LEAK''
        ''Redis keys survive between tests because the db is not flushed.'' ''countsActiveSessions''
        ''com/example/session::SessionStoreTest'')
       \<lparr>xm_failure_type := Some ''java.lang.AssertionError'',
         xm_failure_message := Some ''expected:<0> but was:<7>'',
         xm_stack_trace := Some (''java.lang.AssertionError: expected:<0> but was:<7>'' @ [LF, CHR 0x09] @
           ''at com.example.session.SessionStoreTest.countsActiveSessions(SessionStoreTest.java:63)'' @ [LF,
           CHR 0x09] @ ''at com.example.session.RedisSessionStore.count(RedisSessionStore.java:88)'')\<rparr>,
      (example ''state-005'' ''SHARED_STATE_LEAK''
        ''Adversarial: presents as a race, but the leak is a global fixture.'' ''test_audit_log_starts_empty''
        ''tests/integration/test_audit.py'')
       \<lparr>xm_failure_type := Some ''AssertionError'',
         xm_failure_message := Some ''assert 12 == 0'',
         xm_stack_trace := Some (''tests/integration/test_audit.py:19: in test_audit_log_starts_empty'' @ [LF]
           @ ''    assert len(audit.entries) == 0'' @ [LF] @ ''E   AssertionError: assert 12 == 0'' @ [LF] @
           ''src/audit/log.py:7: in <module>'' @ [LF] @
           ''    entries = []  # module-level, shared across the session''),
         xm_adversarial := True\<rparr>]"

definition resource_exhaustion :: "example list" where
  "resource_exhaustion =
     [(example ''res-001'' ''RESOURCE_EXHAUSTION''
        ''Port already bound by a server a sibling test left running.'' ''test_server_starts_on_8080''
        ''tests/integration/test_server.py'')
       \<lparr>xm_outcome := ''error'',
         xm_failure_type := Some ''OSError'',
         xm_failure_message := Some ''[Errno 98] Address already in use'',
         xm_stack_trace := Some (''tests/integration/test_server.py:22: in test_server_starts_on_8080'' @ [LF]
           @ ''    server.bind(('' @ [CHR 0x27] @ ''127.0.0.1'' @ [CHR 0x27] @ '', 8080))'' @ [LF] @
           ''E   OSError: [Errno 98] Address already in use'')\<rparr>,
      (example ''res-002'' ''RESOURCE_EXHAUSTION'' ''JVM heap exhausted by a large fixture.''
        ''loadsLargeCatalogue'' ''com/example/catalogue::CatalogueLoadTest'')
       \<lparr>xm_outcome := ''error'',
         xm_failure_type := Some ''java.lang.OutOfMemoryError'',
         xm_failure_message := Some ''Java heap space'',
         xm_stack_trace := Some (''java.lang.OutOfMemoryError: Java heap space'' @ [LF, CHR 0x09] @
           ''at com.example.catalogue.CatalogueLoader.readAll(CatalogueLoader.java:140)'')\<rparr>,
      (example ''res-003'' ''RESOURCE_EXHAUSTION''
        ''File descriptors leaked by unclosed sockets in the test itself.'' ''test_opens_many_connections''
        ''tests/unit/test_pool.py'')
       \<lparr>xm_outcome := ''error'',
         xm_failure_type := Some ''OSError'',
         xm_failure_message := Some ''[Errno 24] Too many open files'',
         xm_stack_trace := Some (''tests/unit/test_pool.py:77: in test_opens_many_connections'' @ [LF] @
           ''    conns = [connect() for _ in range(2000)]'' @ [LF] @
           ''E   OSError: [Errno 24] Too many open files'')\<rparr>,
      (example ''res-004'' ''RESOURCE_EXHAUSTION'' ''Node heap limit reached while building a fixture array.''
        ''builds a large report'' ''src/reports/build.test.ts'')
       \<lparr>xm_failure_message := None,
         xm_failure_type := None,
         xm_stack_trace := Some
           (''FATAL ERROR: Reached heap limit Allocation failed - JavaScript heap out of memory'' @ [LF] @
           ''    at src/reports/build.test.ts:41:18'')\<rparr>]"

definition infra_flakes :: "example list" where
  "infra_flakes =
     [(example ''infra-001'' ''INFRA_FLAKE'' ''Runner disk filled; no test assertion was reached.''
        ''test_uploads_artifact'' ''tests/integration/test_artifacts.py'')
       \<lparr>xm_outcome := ''error'',
         xm_failure_type := Some ''OSError'',
         xm_failure_message := Some ''No space left on device'',
         xm_stack_trace := Some ''OSError: [Errno 28] No space left on device'',
         xm_infra_excluded := 2,
         xm_verdict := ''flaky''\<rparr>,
      (example ''infra-002'' ''INFRA_FLAKE'' ''Container image could not be pulled; the suite never started.''
        ''test_suite_bootstrap'' ''tests/integration/test_bootstrap.py'')
       \<lparr>xm_outcome := ''error'',
         xm_failure_type := Some ''ImagePullBackOff'',
         xm_failure_message := Some ''error pulling image: manifest unknown'',
         xm_stack_trace := Some ''ImagePullBackOff: error pulling image ghcr.io/acme/ci:latest'',
         xm_infra_excluded := 1\<rparr>,
      (example ''infra-003'' ''INFRA_FLAKE'' ''Spot instance reclaimed mid-run; the worker was killed.''
        ''test_long_migration'' ''tests/integration/test_migrations.py'')
       \<lparr>xm_outcome := ''error'',
         xm_failure_type := Some ''WorkerLost'',
         xm_failure_message := Some ''the runner has received a shutdown signal'',
         xm_stack_trace := Some ''WorkerLost: spot instance interruption notice received'',
         xm_infra_excluded := 3\<rparr>,
      (example ''infra-004'' ''INFRA_FLAKE''
        ''Adversarial: thread names in the trace, but it is a harness kill.'' ''test_parallel_import''
        ''tests/integration/test_import.py'')
       \<lparr>xm_outcome := ''error'',
         xm_failure_type := Some ''SIGKILL'',
         xm_failure_message := Some ''Received SIGKILL; container exited with code 137'',
         xm_stack_trace := Some (''Received SIGKILL; container exited with code 137'' @ [LF] @
           ''  last observed: ThreadPoolExecutor-3_2 running import batch 41'' @ [LF] @
           ''  no assertion was evaluated''),
         xm_adversarial := True\<rparr>,
      (example ''infra-005'' ''INFRA_FLAKE'' ''CI control plane lost the agent; results were never written.''
        ''test_smoke'' ''tests/smoke/test_smoke.py'')
       \<lparr>xm_outcome := ''error'',
         xm_failure_type := Some ''AgentLost'',
         xm_failure_message := Some ''lost communication with the server'',
         xm_stack_trace := Some ''AgentLost: lost communication with the server after 240s'',
         xm_infra_excluded := 1\<rparr>]"

definition real_regressions :: "example list" where
  "real_regressions =
     [(example ''reg-001'' ''REAL_REGRESSION''
        ''Deterministic since one commit, and the diff touches the failing path.'' ''test_totals_include_tax''
        ''tests/integration/test_checkout.py'')
       \<lparr>xm_failure_type := Some ''AssertionError'',
         xm_failure_message := Some (''assert Decimal('' @ [CHR 0x27] @ ''10.00'' @ [CHR 0x27] @
           '') == Decimal('' @ [CHR 0x27] @ ''10.80'' @ [CHR 0x27] @ '')''),
         xm_stack_trace := Some (''tests/integration/test_checkout.py:61: in test_totals_include_tax'' @ [LF]
           @ ''    assert order.total == Decimal('' @ [CHR 0x27] @ ''10.80'' @ [CHR 0x27] @ '')'' @ [LF] @
           ''E   AssertionError: assert Decimal('' @ [CHR 0x27] @ ''10.00'' @ [CHR 0x27] @ '') == Decimal('' @
           [CHR 0x27] @ ''10.80'' @ [CHR 0x27] @ '')'' @ [LF] @
           ''src/checkout/totals.py:19: in compute_total''),
         xm_verdict := ''regression'',
         xm_detector_confidence := ''high'',
         xm_signals := [],
         xm_flake_rate := 0,
         xm_divergence_rate := 0,
         xm_intermittency_rate := 2 / 25,
         xm_diff_paths := [''src/checkout/totals.py''],
         xm_adversarial := True\<rparr>,
      (example ''reg-002'' ''REAL_REGRESSION''
        ''Adversarial: intermittent-looking history, but the diff broke a branch.''
        ''test_discount_applies_to_bulk_orders'' ''tests/unit/test_pricing.py'')
       \<lparr>xm_failure_type := Some ''AssertionError'',
         xm_failure_message := Some ''assert 100 == 90'',
         xm_stack_trace := Some (''tests/unit/test_pricing.py:88: in test_discount_applies_to_bulk_orders'' @
           [LF] @ ''    assert price_for(quantity=50) == 90'' @ [LF] @
           ''E   AssertionError: assert 100 == 90'' @ [LF] @ ''src/pricing/discount.py:41: in price_for'' @
           [LF] @ ''    if quantity > 50:  # was >= 50 before this change''),
         xm_verdict := ''persistent_failure'',
         xm_detector_confidence := ''medium'',
         xm_signals := [],
         xm_flake_rate := 0,
         xm_divergence_rate := 0,
         xm_diff_paths := [''src/pricing/discount.py''],
         xm_adversarial := True\<rparr>,
      (example ''reg-003'' ''REAL_REGRESSION''
        ''Null dereference introduced by a refactor on the exercised path.'' ''rendersEmptyCart''
        ''com/example/cart::CartViewTest'')
       \<lparr>xm_failure_type := Some ''java.lang.NullPointerException'',
         xm_failure_message := Some (''Cannot read field '' @ [CHR 0x22] @ ''items'' @ [CHR 0x22] @
           '' because '' @ [CHR 0x22] @ ''cart'' @ [CHR 0x22] @ '' is null''),
         xm_stack_trace := Some (''java.lang.NullPointerException: Cannot read field '' @ [CHR 0x22] @
           ''items'' @ [CHR 0x22] @ '' because '' @ [CHR 0x22] @ ''cart'' @ [CHR 0x22] @ '' is null'' @ [LF,
           CHR 0x09] @ ''at com.example.cart.CartView.render(CartView.java:52)'' @ [LF, CHR 0x09] @
           ''at com.example.cart.CartViewTest.rendersEmptyCart(CartViewTest.java:20)''),
         xm_verdict := ''regression'',
         xm_detector_confidence := ''high'',
         xm_signals := [],
         xm_flake_rate := 0,
         xm_divergence_rate := 0,
         xm_diff_paths := [''src/main/java/com/example/cart/CartView.java''],
         xm_adversarial := True\<rparr>,
      (example ''reg-004'' ''REAL_REGRESSION''
        ''Adversarial: a timeout, but caused by a new unbounded query.'' ''test_dashboard_loads_under_budget''
        ''tests/integration/test_dashboard.py'')
       \<lparr>xm_outcome := ''error'',
         xm_failure_type := Some ''QueryTimeout'',
         xm_failure_message := Some ''statement timeout after 30000ms'',
         xm_stack_trace := Some
           (''tests/integration/test_dashboard.py:44: in test_dashboard_loads_under_budget'' @ [LF] @
           ''    dashboard.load(user)'' @ [LF] @ ''E   QueryTimeout: statement timeout after 30000ms'' @ [LF]
           @ ''src/dashboard/queries.py:71: in recent_activity'' @ [LF] @
           ''    return Activity.objects.all()  # no limit added in this change''),
         xm_verdict := ''regression'',
         xm_detector_confidence := ''high'',
         xm_signals := [],
         xm_flake_rate := 0,
         xm_divergence_rate := 0,
         xm_diff_paths := [''src/dashboard/queries.py''],
         xm_adversarial := True\<rparr>,
      (example ''reg-005'' ''REAL_REGRESSION''
        ''Off-by-one in pagination, deterministic, diff on the failing file.'' ''returns the last page''
        ''src/api/paginate.test.ts'')
       \<lparr>xm_failure_message := None,
         xm_failure_type := None,
         xm_stack_trace := Some (''Error: expect(received).toHaveLength(expected)'' @ [LF] @
           ''Expected length: 10'' @ [LF] @ ''Received length: 9'' @ [LF] @
           ''    at src/api/paginate.test.ts:52:31'' @ [LF] @ ''    at src/api/paginate.ts:18:22''),
         xm_verdict := ''regression'',
         xm_detector_confidence := ''high'',
         xm_signals := [],
         xm_flake_rate := 0,
         xm_divergence_rate := 0,
         xm_diff_paths := [''src/api/paginate.ts''],
         xm_adversarial := True\<rparr>]"

definition unknowns :: "example list" where
  "unknowns =
     [(example ''unk-001'' ''UNKNOWN'' ''No message and no trace; nothing to reason from.''
        ''test_end_to_end'' ''tests/e2e/test_flow.py'')
       \<lparr>xm_failure_type := None,
         xm_failure_message := None,
         xm_stack_trace := None,
         xm_observations := 11,
         xm_flake_rate := 9 / 50\<rparr>,
      (example ''unk-002'' ''UNKNOWN'' ''Bare assertion with no context; consistent with several causes.''
        ''test_invariant_holds'' ''tests/unit/test_core.py'')
       \<lparr>xm_failure_type := Some ''AssertionError'',
         xm_failure_message := Some ''assert False'',
         xm_stack_trace := Some ''tests/unit/test_core.py:12: AssertionError''\<rparr>,
      (example ''unk-003'' ''UNKNOWN'' ''Trace truncated by a killed writer; the useful frames are gone.''
        ''test_batch_processes_all'' ''tests/integration/test_batch.py'')
       \<lparr>xm_failure_type := Some ''AssertionError'',
         xm_failure_message := Some ''assert 998 == 1000'',
         xm_stack_trace := Some ''tests/integration/test_batch.py:71: in test_batch_pr''\<rparr>,
      (example ''unk-004'' ''UNKNOWN'' ''Evidence fits timing and external dependency equally; no tiebreak.''
        ''test_sync_completes'' ''tests/integration/test_sync.py'')
       \<lparr>xm_outcome := ''error'',
         xm_failure_type := Some ''TimeoutError'',
         xm_failure_message := Some ''operation timed out'',
         xm_stack_trace := Some (''tests/integration/test_sync.py:52: in test_sync_completes'' @ [LF] @
           ''    sync.run()'' @ [LF] @ ''E   TimeoutError: operation timed out''),
         xm_adversarial := True\<rparr>,
      (example ''unk-005'' ''UNKNOWN'' ''Generic runtime error with no project frames at all.''
        ''handles input'' ''src/parse/parse.test.ts'')
       \<lparr>xm_failure_message := None,
         xm_failure_type := None,
         xm_stack_trace := Some ''Error: undefined is not a function''\<rparr>,
      (example ''unk-006'' ''UNKNOWN'' ''Only one observation and a bare message; insufficient evidence.''
        ''test_new_feature'' ''tests/unit/test_new.py'')
       \<lparr>xm_failure_type := Some ''Exception'',
         xm_failure_message := Some ''failed'',
         xm_stack_trace := None,
         xm_observations := 1,
         xm_windows := 1,
         xm_flake_rate := 0,
         xm_divergence_rate := 0,
         xm_intermittency_rate := 0,
         xm_retry_data_available := False,
         xm_verdict := ''new_failure'',
         xm_detector_confidence := ''low'',
         xm_signals := []\<rparr>,
      (example ''unk-007'' ''UNKNOWN''
        (''Merged across an uncertain rename; the history may not be this test'' @ [CHR 0x27] @ ''s.'')
        ''test_renamed_thing'' ''tests/unit/test_thing.py'')
       \<lparr>xm_failure_type := Some ''AssertionError'',
         xm_failure_message := Some ''assert 1 == 2'',
         xm_stack_trace := Some ''tests/unit/test_thing.py:9: AssertionError'',
         xm_merged_uncertain := True,
         xm_adversarial := True\<rparr>,
      (example ''unk-008'' ''UNKNOWN'' ''Contradictory evidence: an assertion failure with an infra message.''
        ''test_writes_report'' ''tests/integration/test_report.py'')
       \<lparr>xm_failure_type := Some ''AssertionError'',
         xm_failure_message := Some ''assert report_written  # runner was reclaimed mid-write?'',
         xm_stack_trace := Some (''tests/integration/test_report.py:66: in test_writes_report'' @ [LF] @
           ''    assert report_written'' @ [LF] @ ''E   AssertionError''),
         xm_adversarial := True\<rparr>]"

definition all_examples :: "example list" where
  "all_examples =
     race_conditions @
     timing_dependencies @
     order_dependencies @
     external_dependencies @
     shared_state_leaks @
     resource_exhaustion @
     infra_flakes @
     real_regressions @
     unknowns"

text \<open>\<open>None\<close> is the \<open>ValueError\<close> about duplicate ids.\<close>

definition build_corpus :: "example list option" where
  "build_corpus = (if distinct (map xm_id all_examples) then Some all_examples else None)"

end
