(* ===== verification/Eval_Run.thy ===== *)
theory Eval_Run
  imports Eval_Corpus Classifier Metrics Report
begin

text \<open>
  The evaluation harness (\<open>eval/run_eval.py\<close>): the baseline and the classifier over the labelled
  corpus, the results page, and when that page may replace the committed one. Parameters: the
  digest of the fingerprints, Python's \<open>hash\<close>, and what the classifier takes (the model client, the
  JSON decoder). Files and the clock are arguments; progress lines on the terminal are left out.
\<close>

section \<open>Examples as detections\<close>

text \<open>\<open>Enum(value)\<close>: \<open>None\<close> is the \<open>ValueError\<close> for a string that is no member.\<close>

definition member_of :: "('c \<Rightarrow> string) \<Rightarrow> 'c list \<Rightarrow> string \<Rightarrow> 'c option" where
  "member_of val members s = List.find (\<lambda>c. val c = s) members"

abbreviation cause_of_value :: "string \<Rightarrow> cause_code option" where
  "cause_of_value \<equiv> member_of cause_value all_causes"

text \<open>\<open>s.split("::")[0]\<close>.\<close>

fun before_colons :: "string \<Rightarrow> string" where
  "before_colons [] = []"
| "before_colons (c # cs) = (if prefix ''::'' (c # cs) then [] else c # before_colons cs)"

definition example_footprint :: "example \<Rightarrow> string list" where
  "example_footprint item =
     sorted_set (before_colons (xm_suite_path item) #
       (case xm_stack_trace item of
          Some t \<Rightarrow> if t \<noteq> [] then extract_paths True (Some t) else []
        | None \<Rightarrow> []))"

definition build_detection ::
  "(string \<Rightarrow> string) \<Rightarrow> (string \<Rightarrow> int) \<Rightarrow> example \<Rightarrow> detection option" where
  "build_detection sha hash item =
     (case (those (map (member_of signal_value
                [SAME_SHA_DIVERGENCE, CROSS_ATTEMPT_DIVERGENCE, BRANCH_INDEPENDENT, HISTORICAL_INSTABILITY])
              (xm_signals item)),
            member_of verdict_value [FLAKY, REGRESSION, NEW_FAILURE, PERSISTENT_FAILURE, HEALTHY] (xm_verdict item),
            member_of confidence_value [HIGH, MEDIUM, LOW] (xm_detector_confidence item),
            member_of outcome_value [PASS, FAIL, ERROR, SKIP] (xm_outcome item)) of
        (Some signals, Some v, Some c, Some outcome) \<Rightarrow>
          Some \<lparr>d_identity =
                  \<lparr>ti_fingerprint = fingerprint sha (xm_suite_path item) (xm_test_name item) [],
                   ti_suite_path = xm_suite_path item, ti_test_name = xm_test_name item, ti_parameters = [],
                   ti_file_path = Some (before_colons (xm_suite_path item))\<rparr>,
                d_identity_id = nat (\<bar>hash (xm_id item)\<bar> mod 1000000),
                d_verdict = v, d_confidence = c,
                d_signals = map (\<lambda>(s, name). \<lparr>se_signal = s, se_detail = name @ '' fired for this test'',
                  se_observations = xm_observations item\<rparr>) (zip signals (xm_signals item)),
                d_flake_rate = xm_flake_rate item, d_divergence_rate = xm_divergence_rate item,
                d_intermittency_rate = xm_intermittency_rate item,
                d_retry_data_available = xm_retry_data_available item,
                d_observations = xm_observations item, d_windows = xm_windows item,
                d_infra_excluded = xm_infra_excluded item,
                d_latest_outcome = Some outcome, d_latest_sha = Some (replicate 12 (CHR ''e'')),
                d_regression_sha = None,
                d_failure_message = xm_failure_message item, d_failure_type = xm_failure_type item,
                d_stack_trace = xm_stack_trace item,
                d_footprint = example_footprint item, d_failing_shards = xm_failing_shards item,
                d_merged_uncertain = xm_merged_uncertain item\<rparr>
      | _ \<Rightarrow> None)"

definition diff_for :: "example \<Rightarrow> diff_summary option" where
  "diff_for item =
     (if xm_diff_paths item = [] then None
      else Some \<lparr>ds_files = map (\<lambda>path. \<lparr>fc_path = path, fc_change_type = MODIFIED, fc_old_path = None,
        fc_binary = False, fc_new_ranges = [], fc_old_ranges = []\<rparr>) (xm_diff_paths item)\<rparr>)"

section \<open>The two runs\<close>

definition predict :: "example \<Rightarrow> cause_code" where
  "predict x = baseline_classify (xm_failure_type x) (xm_failure_message x) (xm_stack_trace x) (xm_failing_shards x)"

definition label_scores ::
  "string \<Rightarrow> example list \<Rightarrow> cause_code list \<Rightarrow> string list option \<Rightarrow> eval_error + eval_report" where
  "label_scores name items predictions reasons =
     (case those (map (cause_of_value \<circ> xm_label) items) of
        None \<Rightarrow> Inl ValueError
      | Some labels \<Rightarrow> score name labels predictions (Some (map xm_adversarial items)) reasons)"

definition run_baseline :: "example list \<Rightarrow> eval_error + eval_report" where
  "run_baseline items = label_scores ''keyword baseline'' items (map predict items) None"

text \<open>The loop over the corpus that both passes of \<open>run_llm\<close> make.\<close>

fun classify_items ::
  "(example \<Rightarrow> detection option) \<Rightarrow> classifier_env \<Rightarrow> example list \<Rightarrow> classifier_state \<Rightarrow>
   eval_error + classification list \<times> classifier_state" where
  "classify_items build env [] s = Inr ([], s)"
| "classify_items build env (item # items) s =
     (case build item of
        None \<Rightarrow> Inl ValueError
      | Some d \<Rightarrow>
          (let (c, s1) = classify env (diff_for item) d s in
           case classify_items build env items s1 of
             Inl e \<Rightarrow> Inl e
           | Inr (cs, s2) \<Rightarrow> Inr (c # cs, s2)))"

record cost_stats =
  co_api_calls :: nat
  co_cache_hits :: nat
  co_cache_hit_rate :: pyfloat
  co_rerun_cache_hit_rate :: "pyfloat option"
  co_prefiltered :: nat
  co_schema_failures :: nat
  co_repairs_succeeded :: nat
  co_total_cost_usd :: pyfloat
  co_cost_per_example_usd :: pyfloat
  co_p50_latency_ms :: pyfloat
  co_p95_latency_ms :: pyfloat
  co_prompt_version :: string

definition eval_percentile :: "pyfloat list \<Rightarrow> pyfloat \<Rightarrow> pyfloat" where
  "eval_percentile values fraction = percentile (sort values) fraction"

definition cost_stats_of ::
  "classifier_env \<Rightarrow> example list \<Rightarrow> classifier_state \<Rightarrow> pyfloat option \<Rightarrow> cost_stats" where
  "cost_stats_of env items s rerun =
     \<lparr>co_api_calls = api_calls s, co_cache_hits = cs_cache_hits s, co_cache_hit_rate = cache_hit_rate s,
      co_rerun_cache_hit_rate = rerun, co_prefiltered = cs_prefiltered s,
      co_schema_failures = cs_schema_failures s, co_repairs_succeeded = cs_repairs_succeeded s,
      co_total_cost_usd = total_cost_usd s,
      co_cost_per_example_usd = (if items \<noteq> [] then total_cost_usd s / of_nat (length items) else 0),
      co_p50_latency_ms = eval_percentile (latencies_ms s (Some CLASSIFY)) (50 / 100),
      co_p95_latency_ms = eval_percentile (latencies_ms s (Some CLASSIFY)) (95 / 100),
      co_prompt_version = pt_version (ce_texts env)\<rparr>"

text \<open>
  \<open>rerun_factory\<close> opens a second classifier over what the first one left on disk, so it is a function
  of the first one's final state.
\<close>

definition run_llm ::
  "(example \<Rightarrow> detection option) \<Rightarrow> classifier_env \<Rightarrow> example list \<Rightarrow> classifier_state \<Rightarrow>
   (classifier_state \<Rightarrow> classifier_state) option \<Rightarrow> eval_error + eval_report \<times> cost_stats" where
  "run_llm build env items s rerun_factory =
     (case classify_items build env items s of
        Inl e \<Rightarrow> Inl e
      | Inr (results, cold) \<Rightarrow>
          (case label_scores ''LLM classifier'' items (map cl_cause results)
                  (Some (map (downgrade_value \<circ> cl_downgrade_reason) results)) of
             Inl e \<Rightarrow> Inl e
           | Inr r \<Rightarrow>
               (case rerun_factory of
                  None \<Rightarrow> Inr (r, cost_stats_of env items cold None)
                | Some fresh \<Rightarrow>
                    (case classify_items build env items (fresh cold) of
                       Inl e \<Rightarrow> Inl e
                     | Inr (_, warm) \<Rightarrow> Inr (r, cost_stats_of env items cold (Some (cache_hit_rate warm)))))))"

section \<open>The results page\<close>

text \<open>A report made by \<open>score\<close> has an entry for every class.\<close>

definition class_of :: "eval_report \<Rightarrow> cause_code \<Rightarrow> class_metrics" where
  "class_of r c =
     (case map_of (ev_per_class r) c of
        Some m \<Rightarrow> m | None \<Rightarrow> \<lparr>cx_support = 0, cx_predicted = 0, cx_true_positive = 0\<rparr>)"

definition short_code :: "cause_code \<Rightarrow> string" where
  "short_code c = map hd (split_on (CHR ''_'') (cause_value c))"

definition confusion_cell :: "eval_report \<Rightarrow> cause_code \<Rightarrow> cause_code \<Rightarrow> nat" where
  "confusion_cell r truth predicted =
     (case map_of (ev_confusion r) (truth, predicted) of None \<Rightarrow> 0 | Some n \<Rightarrow> n)"

definition confusion_row :: "eval_report \<Rightarrow> cause_code list \<Rightarrow> cause_code \<Rightarrow> string" where
  "confusion_row r labels truth =
     ''| **'' @ short_code truth @ ''** | '' @
     join '' | '' (map (\<lambda>p. if confusion_cell r truth p = 0 then ''.'' else show_nat (confusion_cell r truth p)) labels) @
     '' |''"

definition confusion_table :: "eval_report \<Rightarrow> cause_code list \<Rightarrow> string list" where
  "confusion_table r labels =
     [''| actual '' @ [CHR 0x5C] @ '' predicted | '' @ join '' | '' (map short_code labels) @ '' |'',
      concat (replicate (length labels + 1) ''|---'') @ ''|''] @ map (confusion_row r labels) labels"

definition baseline_win :: "eval_report \<Rightarrow> eval_report \<Rightarrow> cause_code \<Rightarrow> string option" where
  "baseline_win baseline_report llm_report cause =
     (let base = class_of baseline_report cause; llm = class_of llm_report cause in
      if cx_support base = 0 then None
      else if f1 llm \<le> f1 base \<and> 0 < f1 base
      then Some (''- '' @ quoted (cause_value cause) @ '': baseline F1 '' @ fmt_fixed 2 (f1 base) @ '' vs LLM '' @
        fmt_fixed 2 (f1 llm) @ ''. A keyword list is sufficient here.'')
      else if recall llm < 80 / 100 \<and> recall llm \<le> recall base
      then Some (''- '' @ quoted (cause_value cause) @ '': the LLM recalls only '' @ fmt_pct 0 (recall llm) @
        '' where the baseline reaches '' @ fmt_pct 0 (recall base) @ ''.'')
      else None)"

definition where_baseline_wins :: "eval_report \<Rightarrow> eval_report \<Rightarrow> cause_code list \<Rightarrow> string list" where
  "where_baseline_wins baseline_report llm_report labels =
     (let wins = List.map_filter (baseline_win baseline_report llm_report) labels in
      [[], ''## Where the baseline wins'', []] @
      (if wins = [] then
         [''On this corpus the LLM matched or beat the baseline on every class with '' @
          ''support. That is a statement about a 49-example synthetic corpus, not a general '' @ ''result.'']
       else
         [''These are the classes where the expensive model is not earning its cost, and '' @
          ''they are worth more than the aggregate figures: they say which causes could be '' @
          ''routed to a keyword rule and never sent to a model at all.'',
          []] @ wins))"

text \<open>
  \<open>str\<close> of a float that is a decimal of at most sixteen places, such as a configured threshold; beyond
  that seventeen places are shown.
\<close>

definition str_float :: "pyfloat \<Rightarrow> string" where
  "str_float x =
     (case List.find (\<lambda>k. of_int \<lfloor>x * 10 ^ k\<rfloor> = x * 10 ^ k) [1..<17] of
        Some k \<Rightarrow> fmt_fixed k x | None \<Rightarrow> fmt_fixed 17 x)"

definition headline_row :: "string \<Rightarrow> (eval_report \<Rightarrow> string) \<Rightarrow> eval_report \<Rightarrow> eval_report option \<Rightarrow> string" where
  "headline_row name cell baseline_report llm_report =
     ''| '' @ name @ '' | '' @ cell baseline_report @ '' | '' @
     (case llm_report of None \<Rightarrow> ''not run'' | Some r \<Rightarrow> cell r) @ '' |''"

definition headline_rows :: "eval_report \<Rightarrow> eval_report option \<Rightarrow> string list" where
  "headline_rows b l =
     [headline_row ''**dangerous-error rate** (REAL_REGRESSION called a flake)'' (fmt_pct 1 \<circ> dangerous_error_rate) b l,
      headline_row ''overall accuracy'' (fmt_pct 1 \<circ> accuracy) b l,
      headline_row ''macro F1'' (fmt_fixed 3 \<circ> macro_f1) b l,
      headline_row ''abstention rate (predicted UNKNOWN)'' (fmt_pct 1 \<circ> eval_abstention_rate) b l,
      headline_row ''accuracy when answering'' (fmt_pct 1 \<circ> accuracy_when_answering) b l,
      headline_row ''accuracy on adversarial cases'' (fmt_pct 1 \<circ> adversarial_accuracy) b l]"

definition class_row :: "eval_report \<Rightarrow> eval_report option \<Rightarrow> cause_code \<Rightarrow> string" where
  "class_row baseline_report llm_report cause =
     (let base = class_of baseline_report cause;
          (llm_p, llm_r) = (case llm_report of
             None \<Rightarrow> (''-'', ''-'')
           | Some r \<Rightarrow> (fmt_pct 0 (precision (class_of r cause)), fmt_pct 0 (recall (class_of r cause))))
      in ''| '' @ quoted (cause_value cause) @ '' | '' @ show_nat (cx_support base) @ '' | '' @
         fmt_pct 0 (precision base) @ '' | '' @ fmt_pct 0 (recall base) @ '' | '' @ llm_p @ '' | '' @ llm_r @ '' |'')"

definition scored_labels :: "eval_report \<Rightarrow> cause_code list" where
  "scored_labels r = filter (\<lambda>c. cx_support (class_of r c) \<noteq> 0) all_causes"

definition abstention_section :: "eval_report option \<Rightarrow> string list" where
  "abstention_section llm_report =
     (case llm_report of
        None \<Rightarrow> []
      | Some r \<Rightarrow>
          if ev_downgrade_reasons r = [] then []
          else [''## Why the classifier abstained'', [],
                ''Every abstention carries a machine-readable reason, so a low coverage number '' @
                ''can be diagnosed rather than merely observed.'',
                [], ''| reason | count |'', ''|---|---|''] @
               map (\<lambda>(reason, n). ''| '' @ quoted reason @ '' | '' @ show_nat n @ '' |'')
                 (sort_key (\<lambda>(reason, n). - int n) (ev_downgrade_reasons r)) @ [[]])"

definition cost_section :: "classify_config \<Rightarrow> cost_stats option \<Rightarrow> string list" where
  "cost_section config stats =
     (case stats of
        None \<Rightarrow> []
      | Some c \<Rightarrow>
          [''## Cost and latency'', [], ''| metric | value |'', ''|---|---|'',
           ''| API calls | '' @ show_nat (co_api_calls c) @ '' |'',
           ''| cache hit rate, this (cold) pass | '' @ fmt_pct 1 (co_cache_hit_rate c) @ '' |'',
           ''| cache hit rate on an immediate re-run | '' @
             (case co_rerun_cache_hit_rate c of Some x \<Rightarrow> fmt_pct 1 x @ '' |'' | None \<Rightarrow> ''not measured |''),
           ''| prefiltered (skipped the expensive model) | '' @ show_nat (co_prefiltered c) @ '' |'',
           ''| schema failures | '' @ show_nat (co_schema_failures c) @ '' |'',
           ''| repairs that succeeded | '' @ show_nat (co_repairs_succeeded c) @ '' |'',
           ''| total cost | $'' @ fmt_fixed 4 (co_total_cost_usd c) @ '' |'',
           ''| mean cost per example | $'' @ fmt_fixed 4 (co_cost_per_example_usd c) @ '' |'',
           ''| P50 classify latency | '' @ fmt_fixed 0 (co_p50_latency_ms c) @ '' ms |'',
           ''| P95 classify latency | '' @ fmt_fixed 0 (co_p95_latency_ms c) @ '' ms |'',
           [],
           ''Classifier '' @ quoted (classifier_model config) @ '', gate '' @ quoted (prefilter_model config) @
             '', prompt '' @ quoted (co_prompt_version c) @ '', confidence floor '' @
             str_float (confidence_floor config) @ ''.'',
           [],
           ''Prices come from '' @ [CHR 0x60] @ ''flaketriage.toml'' @ [CHR 0x60] @
           '' and should be checked against the current published list before being quoted.'',
           []])"

definition honesty_section :: "string list" where
  "honesty_section =
     [''## Reading this honestly'', [],
      ''- The corpus is synthetic. The most likely way these numbers mislead is that '' @
      ''hand-written examples are cleaner than real failures: real traces are longer, '' @
      ''noisier, and more often ambiguous.'',
      ''- The author of the corpus also wrote the prompt. Some of the classifier'' @ [CHR 0x27] @
      ''s advantage may be shared vocabulary rather than shared reasoning.'',
      ''- 49 examples is small. A single reclassified example moves overall accuracy by '' @
      ''about two points, so differences of a few points are not meaningful.'',
      ''- The baseline is a genuine attempt, not a straw man. Where it matches the LLM, '' @
      ''the LLM is not earning its cost on that class.'',
      [],
      ''Regenerate with '' @ [CHR 0x60] @ ''make eval'' @ [CHR 0x60] @ ''. Corpus: '' @ [CHR 0x60] @
      ''python eval/generate_corpus.py'' @ [CHR 0x60] @ ''.'',
      []]"

text \<open>
  \<open>items\<close> are the examples of the whole corpus, whatever part of it was scored; \<open>generated\<close> is the
  formatted clock.
\<close>

definition counts_line :: "example list \<Rightarrow> string" where
  "counts_line items =
     show_nat (length items) @ '' examples across '' @ show_nat (length (remdups (map xm_label items))) @
     '' classes; '' @ show_nat (length (filter xm_adversarial items)) @
     '' constructed adversarially (a real regression that presents as a flake, an '' @
     ''infra failure whose trace is full of thread names, cases where UNKNOWN is the '' @
     ''only correct answer).''"

definition render_results ::
  "string \<Rightarrow> string \<Rightarrow> example list \<Rightarrow> eval_report \<Rightarrow> eval_report option \<Rightarrow> cost_stats option \<Rightarrow>
   classify_config \<Rightarrow> string" where
  "render_results generated corpus_version items baseline_report llm_report stats config =
     (let labels = scored_labels baseline_report in
      join [LF]
        ([''# Evaluation results'', [],
          ''Generated '' @ generated @ '' UTC from corpus version '' @ corpus_version @ ''.'', [],
          ''> **The corpus is synthetic and hand-labelled.** These figures are indicative '' @
          ''of behaviour on realistic-looking inputs, not production-validated. No number '' @
          ''here should be read as an accuracy claim about a real test suite.'',
          [], counts_line items, [], ''## Headline'', []] @
         (case llm_report of
            None \<Rightarrow>
              [''The LLM classifier was **not run** (no '' @ [CHR 0x60] @ ''ANTHROPIC_API_KEY'' @
               [CHR 0x60] @
               '' in the environment). Only the baseline is reported. The LLM column is absent '' @
               ''rather than zero.'',
               []]
          | Some r \<Rightarrow> []) @
         [''| metric | baseline | LLM |'', ''|---|---|---|''] @
         headline_rows baseline_report llm_report @
         [[],
          ''The dangerous-error rate is first because it is the only metric here with an '' @
          ''asymmetric cost. Every other error wastes a reader'' @ [CHR 0x27] @
          ''s time; this one tells an engineer to ignore a real bug.'',
          [], ''## Per-class precision and recall'', [],
          ''Per-class rather than overall, because the classes are imbalanced: a classifier '' @
          ''that never predicts REAL_REGRESSION can still post a respectable accuracy '' @ ''number.'',
          [], ''| class | n | baseline P | baseline R | LLM P | LLM R |'', ''|---|---|---|---|---|---|''] @
         map (class_row baseline_report llm_report) labels @
         (case llm_report of None \<Rightarrow> [] | Some r \<Rightarrow> where_baseline_wins baseline_report r labels) @
         [[], ''## Confusion matrix'', []] @
         (case llm_report of
            Some r \<Rightarrow> [''LLM classifier. Rows are ground truth, columns are predictions.'', []] @ confusion_table r labels
          | None \<Rightarrow> [''Baseline. Rows are ground truth, columns are predictions.'', []] @
                      confusion_table baseline_report labels) @
         [[],
          ''Codes are initials: '' @
            join '', '' (map (\<lambda>c. quoted (short_code c) @ '' = '' @ cause_value c) labels) @ ''.'', []] @
         abstention_section llm_report @ cost_section config stats @ honesty_section))"

section \<open>The command\<close>

datatype eval_exit = NoCorpus | NoExamples string | Raised eval_error

text \<open>The page goes to the terminal, or replaces \<open>results/latest.md\<close>.\<close>

datatype eval_output = Printed string | Committed string

record eval_options =
  eo_subset :: "string option"
  eo_no_llm :: bool
  eo_budget_usd :: pyfloat
  eo_no_cache :: bool
  eo_write :: bool

text \<open>A new \<open>ClassificationCache\<close> over the directory another one left.\<close>

definition open_cache :: "bool \<Rightarrow> cache_state \<Rightarrow> cache_state" where
  "open_cache use_cache c =
     c\<lparr>cache_enabled := use_cache, cache_hits := 0, cache_misses := 0, cache_writes := 0\<rparr>"

definition eval_classifier :: "bool \<Rightarrow> cache_state \<Rightarrow> classifier_state" where
  "eval_classifier use_cache disk = new_classifier (Some (open_cache use_cache disk))"

definition reopened :: "classifier_state \<Rightarrow> classifier_state" where
  "reopened cold = (case cs_cache cold of None \<Rightarrow> new_classifier None | Some c \<Rightarrow> eval_classifier True c)"

definition eval_reports ::
  "(example \<Rightarrow> detection option) \<Rightarrow> classifier_env \<Rightarrow> cache_state \<Rightarrow> eval_options \<Rightarrow> example list \<Rightarrow>
   eval_error + eval_report \<times> (eval_report \<times> cost_stats) option" where
  "eval_reports build env disk opts items =
     (case run_baseline items of
        Inl e \<Rightarrow> Inl e
      | Inr b \<Rightarrow>
          if \<not> eo_no_llm opts \<and> ce_client env \<noteq> None
          then (case run_llm build (env\<lparr>ce_budget_usd := eo_budget_usd opts\<rparr>) items
                        (eval_classifier (\<not> eo_no_cache opts) disk)
                        (if eo_no_cache opts then None else Some reopened) of
                  Inl e \<Rightarrow> Inl e
                | Inr (l, c) \<Rightarrow> Inr (b, Some (l, c)))
          else Inr (b, None))"

definition eval_main ::
  "(example \<Rightarrow> detection option) \<Rightarrow> classifier_env \<Rightarrow> cache_state \<Rightarrow> string \<Rightarrow> eval_options \<Rightarrow>
   (string \<times> example list) option \<Rightarrow> eval_exit + eval_output" where
  "eval_main build env disk generated opts corpus =
     (case corpus of
        None \<Rightarrow> Inl NoCorpus
      | Some (corpus_version, examples) \<Rightarrow>
          let wanted = (case eo_subset opts of None \<Rightarrow> [] | Some s \<Rightarrow> s);
              label = str_upper (strip wanted);
              items = (if wanted \<noteq> [] then filter (\<lambda>item. xm_label item = label) examples else examples)
          in if wanted \<noteq> [] \<and> items = [] then Inl (NoExamples label)
             else case eval_reports build env disk opts items of
                    Inl e \<Rightarrow> Inl (Raised e)
                  | Inr (b, llm) \<Rightarrow>
                      (let page = render_results generated corpus_version examples b (map_option fst llm)
                             (map_option snd llm) (ce_config env)
                       in if wanted \<noteq> [] then Inr (Printed page)
                          else if llm = None \<and> \<not> eo_write opts then Inr (Printed page)
                          else Inr (Committed page)))"

end
