(* ===== verification/Eval_Predictions.thy ===== *)
theory Eval_Predictions
  imports Eval_Run
begin

text \<open>
  The baseline's predictions on the corpus, evaluated class by class with the one-pass search of
  \<open>Eval_Baseline\<close>, and the report \<open>score\<close> makes of them.
\<close>

section \<open>The baseline on the corpus\<close>

lemma predict_race_conditions:
  "map predict race_conditions =
     [UNKNOWN, UNKNOWN, RACE_CONDITION, UNKNOWN, UNKNOWN, RACE_CONDITION]"
  by code_simp

lemma predict_timing_dependencies:
  "map predict timing_dependencies =
     [TIMING_DEPENDENCY, TIMING_DEPENDENCY, TIMING_DEPENDENCY, TIMING_DEPENDENCY, TIMING_DEPENDENCY]"
  by code_simp

lemma predict_order_dependencies:
  "map predict order_dependencies =
     [TEST_ORDER_DEPENDENCY, TEST_ORDER_DEPENDENCY, TEST_ORDER_DEPENDENCY, TEST_ORDER_DEPENDENCY,
      TEST_ORDER_DEPENDENCY]"
  by code_simp

lemma predict_external_dependencies:
  "map predict external_dependencies =
     [EXTERNAL_DEPENDENCY, EXTERNAL_DEPENDENCY, EXTERNAL_DEPENDENCY, EXTERNAL_DEPENDENCY,
      EXTERNAL_DEPENDENCY, EXTERNAL_DEPENDENCY]"
  by code_simp

lemma predict_shared_state_leaks:
  "map predict shared_state_leaks =
     [SHARED_STATE_LEAK, SHARED_STATE_LEAK, SHARED_STATE_LEAK, UNKNOWN, SHARED_STATE_LEAK]"
  by code_simp

lemma predict_resource_exhaustion:
  "map predict resource_exhaustion =
     [RESOURCE_EXHAUSTION, RESOURCE_EXHAUSTION, RESOURCE_EXHAUSTION, RESOURCE_EXHAUSTION]"
  by code_simp

lemma predict_infra_flakes:
  "map predict infra_flakes =
     [INFRA_FLAKE, INFRA_FLAKE, INFRA_FLAKE, INFRA_FLAKE, INFRA_FLAKE]"
  by code_simp

lemma predict_real_regressions:
  "map predict real_regressions =
     [UNKNOWN, UNKNOWN, UNKNOWN, TIMING_DEPENDENCY, UNKNOWN]"
  by code_simp

lemma predict_unknowns:
  "map predict unknowns =
     [UNKNOWN, UNKNOWN, UNKNOWN, TIMING_DEPENDENCY, UNKNOWN, UNKNOWN, UNKNOWN, UNKNOWN]"
  by code_simp

lemmas predictions =
  predict_race_conditions predict_timing_dependencies predict_order_dependencies predict_external_dependencies
  predict_shared_state_leaks predict_resource_exhaustion predict_infra_flakes predict_real_regressions
  predict_unknowns

lemma corpus_labels:
  "those (map (cause_of_value \<circ> xm_label) all_examples) =
     Some (concat [replicate 6 RACE_CONDITION, replicate 5 TIMING_DEPENDENCY, replicate 5 TEST_ORDER_DEPENDENCY,
       replicate 6 EXTERNAL_DEPENDENCY, replicate 5 SHARED_STATE_LEAK, replicate 4 RESOURCE_EXHAUSTION,
       replicate 5 INFRA_FLAKE, replicate 5 REAL_REGRESSION, replicate 8 UNKNOWN])"
  by code_simp

lemma corpus_adversarial:
  "map xm_adversarial all_examples =
     replicate 4 False @ [True] @ replicate 9 False @ [True] @ replicate 6 False @ [True] @ replicate 4 False @
     [True] @ replicate 7 False @ [True, False] @ replicate 5 True @
     [False, False, False, True, False, False, True, True]"
  by code_simp

lemma corpus_builds: "build_corpus = Some all_examples"
proof -
  have "distinct (map xm_id all_examples)" by code_simp
  then show ?thesis by (simp add: build_corpus_def)
qed

definition baseline_counts :: "(cause_code \<times> class_metrics) list" where
  "baseline_counts = map (\<lambda>(c, n, p, t). (c, \<lparr>cx_support = n, cx_predicted = p, cx_true_positive = t\<rparr>))
     [(RACE_CONDITION, 6, 2, 2), (TIMING_DEPENDENCY, 5, 7, 5), (TEST_ORDER_DEPENDENCY, 5, 5, 5),
      (EXTERNAL_DEPENDENCY, 6, 6, 6), (SHARED_STATE_LEAK, 5, 4, 4), (RESOURCE_EXHAUSTION, 4, 4, 4),
      (INFRA_FLAKE, 5, 5, 5), (REAL_REGRESSION, 5, 0, 0), (UNKNOWN, 8, 16, 7)]"

definition baseline_confusion :: "((cause_code \<times> cause_code) \<times> nat) list" where
  "baseline_confusion =
     [((RACE_CONDITION, UNKNOWN), 4), ((RACE_CONDITION, RACE_CONDITION), 2),
      ((TIMING_DEPENDENCY, TIMING_DEPENDENCY), 5), ((TEST_ORDER_DEPENDENCY, TEST_ORDER_DEPENDENCY), 5),
      ((EXTERNAL_DEPENDENCY, EXTERNAL_DEPENDENCY), 6), ((SHARED_STATE_LEAK, SHARED_STATE_LEAK), 4),
      ((SHARED_STATE_LEAK, UNKNOWN), 1), ((RESOURCE_EXHAUSTION, RESOURCE_EXHAUSTION), 4),
      ((INFRA_FLAKE, INFRA_FLAKE), 5), ((REAL_REGRESSION, UNKNOWN), 4),
      ((REAL_REGRESSION, TIMING_DEPENDENCY), 1), ((UNKNOWN, UNKNOWN), 7), ((UNKNOWN, TIMING_DEPENDENCY), 1)]"

definition baseline_result :: eval_report where
  "baseline_result =
     \<lparr>ev_name = ''keyword baseline'', ev_total = 49, ev_correct = 38, ev_abstentions = 16,
      ev_dangerous_errors = 1, ev_regression_support = 5, ev_adversarial_total = 13,
      ev_adversarial_correct = 6, ev_per_class = baseline_counts, ev_confusion = baseline_confusion,
      ev_downgrade_reasons = []\<rparr>"

lemma baseline_on_corpus: "run_baseline all_examples = Inr baseline_result"
  unfolding run_baseline_def label_scores_def corpus_labels corpus_adversarial all_examples_def map_append predictions
  by code_simp

end
