(* ===== verification/Eval_Facts.thy ===== *)
theory Eval_Facts
  imports Eval_Predictions
begin

text \<open>
  What the evaluation establishes: the figures of the results page that follow from the baseline's
  predictions, what the page's tables add up to, what a second run costs, and when the committed
  page is replaced.
\<close>

section \<open>Rendering a fraction\<close>

lemma show_small: "n < 10 \<Longrightarrow> show_nat n = [digit n]"
  by (simp add: show_nat.simps)
lemma show_step: "10 \<le> n \<Longrightarrow> show_nat n = show_nat (n div 10) @ [digit (n mod 10)]"
  by (simp add: show_nat.simps [of n])

definition round_frac :: "nat \<Rightarrow> nat \<Rightarrow> nat" where
  "round_frac p q =
     (if 2 * (p mod q) < q then p div q
      else if q < 2 * (p mod q) then p div q + 1
      else if even (p div q) then p div q else p div q + 1)"

lemma round_half_even_frac:
  assumes "0 < q"
  shows "round_half_even (of_nat p / of_nat q) = int (round_frac p q)"
proof -
  have f: "\<lfloor>(of_nat p :: rat) / of_nat q\<rfloor> = int (p div q)"
    by (metis floor_divide_of_nat_eq)
  have "(of_nat p :: rat) = of_nat (p div q) * of_nat q + of_nat (p mod q)"
    by (metis div_mult_mod_eq of_nat_add of_nat_mult)
  then have d: "(of_nat p :: rat) / of_nat q - of_nat (p div q) = of_nat (p mod q) / of_nat q"
    using assms by (simp add: field_simps)
  have "(of_nat (p mod q) :: rat) / of_nat q < 1 / 2 \<longleftrightarrow> of_nat (2 * (p mod q)) < (of_nat q :: rat)"
    "(1 :: rat) / 2 < of_nat (p mod q) / of_nat q \<longleftrightarrow> of_nat q < (of_nat (2 * (p mod q)) :: rat)"
    using assms by (simp_all add: divide_less_eq less_divide_eq mult.commute)
  note lt = this [unfolded of_nat_less_iff]
  show ?thesis
    unfolding round_half_even_def Let_def f of_int_of_nat_eq d lt round_frac_def by simp
qed

definition fmt_frac :: "nat \<Rightarrow> nat \<Rightarrow> nat \<Rightarrow> string" where
  "fmt_frac k p q =
     (let n = round_frac (p * 10 ^ k) q
      in show_nat (n div 10 ^ k) @ (if k = 0 then [] else ''.'' @ zfill k (show_nat (n mod 10 ^ k))))"

lemma fmt_fixed_frac: "0 < q \<Longrightarrow> fmt_fixed k (of_nat p / of_nat q) = fmt_frac k p q"
  using round_half_even_frac [of q "p * 10 ^ k"]
  by (simp add: fmt_fixed_def fmt_frac_def Let_def times_divide_eq_left)

lemma fmt_pct_rate:
  "fmt_pct k (rate_of a b) = (if b = 0 then fmt_frac k 0 1 else fmt_frac k (100 * a) b) @ ''%''"
  using fmt_fixed_frac [of b k "100 * a"] fmt_fixed_frac [of 1 k 0]
  by (simp add: fmt_pct_def rate_of_def)

lemma decimal_digits: "digit 0 = CHR ''0''" "digit 1 = CHR ''1''" "digit 2 = CHR ''2''" "digit 3 = CHR ''3''"
  "digit 4 = CHR ''4''" "digit 5 = CHR ''5''" "digit 6 = CHR ''6''" "digit 7 = CHR ''7''" "digit 8 = CHR ''8''"
  "digit 9 = CHR ''9''" "digit (Suc 0) = CHR ''1''"
  by code_simp+

lemmas fmt_frac_simps = fmt_frac_def Let_def round_frac_def show_small show_step decimal_digits zfill_def
section \<open>The figures of the results page\<close>

lemmas rates =
  accuracy_def eval_abstention_rate_def accuracy_when_answering_def dangerous_error_rate_def
  adversarial_accuracy_def

lemma baseline_macro_f1: "fmt_fixed 3 (macro_f1 baseline_result) = ''0.756''"
proof -
  have "macro_f1 baseline_result = of_nat 245 / of_nat 324"
    by (simp add: macro_f1_def baseline_result_def baseline_counts_def f1_def precision_def recall_def rate_of_def
        Let_def)
  then show ?thesis by (simp only: fmt_fixed_frac) (simp add: fmt_frac_simps del: show_nat.simps)
qed

lemma baseline_headline:
  "map (\<lambda>f. fmt_pct 1 (f baseline_result))
     [dangerous_error_rate, accuracy, eval_abstention_rate, accuracy_when_answering, adversarial_accuracy] =
   [''20.0%'', ''77.6%'', ''32.7%'', ''93.9%'', ''46.2%'']"
proof -
  have "answered_correct baseline_result = 31" "answered baseline_result = 33"
    by (simp_all add: answered_correct_def answered_def baseline_result_def baseline_confusion_def)
  then show ?thesis
    unfolding rates list.map fmt_pct_rate
    by (simp add: baseline_result_def fmt_frac_simps del: show_nat.simps)
qed

lemma baseline_classes:
  "map (\<lambda>c. let m = class_of baseline_result c in (c, cx_support m, fmt_pct 0 (precision m), fmt_pct 0 (recall m)))
     all_causes =
   [(RACE_CONDITION, 6, ''100%'', ''33%''), (TIMING_DEPENDENCY, 5, ''71%'', ''100%''),
    (TEST_ORDER_DEPENDENCY, 5, ''100%'', ''100%''), (EXTERNAL_DEPENDENCY, 6, ''100%'', ''100%''),
    (SHARED_STATE_LEAK, 5, ''100%'', ''80%''), (RESOURCE_EXHAUSTION, 4, ''100%'', ''100%''),
    (INFRA_FLAKE, 5, ''100%'', ''100%''), (REAL_REGRESSION, 5, ''0%'', ''0%''), (UNKNOWN, 8, ''44%'', ''88%'')]"
  unfolding all_causes_def list.map Let_def precision_def recall_def fmt_pct_rate
  by (simp add: class_of_def baseline_result_def baseline_counts_def fmt_frac_simps del: show_nat.simps)

lemma baseline_labels: "scored_labels baseline_result = all_causes"
  by (simp add: scored_labels_def class_of_def baseline_result_def baseline_counts_def all_causes_def)

text \<open>
  C13. The committed table is what the code computes: on the corpus as it is, which has no
  duplicate id, the rules of the baseline give the figures of \<open>results/latest.md\<close>,
  each to the digits printed: the headline column, and per class the support, precision and
  recall. One of the five regressions is called a flake and none is recognised.
\<close>

theorem committed_baseline_figures:
  "build_corpus = Some all_examples \<and>
   (\<exists>r. run_baseline all_examples = Inr r \<and>
      map (\<lambda>f. f r) [fmt_pct 1 \<circ> dangerous_error_rate, fmt_pct 1 \<circ> accuracy, fmt_fixed 3 \<circ> macro_f1,
        fmt_pct 1 \<circ> eval_abstention_rate, fmt_pct 1 \<circ> accuracy_when_answering,
        fmt_pct 1 \<circ> adversarial_accuracy] =
      [''20.0%'', ''77.6%'', ''0.756'', ''32.7%'', ''93.9%'', ''46.2%''] \<and>
      map (\<lambda>c. let m = class_of r c in (c, cx_support m, fmt_pct 0 (precision m), fmt_pct 0 (recall m)))
        (scored_labels r) =
      [(RACE_CONDITION, 6, ''100%'', ''33%''), (TIMING_DEPENDENCY, 5, ''71%'', ''100%''),
       (TEST_ORDER_DEPENDENCY, 5, ''100%'', ''100%''), (EXTERNAL_DEPENDENCY, 6, ''100%'', ''100%''),
       (SHARED_STATE_LEAK, 5, ''100%'', ''80%''), (RESOURCE_EXHAUSTION, 4, ''100%'', ''100%''),
       (INFRA_FLAKE, 5, ''100%'', ''100%''), (REAL_REGRESSION, 5, ''0%'', ''0%''), (UNKNOWN, 8, ''44%'', ''88%'')])"
  using baseline_headline baseline_macro_f1 baseline_classes
  by (simp add: corpus_builds baseline_on_corpus baseline_labels)

section \<open>A second run is free\<close>

text \<open>The answer \<open>c\<close> of an example is in the cache of a classifier.\<close>

definition cached_answer ::
  "(example \<Rightarrow> detection option) \<Rightarrow> classifier_env \<Rightarrow> example \<Rightarrow> classification \<Rightarrow> classifier_state \<Rightarrow> bool" where
  "cached_answer build env item c s \<longleftrightarrow>
     (\<exists>ch d. cs_cache s = Some ch \<and> build item = Some d \<and>
        fst (cache_get (classify_key env d (diff_for item)) ch) = Some c)"

definition accepting :: "classifier_state \<Rightarrow> bool" where
  "accepting s \<longleftrightarrow> (\<exists>ch. cs_cache s = Some ch \<and> cache_enabled ch \<and> (\<forall>k. cache_writable ch k))"

lemma classify_accepting:
  assumes "ce_client env = Some client" and "accepting s" and "classify env diff d s = (c, s1)"
  shows "accepting s1"
proof -
  obtain ch where ch: "cs_cache s = Some ch" "cache_enabled ch" "\<forall>k. cache_writable ch k"
    using assms(2) by (auto simp: accepting_def)
  have "cache_enabled (snd (cache_get k ch)) \<and> cache_writable (snd (cache_get k ch)) k'" for k k'
    using file_cache.accepts_get [where k = k' and k' = k and s = ch] ch by simp
  moreover have "cache_enabled (cache_put k c' t) \<longleftrightarrow> cache_enabled t" "cache_writable (cache_put k c' t) = cache_writable t"
    for k c' t by (simp_all add: cache_put_def)
  ultimately show ?thesis
    using classify_cache [OF assms(1) ch(1) assms(3)] by (auto simp: accepting_def split: option.splits)
qed

lemma classify_items_keep:
  assumes "ce_client env = Some client" and "classify_items build env items s = Inr (cs, s')"
    and "cs_cache s = Some ch" and "fst (cache_get k ch) = Some c"
  shows "\<exists>ch'. cs_cache s' = Some ch' \<and> fst (cache_get k ch') = Some c"
  using assms(2-4)
proof (induction items arbitrary: s cs ch)
  case (Cons item items)
  obtain d c1 s1 cs' where d: "build item = Some d" "classify env (diff_for item) d s = (c1, s1)"
    "classify_items build env items s1 = Inr (cs', s')"
    using Cons.prems(1) by (auto split: option.splits prod.splits sum.splits)
  from classify_keeps_answer [OF assms(1) Cons.prems(2) d(2) Cons.prems(3)] Cons.IH [OF d(3)] show ?case by blast
qed simp

lemma cold_pass_fills:
  assumes "ce_client env = Some client" and "classify_items build env items s = Inr (cs, s')"
    and "accepting s" and "list_all is_cacheable cs"
  shows "list_all2 (\<lambda>item c. cached_answer build env item c s') items cs"
  using assms(2-4)
proof (induction items arbitrary: s cs)
  case (Cons item items)
  obtain d c1 s1 cs' where d: "build item = Some d" "classify env (diff_for item) d s = (c1, s1)"
    "classify_items build env items s1 = Inr (cs', s')" "cs = c1 # cs'"
    using Cons.prems(1) by (auto split: option.splits prod.splits sum.splits)
  obtain ch where ch: "cs_cache s = Some ch" "cache_enabled ch" "\<forall>k. cache_writable ch k"
    using Cons.prems(2) by (auto simp: accepting_def)
  have "is_cacheable c1" using Cons.prems(3) d(4) by simp
  from classify_leaves_answer [OF assms(1) ch(1,2) _ d(2) this] ch(3) obtain ch1
    where "cs_cache s1 = Some ch1" "fst (cache_get (classify_key env d (diff_for item)) ch1) = Some c1" by blast
  from classify_items_keep [OF assms(1) d(3) this] d(1) have "cached_answer build env item c1 s'"
    by (auto simp: cached_answer_def)
  with Cons.IH [OF d(3)] classify_accepting [OF assms(1) Cons.prems(2) d(2)] Cons.prems(3) d(4) show ?case by simp
qed simp

lemma warm_pass_reads:
  assumes "ce_client env = Some client" and "list_all2 (\<lambda>item c. cached_answer build env item c s) items cs"
  shows "\<exists>s'. classify_items build env items s = Inr (cs, s') \<and> cs_calls s' = cs_calls s \<and>
    cs_cache_misses s' = cs_cache_misses s \<and> cs_cache_hits s' = cs_cache_hits s + length items"
  using assms(2)
proof (induction items arbitrary: s cs)
  case (Cons item items)
  obtain c cs' where cs: "cs = c # cs'" "cached_answer build env item c s"
    "list_all2 (\<lambda>item c. cached_answer build env item c s) items cs'"
    using Cons.prems by (auto simp: list_all2_Cons1)
  then obtain ch d where d: "cs_cache s = Some ch" "build item = Some d"
    "fst (cache_get (classify_key env d (diff_for item)) ch) = Some c" by (auto simp: cached_answer_def)
  obtain s1 where s1: "classify env (diff_for item) d s = (c, s1)" "cs_calls s1 = cs_calls s"
    "cs_cache_misses s1 = cs_cache_misses s" "cs_cache_hits s1 = cs_cache_hits s + 1"
    using assms(1) d
    by (cases "cache_get (classify_key env d (diff_for item)) ch") (auto simp: classify_def cache_lookup_def Let_def)
  have "cached_answer build env i c' s1" if "cached_answer build env i c' s" for i c'
  proof -
    from that obtain d' where "build i = Some d'" "fst (cache_get (classify_key env d' (diff_for i)) ch) = Some c'"
      using d(1) by (auto simp: cached_answer_def)
    with classify_keeps_answer [OF assms(1) d(1) s1(1)] show ?thesis by (auto simp: cached_answer_def)
  qed
  with cs(3) have "list_all2 (\<lambda>item c. cached_answer build env item c s1) items cs'"
    by (blast intro: list_all2_mono)
  from Cons.IH [OF this] s1 d(2) cs(1) show ?case by auto
qed simp

lemma get_opened: "cache_enabled ch \<Longrightarrow> fst (cache_get k (open_cache True ch)) = fst (cache_get k ch)"
  by (simp add: cache_get_def open_cache_def split: option.split cache_entry.split)

lemma reopened_keeps: "accepting s \<Longrightarrow> cached_answer build env item c s \<Longrightarrow> cached_answer build env item c (reopened s)"
  by (auto simp: cached_answer_def accepting_def reopened_def eval_classifier_def new_classifier_def get_opened)

lemma classify_items_accepting:
  assumes "ce_client env = Some client" and "classify_items build env items s = Inr (cs, s')" and "accepting s"
  shows "accepting s'"
  using assms(2,3)
proof (induction items arbitrary: s cs)
  case (Cons item items)
  then show ?case
    by (auto split: option.splits prod.splits sum.splits dest: classify_accepting [OF assms(1)])
qed simp

text \<open>
  C24. Once a pass over the corpus has left only answers that are not transient, in a cache that
  can be written everywhere, the immediate re-run reports a hit rate of 100% and a second
  invocation gives the same report without a call. Its own first pass, which the page calls the
  cold one, then costs nothing: the figures of a second invocation are not the cost of the tool.
\<close>

theorem second_run_is_free:
  assumes "ce_client env = Some client" and "\<forall>k. cache_writable disk k" and "items \<noteq> []"
    and "classify_items build env items (eval_classifier True disk) = Inr (results, cold)"
    and "list_all is_cacheable results"
    and "run_llm build env items (eval_classifier True disk) (Some reopened) = Inr (r, c)"
  shows "co_rerun_cache_hit_rate c = Some 1 \<and>
    (\<exists>c'. run_llm build env items (reopened cold) (Some reopened) = Inr (r, c') \<and>
       co_api_calls c' = 0 \<and> co_total_cost_usd c' = 0 \<and> co_cache_hit_rate c' = 1)"
proof -
  have start: "accepting (eval_classifier True disk)"
    using assms(2) by (simp add: accepting_def eval_classifier_def new_classifier_def open_cache_def)
  have cold: "accepting cold" "list_all2 (\<lambda>item c. cached_answer build env item c cold) items results"
    using classify_items_accepting [OF assms(1,4) start] cold_pass_fills [OF assms(1,4) start assms(5)] by blast+
  then have warm: "list_all2 (\<lambda>item c. cached_answer build env item c (reopened cold)) items results"
    by (blast intro: list_all2_mono reopened_keeps)
  have fresh: "cs_calls (reopened t) = []" "cs_cache_misses (reopened t) = 0" "cs_cache_hits (reopened t) = 0" for t
    by (simp_all add: reopened_def eval_classifier_def new_classifier_def split: option.split)
  obtain s' where s': "classify_items build env items (reopened cold) = Inr (results, s')" "cs_calls s' = []"
    "cs_cache_misses s' = 0" "cs_cache_hits s' = length items"
    using warm_pass_reads [OF assms(1) warm] by (auto simp: fresh)
  have "accepting (reopened cold)"
    using cold(1) by (auto simp: accepting_def reopened_def eval_classifier_def new_classifier_def open_cache_def)
  then have again: "accepting s'" "list_all2 (\<lambda>item c. cached_answer build env item c s') items results"
    using classify_items_accepting [OF assms(1) s'(1)] cold_pass_fills [OF assms(1) s'(1) _ assms(5)] by blast+
  then have "list_all2 (\<lambda>item c. cached_answer build env item c (reopened s')) items results"
    by (blast intro: list_all2_mono reopened_keeps)
  from warm_pass_reads [OF assms(1) this] obtain s2
    where s2: "classify_items build env items (reopened s') = Inr (results, s2)" by blast
  have "cache_hit_rate s' = 1"
    using s' assms(3) by (simp add: cache_hit_rate_def)
  with assms(4,6) s' s2 show ?thesis
    by (auto simp: run_llm_def cost_stats_of_def api_calls_def total_cost_usd_def split: sum.splits)
qed

definition cold_disk :: cache_state where
  "cold_disk = \<lparr>cache_enabled = True, cache_entries = (\<lambda>k. None), cache_writable = (\<lambda>k. True),
     cache_hits = 0, cache_misses = 0, cache_writes = 0\<rparr>"

definition sample_item :: example where
  "sample_item = example ''x'' ''UNKNOWN'' [] [] []"

text \<open>An answer that is no JSON twice over is stored, and served the second time.\<close>

lemma sample_run:
  "\<exists>c s. classify (dollar_env 9) None flaky_detection (eval_classifier True cold_disk) = (c, s) \<and>
     is_cacheable c \<and> api_calls s = 3"
proof -
  have models: "prefilter_model default_classify_config = ''claude-haiku-4-5-20251001''"
    "classifier_model default_classify_config = ''claude-sonnet-5''"
    "prefilter_enabled default_classify_config"
    by (simp_all add: default_classify_config_def)
  have env: "ce_client (dollar_env b) = Some (\<lambda>n rq. \<lparr>mr_text = Some ''text'', mr_input_tokens = 0,
        mr_output_tokens = 1, mr_latency_ms = 0, mr_error = None\<rparr>)"
    "ce_config (dollar_env b) = default_classify_config" "ce_budget_usd (dollar_env b) = b"
    "ce_loads (dollar_env b) = (\<lambda>t. None)" for b
    by (simp_all add: dollar_env_def)
  have "strip ''text'' = ''text''" by code_simp
  then show ?thesis
    by (simp add: eval_classifier_def open_cache_def cold_disk_def env models classify_def cache_lookup_def
        cache_get_def new_classifier_def classify_fresh_def would_exceed_budget_def total_cost_usd_def
        mean_classify_cost_def prefilter_def call_model_def read_prefilter_verdict_def classify_with_repair_def
        validate_def parse_and_validate_def repair_once_def store_result_def Let_def dollar_call(2) api_calls_def
        is_cacheable_def abstain_def)
qed

theorem second_run_is_free_witness:
  "\<exists>r c. run_llm (\<lambda>x. Some flaky_detection) (dollar_env 9) [sample_item] (eval_classifier True cold_disk)
     (Some reopened) = Inr (r, c) \<and> co_api_calls c = 3 \<and> co_rerun_cache_hit_rate c = Some 1"
proof -
  let ?build = "\<lambda>x :: example. Some flaky_detection"
  obtain client where client: "ce_client (dollar_env 9) = Some client" by (simp add: dollar_env_def)
  obtain c s where run: "classify (dollar_env 9) None flaky_detection (eval_classifier True cold_disk) = (c, s)"
    "is_cacheable c" "api_calls s = 3"
    using sample_run by blast
  have "diff_for sample_item = None" by (simp add: diff_for_def sample_item_def example_def)
  with run have items: "classify_items ?build (dollar_env 9) [sample_item] (eval_classifier True cold_disk) = Inr ([c], s)"
    "classify_items ?build (dollar_env 9) [sample_item] t = Inr ([fst (classify (dollar_env 9) None flaky_detection t)],
       snd (classify (dollar_env 9) None flaky_detection t))" for t
    by (simp_all split: prod.split)
  have "member_of cause_value all_causes ''UNKNOWN'' = Some UNKNOWN"
    by code_simp
  then obtain r where "label_scores ''LLM classifier'' [sample_item] [cl_cause c]
      (Some [downgrade_value (cl_downgrade_reason c)]) = Inr r"
    by (simp add: label_scores_def sample_item_def example_def score_def or_default_def)
  then obtain k where llm: "run_llm ?build (dollar_env 9) [sample_item] (eval_classifier True cold_disk) (Some reopened) =
      Inr (r, k)" "co_api_calls k = 3"
    using items run(3) by (simp add: run_llm_def cost_stats_of_def)
  have "\<forall>k. cache_writable cold_disk k" by (simp add: cold_disk_def)
  from second_run_is_free [OF client this _ items(1) _ llm(1)] run(2) llm show ?thesis by auto
qed

section \<open>Which page is committed\<close>


definition quiet_options :: "string option \<Rightarrow> bool \<Rightarrow> eval_options" where
  "quiet_options only write =
     \<lparr>eo_subset = only, eo_no_llm = True, eo_budget_usd = 2, eo_no_cache = False, eo_write = write\<rparr>"


text \<open>
  A run for one label prints a page whose first line of figures still describes the whole corpus: for
  the race conditions it announces 49 examples across nine classes above figures of six.
\<close>

theorem label_page_counts_the_corpus:
  "\<exists>r. eval_main build env disk g (quiet_options (Some '' race_condition '') write) (Some (v, all_examples)) =
       Inr (Printed (render_results g v all_examples r None None (ce_config env))) \<and>
     ev_total r = 6 \<and> scored_labels r = [RACE_CONDITION] \<and>
     take 29 (counts_line all_examples) = ''49 examples across 9 classes;''"
proof -
  have label: "str_upper (strip '' race_condition '') = ''RACE_CONDITION''" by code_simp
  have six: "filter (\<lambda>item. xm_label item = ''RACE_CONDITION'') all_examples = race_conditions"
    by code_simp
  have "those (map (cause_of_value \<circ> xm_label) race_conditions) = Some (replicate 6 RACE_CONDITION)"
    "map xm_adversarial race_conditions = [False, False, False, False, True, False]"
    by code_simp+
  then have "\<exists>r. run_baseline race_conditions = Inr r \<and> ev_total r = 6 \<and> scored_labels r = [RACE_CONDITION]"
    unfolding run_baseline_def label_scores_def predict_race_conditions
    by (simp add: score_def or_default_def numeral_eq_Suc score_step_def empty_report_def scored_labels_def
        class_of_def all_causes_def at_key_def)
  moreover have "take 29 (counts_line all_examples) = ''49 examples across 9 classes;''"
    by code_simp
  ultimately show ?thesis
    by (auto simp: eval_main_def eval_reports_def quiet_options_def Let_def label six race_conditions_def)
qed

end
