(* ===== verification/Coverage_Gate.thy ===== *)
theory Coverage_Gate
  imports Junit
begin

text \<open>
  The coverage floor of the deterministic packages (\<open>scripts/check_core_coverage.py\<close>). A report is
  the root of its element tree; no report is a missing file. The result is the exit status with what
  is printed, or the \<open>ValueError\<close> of a rate that is no number.
\<close>

section \<open>The program\<close>

text \<open>\<open>findall(".//tag")\<close>: the descendants with a tag, in document order.\<close>

fun descendants :: "string \<Rightarrow> element \<Rightarrow> element list" where
  "descendants tag (Element t attrs txt children) =
     concat (map (\<lambda>c. (if el_tag c = tag then [c] else []) @ descendants tag c) children)"

definition CORE_PACKAGES :: "(string \<times> pyfloat) list" where
  "CORE_PACKAGES = [(''detect'', 4 / 5), (''identity'', 4 / 5), (''policy'', 4 / 5)]"

record gate_result =
  gr_status :: nat
  gr_out :: "string list"
  gr_err :: "string list"

fun float_below :: "float_value \<Rightarrow> pyfloat \<Rightarrow> bool" where
  "float_below (FFinite x) y \<longleftrightarrow> x < y"
| "float_below (FInfinity negative) y \<longleftrightarrow> negative"
| "float_below FNaN y \<longleftrightarrow> False"

fun float_reaches :: "float_value \<Rightarrow> pyfloat \<Rightarrow> bool" where
  "float_reaches (FFinite x) y \<longleftrightarrow> y \<le> x"
| "float_reaches (FInfinity negative) y \<longleftrightarrow> \<not> negative"
| "float_reaches FNaN y \<longleftrightarrow> False"

fun float_pct :: "nat \<Rightarrow> float_value \<Rightarrow> string" where
  "float_pct k (FFinite x) = fmt_pct k x"
| "float_pct k (FInfinity negative) = (if negative then ''-inf%'' else ''inf%'')"
| "float_pct k FNaN = ''nan%''"

definition ljust :: "nat \<Rightarrow> string \<Rightarrow> string" where
  "ljust w s = s @ replicate (w - length s) (CHR '' '')"

definition rjust :: "nat \<Rightarrow> string \<Rightarrow> string" where
  "rjust w s = replicate (w - length s) (CHR '' '') @ s"

text \<open>The dictionary of rates: the last package of a name counts.\<close>

fun package_rates :: "element list \<Rightarrow> (string \<times> float_value) list \<Rightarrow> (string \<times> float_value) list option" where
  "package_rates [] rates = Some rates"
| "package_rates (p # ps) rates =
     (case parse_float (case el_get p ''line-rate'' of None \<Rightarrow> ''0'' | Some r \<Rightarrow> r) of
        None \<Rightarrow> None
      | Some v \<Rightarrow> package_rates ps ((case el_get p ''name'' of None \<Rightarrow> [] | Some n \<Rightarrow> n, v) # rates))"

text \<open>The first loop: the packages reported, the failures and the packages missing.\<close>

fun check_packages ::
  "(string \<times> float_value) list \<Rightarrow> (string \<times> pyfloat) list \<Rightarrow> string list \<times> string list \<times> string list" where
  "check_packages rates [] = ([], [], [])"
| "check_packages rates ((name, lowest) # rest) =
     (let (out, failures, missing) = check_packages rates rest in
      case map_of rates name of
        None \<Rightarrow> (out, failures, name # missing)
      | Some rate \<Rightarrow>
          (((if float_reaches rate lowest then ''ok '' else ''FAIL'') @ '' '' @ ljust 12 name @ '' '' @
            rjust 6 (float_pct 1 rate) @ ''  (floor '' @ fmt_pct 0 lowest @ '')'') # out,
           (if float_below rate lowest
            then (name @ '' at '' @ float_pct 1 rate @ '', below '' @ fmt_pct 0 lowest) # failures else failures),
           missing))"

definition coverage_main :: "element option \<Rightarrow> gate_result option" where
  "coverage_main report =
     (case report of
        None \<Rightarrow> Some \<lparr>gr_status = 2, gr_out = [],
          gr_err = [''coverage.xml not found; run '' @ [CHR 0x60] @ ''make cov'' @ [CHR 0x60] @ '' rather than this script alone.'']\<rparr>
      | Some tree \<Rightarrow>
          (case package_rates (descendants ''package'' tree) [] of
             None \<Rightarrow> None
           | Some rates \<Rightarrow>
               let (out, low, missing) = check_packages rates (sort_key fst CORE_PACKAGES);
                   absent = map (\<lambda>n. ''FAIL '' @ ljust 12 n @ ''  absent from coverage.xml'') missing;
                   failures = low @ map (\<lambda>n. n @ '' is absent from the coverage report'') missing
               in Some (if failures \<noteq> []
                    then \<lparr>gr_status = 1, gr_out = out @ absent,
                      gr_err = (LF # ''The deterministic core is below its coverage floor:'') #
                        map (\<lambda>f. ''  - '' @ f) failures\<rparr>
                    else \<lparr>gr_status = 0, gr_out = out @ absent @ [LF # ''Deterministic core meets its coverage floor.''],
                      gr_err = []\<rparr>)))"

section \<open>What a pass means\<close>

definition meets_floor :: "(string \<times> float_value) list \<Rightarrow> string \<times> pyfloat \<Rightarrow> bool" where
  "meets_floor rates p = (case map_of rates (fst p) of None \<Rightarrow> False | Some rate \<Rightarrow> \<not> float_below rate (snd p))"

lemma check_packages_ok:
  "(case check_packages rates ps of (out, low, missing) \<Rightarrow> low = [] \<and> missing = []) \<longleftrightarrow> list_all (meets_floor rates) ps"
proof (induction ps)
  case (Cons p ps)
  obtain name lowest where p: "p = (name, lowest)" by (cases p)
  obtain out low missing where "check_packages rates ps = (out, low, missing)" by (cases "check_packages rates ps")
  with Cons.IH show ?case
    unfolding p by (cases "map_of rates name") (simp_all add: meets_floor_def Let_def)
qed simp

text \<open>
  The gate passes exactly when every core package is in the report and not below its floor; a
  package that vanished from the report fails it.
\<close>

theorem coverage_gate_passes:
  "coverage_main report \<noteq> None \<and> gr_status (the (coverage_main report)) = 0 \<longleftrightarrow>
   (\<exists>tree rates. report = Some tree \<and> package_rates (descendants ''package'' tree) [] = Some rates \<and>
      list_all (meets_floor rates) CORE_PACKAGES)"
proof (cases report)
  case (Some tree)
  show ?thesis
  proof (cases "package_rates (descendants ''package'' tree) []")
    case rates: (Some rates)
    have sorted: "sort_key fst CORE_PACKAGES = CORE_PACKAGES"
      by (simp add: CORE_PACKAGES_def)
    show ?thesis
      using check_packages_ok [of rates CORE_PACKAGES]
      by (auto simp: coverage_main_def Some rates sorted Let_def split: prod.splits)
  qed (simp add: coverage_main_def Some)
qed (simp add: coverage_main_def)

text \<open>A rate that is not a number is printed as a failure and passes.\<close>

lemma nan_passes:
  "coverage_main (Some (Element ''coverage'' [] None (map (\<lambda>(n, f).
     Element ''package'' [(''name'', n), (''line-rate'', ''nan'')] None []) CORE_PACKAGES))) =
   Some \<lparr>gr_status = 0,
     gr_out = map (\<lambda>(n, f). ''FAIL '' @ ljust 12 n @ ''   nan%  (floor '' @ fmt_pct 0 f @ '')'') CORE_PACKAGES @
       [LF # ''Deterministic core meets its coverage floor.''], gr_err = []\<rparr>"
proof -
  have "parse_float ''nan'' = Some FNaN" by code_simp
  then show ?thesis
    by (simp add: coverage_main_def CORE_PACKAGES_def rjust_def el_get_def numeral_2_eq_2)
qed

end
