(* ===== verification/Spec2Isabelle.thy ===== *)
theory Spec2Isabelle
  imports Result_Paths Reingest Migrations Cli_Output Prompt_Text Model_Client Eval_Facts Coverage_Gate
begin

text \<open>
  A verification development for \<open>flaketriage\<close>, the flaky-test triage agent under
  \<open>src/src/flaketriage\<close>, and its evaluation harness under \<open>src/eval\<close>.

  \<^bold>\<open>The program and how its parts interact.\<close> A CI job hands result files and a diff to \<open>ingest\<close>. The
  parsers turn them into cases and changed line ranges; every case is resolved to a test identity
  by a fingerprint; the identities, executions, diff and parse warnings are written to a SQLite
  store in one transaction; and tests that vanished are matched with tests that appeared, as
  aliases of one test. \<open>detect\<close> reads, for each group of aliased identities, the newest
  executions, folds them into windows per commit, leaves out failures of the platform, and decides
  on a verdict with its evidence. \<open>triage\<close> asks a model for the cause of the failing ones behind a
  cache, a budget, a cheap gate and one repair; validation and guardrails turn whatever comes back
  into a classification or an abstention, which is recorded. \<open>policy\<close> recommends quarantines from
  the detector's evidence, which the model can only veto, and renews, expires and releases them.
  \<open>report\<close> and \<open>stats\<close> print. The harness scores a keyword baseline and the classifier on a labelled
  corpus and keeps a results page.

  \<^bold>\<open>Theories and sources\<close> (paths under \<open>src/src/flaketriage\<close> unless \<open>eval/\<close>), in the order of the imports:

  \<^item> \<open>Prelude\<close>: Python strings, dictionaries as association lists, stable sorting, decimal formats.
  \<^item> \<open>Models\<close> (\<open>models.py\<close>), \<open>Config\<close> and \<open>Config_Load\<close> (\<open>config.py\<close>), \<open>Timestamps\<close> (\<open>datetime\<close> as
    \<open>datetime.isoformat\<close> and its parser, for every module that stores a time).
  \<^item> \<open>Similarity\<close>, \<open>Fingerprint\<close>, \<open>Alias\<close> (\<open>identity/\<close>), \<open>Junit\<close>, \<open>Diff\<close> (\<open>ingest/\<close>).
  \<^item> \<open>Migrations\<close> (\<open>store/schema.py\<close>, \<open>store/db.py\<close>), \<open>Store\<close> with its facts in \<open>Store_Facts\<close>
    (\<open>store/repositories.py\<close>): the database is a record of tables, a table the list of its rows in
    row-id order; a violated constraint is an error and a failing transaction has no result.
    \<open>Pipeline\<close> (\<open>ingest/pipeline.py\<close>, \<open>identity/reconcile.py\<close>) composes them; \<open>Result_Paths\<close> is the
    choice of the files and the ingest command from its arguments.
  \<^item> \<open>History\<close> (\<open>detect/history.py\<close>, \<open>detect/infra.py\<close>), \<open>Rates\<close>, \<open>Footprint\<close> with \<open>Regex\<close>, \<open>Detector\<close>
    (\<open>detect/\<close>), \<open>Window\<close> (\<open>report/window.py\<close>); \<open>Reingest\<close> is a retried ingest as the detector sees it.
  \<^item> \<open>Schema\<close>, \<open>Result_Cache\<close> (cache and prices), \<open>Prompt\<close>, \<open>Classifier\<close>, \<open>Prompt_Text\<close> (the texts
    word for word, with \<open>taxonomy.py\<close>), \<open>Model_Client\<close> (\<open>classify/\<close>).
    The counters a classifier mutates are the state that is passed.
  \<^item> \<open>Ownership\<close>, \<open>Quarantine\<close>, \<open>Quarantine_Records\<close> (\<open>policy/\<close>), \<open>Metrics\<close>, \<open>Exposition\<close>
    (\<open>obs/metrics.py\<close>), \<open>Report\<close> and \<open>Terminal\<close> (\<open>report/renderers.py\<close>), read back with \<open>Json_Reading\<close>.
  \<^item> \<open>Commands\<close> (the policy command) and \<open>Cli\<close> (\<open>ingest\<close>, \<open>detect\<close>, \<open>triage\<close>, \<open>report\<close>, \<open>stats\<close>) (\<open>cli.py\<close>,
    \<open>classify/wiring.py\<close>): the composition of all of the above. \<open>Cli_Output\<close>: what they print.
  \<^item> \<open>Eval_Metrics\<close>, \<open>Eval_Baseline\<close>, \<open>Eval_Corpus\<close> (transcribed literally), \<open>Eval_Run\<close>, with the
    evaluation of the baseline in \<open>Eval_Predictions\<close> and what follows in \<open>Eval_Facts\<close> (\<open>eval/\<close>).
  \<^item> \<open>Coverage_Gate\<close> (\<open>scripts/check_core_coverage.py\<close>).

  \<^bold>\<open>What the lemmas show.\<close> Per component: an invariant every operation keeps (the integrity of the store,
  the life of a quarantine, canonical ranges, grounded answers in the cache), the value of the
  operation on every branch, equality of optimised code with a plain definition (two-row edit
  distance, alias groups as connected components, one-pass search for the baseline's rules), and
  bounds (rates, spending, percentiles). Contracts between components are locales (the cache of
  answers, the grouping of identities, a normalised distance) interpreted on the model's own
  definitions. Across components: ingest always succeeds, counts nothing twice, and when
  retried changes no group and no detection; detection
  reports every test with an execution; a quarantine rests on the detector's evidence whatever the
  model says; triage reports exactly the detector's tests; a store is never left with a half-built
  schema; the terminal, JSON and Markdown views show the same findings; an ingest reads a set of
  files; the prompt offers the causes the validation accepts; the committed baseline figures are
  those of the code.

  \<^bold>\<open>Parameters.\<close> SHA-256 (\<open>sha\<close>, with collision-freeness assumed only where it is named), the XML
  tokenizer (the list of its events), the JSON decoder and Pydantic's lax coercion to a float, the
  model service (any function of the number of calls so far and the request), the git process, the
  clock, Python's \<open>hash\<close>, the TOML parser with validation, Python's ISO parser for \<open>--started-at\<close>, and
  the file system, as the answers to the questions the code asks it. The classifier takes the text of
  the prompts as an argument; \<open>Prompt_Text.shipped_texts\<close> is the one it is given.

  \<^bold>\<open>Numbers and termination.\<close> Floats are exact rationals (\<open>pyfloat\<close>) with infinities and NaN where the
  code meets them in input; rounding and formatting are written out on rationals. Integers are
  unbounded, as in Python. Every loop of the code is bounded by its data, so every function here is
  total and no fuel is used; the retry loop of the client ends by its retry count.

  \<^bold>\<open>Not modelled.\<close> The bytes read from and written to files, what Rich makes of the lines, tables and
  markup it is given (wrapping, colours), option parsing and its defaults (Typer), the set-up of
  logging (\<open>obs/logging.py\<close>), directory names of the harness (\<open>eval/paths.py\<close>), the re-exports of the
  package files; Unicode beyond Latin-1; time-outs of SQLite's busy handler.
\<close>

end
